(* ===== verification/GoLib.thy ===== *)
theory GoLib
  imports Main "HOL-Library.List_Lexorder" "HOL-Library.Char_ord"
begin

text \<open>
  Prelude: the parts of the Go language and its standard library that the controller
  relies on, and the lemmas every component shares.

  \<^item> \<open>int64\<close> arithmetic: values are \<open>int\<close>, and \<open>i64\<close> is the two's complement
    wrap-around, written out wherever a sum or product of the source may leave the range.
  \<^item> \<open>time.Time\<close> and \<open>time.Duration\<close>: both are \<open>int\<close>, in nanoseconds; a time counts from Go's
    zero time (January 1, year 1, 00:00:00 UTC), so \<open>IsZero t\<close> is \<open>t = 0\<close>.
    \<open>Time.Add\<close> is exact (a duration is at most 292 years, a time of an object lies in
    the years 1 to 9999, so Go's saturation at the end of time is out of reach);
    \<open>Time.Sub\<close> saturates at the ends of \<open>int64\<close>, as in Go.
  \<^item> \<open>float64\<close>: only integral values occur in the controller's decisions; \<open>f64\<close> rounds an integer to
    the nearest double, ties to even.
  \<^item> strings are byte lists; \<open>TrimSpace\<close>, \<open>EqualFold\<close> and \<open>ToLower\<close> treat the ASCII range
    and leave other bytes as they are.
  \<^item> Go maps are association lists read with \<open>map_of\<close>, so that equality of maps
    (\<open>maps.Equal\<close>) is a computable function and independent of any iteration order.
\<close>

section \<open>Collections of facts\<close>

named_theorems go_simps \<open>facts about the Go library functions that evaluate or normalise them\<close>

section \<open>Sized integers and floats\<close>

definition i64 :: "int \<Rightarrow> int" where
  "i64 x = (x + 2 ^ 63) mod 2 ^ 64 - 2 ^ 63"

abbreviation (input) maxInt64 :: int where
  "maxInt64 \<equiv> 9223372036854775807"

abbreviation (input) minInt64 :: int where
  "minInt64 \<equiv> - 9223372036854775808"

lemma i64_range: "minInt64 \<le> i64 x \<and> i64 x \<le> maxInt64"
proof -
  have "0 \<le> (x + 2 ^ 63) mod (2 ^ 64 :: int) \<and> (x + 2 ^ 63) mod (2 ^ 64 :: int) < 2 ^ 64"
    by simp
  then show ?thesis unfolding i64_def by simp
qed

lemma i64_id [go_simps]: "minInt64 \<le> x \<Longrightarrow> x \<le> maxInt64 \<Longrightarrow> i64 x = x"
  unfolding i64_def by simp

text \<open>The integer division of Go truncates towards zero.\<close>

definition quot :: "int \<Rightarrow> int \<Rightarrow> int" where
  "quot a b = sgn a * sgn b * (\<bar>a\<bar> div \<bar>b\<bar>)"

lemma quot_nonneg: "0 \<le> a \<Longrightarrow> 0 < b \<Longrightarrow> quot a b = a div b"
  by (cases "a = 0") (simp_all add: quot_def sgn_if)

text \<open>
  \<open>float64(x)\<close> of an integer: values of at most 53 bits are exact, larger ones are rounded
  to the nearest multiple of the last place, ties to even.
\<close>

function bitlen :: "int \<Rightarrow> nat" where
  "bitlen n = (if n \<le> 0 then 0 else Suc (bitlen (n div 2)))"
  by pat_completeness auto
termination
  by (relation "measure nat") auto

declare bitlen.simps [simp del]

definition round_half_even :: "int \<Rightarrow> nat \<Rightarrow> int" where
  "round_half_even n e =
     (let q = n div 2 ^ e; r = n mod 2 ^ e; h = 2 ^ (e - 1)
      in if r < h \<or> (r = h \<and> even q) then q * 2 ^ e else (q + 1) * 2 ^ e)"

definition f64 :: "int \<Rightarrow> int" where
  "f64 x =
     (let n = \<bar>x\<bar>; l = bitlen n
      in sgn x * (if l \<le> 53 then n else round_half_even n (l - 53)))"

text \<open>
  The conversion of a \<open>float64\<close> to \<open>int64\<close>: in range it is the value, out of range Go
  leaves the result to the implementation; this is what amd64 computes.
\<close>

definition f64_to_i64 :: "int \<Rightarrow> int" where
  "f64_to_i64 x = (if minInt64 \<le> x \<and> x \<le> maxInt64 then x else minInt64)"

lemma bitlen_le: "n < 2 ^ k \<Longrightarrow> bitlen n \<le> k"
proof (induction k arbitrary: n)
  case 0
  then show ?case by (simp add: bitlen.simps)
next
  case (Suc k)
  then have "n div 2 < 2 ^ k" by simp
  with Suc.IH have "bitlen (n div 2) \<le> k" by blast
  then show ?case by (subst bitlen.simps) simp
qed

lemma f64_exact [go_simps]:
  assumes "\<bar>x\<bar> < 2 ^ 53"
  shows "f64 x = x"
  using bitlen_le[OF assms] by (simp add: f64_def Let_def mult_sgn_abs)

lemma f64_to_i64_range: "minInt64 \<le> f64_to_i64 x \<and> f64_to_i64 x \<le> maxInt64"
  by (simp add: f64_to_i64_def)

section \<open>Time\<close>

type_synonym time = int
type_synonym duration = int

abbreviation (input) Nanosecond :: duration where "Nanosecond \<equiv> 1"
abbreviation (input) Millisecond :: duration where "Millisecond \<equiv> 1000000"
abbreviation (input) Second :: duration where "Second \<equiv> 1000000000"
abbreviation (input) Minute :: duration where "Minute \<equiv> 60000000000"
abbreviation (input) Hour :: duration where "Hour \<equiv> 3600000000000"

abbreviation (input) zero_time :: time where "zero_time \<equiv> 0"
abbreviation (input) IsZero :: "time \<Rightarrow> bool" where "IsZero t \<equiv> t = zero_time"
abbreviation (input) After :: "time \<Rightarrow> time \<Rightarrow> bool" where "After t u \<equiv> u < t"
abbreviation (input) Before :: "time \<Rightarrow> time \<Rightarrow> bool" where "Before t u \<equiv> t < u"
abbreviation (input) Add :: "time \<Rightarrow> duration \<Rightarrow> time" where "Add t d \<equiv> t + d"

definition Sub :: "time \<Rightarrow> time \<Rightarrow> duration" where
  "Sub t u = max minInt64 (min maxInt64 (t - u))"

lemma Sub_exact: "minInt64 \<le> t - u \<Longrightarrow> t - u \<le> maxInt64 \<Longrightarrow> Sub t u = t - u"
  by (simp add: Sub_def)

lemma Sub_gt: "d < maxInt64 \<Longrightarrow> minInt64 \<le> d \<Longrightarrow> d < Sub t u \<longleftrightarrow> u + d < t"
  by (auto simp: Sub_def)

text \<open>Seconds between Go's zero time and the Unix epoch.\<close>

abbreviation (input) unix_epoch :: int where "unix_epoch \<equiv> 62135596800"

definition UnixMilli :: "time \<Rightarrow> int" where
  "UnixMilli t = t div Millisecond - unix_epoch * 1000"

lemma UnixMilli_mono: "t \<le> u \<Longrightarrow> UnixMilli t \<le> UnixMilli u"
  by (simp add: UnixMilli_def zdiv_mono1)

lemma UnixMilli_strict: "t + Millisecond \<le> u \<Longrightarrow> UnixMilli t < UnixMilli u"
proof -
  assume "t + Millisecond \<le> u"
  then have "(t + Millisecond) div Millisecond \<le> u div Millisecond"
    by (rule zdiv_mono1) simp
  then show ?thesis by (simp add: UnixMilli_def)
qed

section \<open>Strings\<close>

definition is_space :: "char \<Rightarrow> bool" where
  "is_space c \<longleftrightarrow> (of_char c :: int) \<in> {9, 10, 11, 12, 13, 32}"

definition TrimSpace :: "string \<Rightarrow> string" where
  "TrimSpace s = rev (dropWhile is_space (rev (dropWhile is_space s)))"

definition lower_char :: "char \<Rightarrow> char" where
  "lower_char c = (if 65 \<le> (of_char c :: int) \<and> (of_char c :: int) \<le> 90 then char_of ((of_char c :: int) + 32) else c)"

definition upper_char :: "char \<Rightarrow> char" where
  "upper_char c = (if 97 \<le> (of_char c :: int) \<and> (of_char c :: int) \<le> 122 then char_of ((of_char c :: int) - 32) else c)"

abbreviation (input) ToLower :: "string \<Rightarrow> string" where "ToLower s \<equiv> map lower_char s"
abbreviation (input) ToUpper :: "string \<Rightarrow> string" where "ToUpper s \<equiv> map upper_char s"

definition EqualFold :: "string \<Rightarrow> string \<Rightarrow> bool" where
  "EqualFold s t \<longleftrightarrow> ToLower s = ToLower t"

definition HasPrefix :: "string \<Rightarrow> string \<Rightarrow> bool" where
  "HasPrefix s p \<longleftrightarrow> take (length p) s = p"

fun Contains :: "string \<Rightarrow> string \<Rightarrow> bool" where
  "Contains [] sub = (sub = [])"
| "Contains (c # s) sub = (HasPrefix (c # s) sub \<or> Contains s sub)"

text \<open>\<open>strings.Split\<close> with a one byte separator: never empty.\<close>

fun Split :: "char \<Rightarrow> string \<Rightarrow> string list" where
  "Split sep [] = [[]]"
| "Split sep (c # s) =
     (if c = sep then [] # Split sep s
      else (case Split sep s of [] \<Rightarrow> [[c]] | w # ws \<Rightarrow> (c # w) # ws))"

fun Join :: "string list \<Rightarrow> string \<Rightarrow> string" where
  "Join [] sep = []"
| "Join [w] sep = w"
| "Join (w # ws) sep = w @ sep @ Join ws sep"

lemma Split_nonempty [simp]: "Split sep s \<noteq> []"
  by (induction s) (auto split: list.splits)

lemma Split_no_sep: "sep \<notin> set w \<Longrightarrow> Split sep w = [w]"
  by (induction w) auto

lemma Split_append: "sep \<notin> set w \<Longrightarrow> Split sep (w @ sep # s) = w # Split sep s"
  by (induction w) auto

lemma Split_Join:
  assumes "ws \<noteq> []" and "\<forall>w \<in> set ws. sep \<notin> set w"
  shows "Split sep (Join ws [sep]) = ws"
  using assms
proof (induction ws "[sep]" rule: Join.induct)
  case 1
  then show ?case by simp
next
  case (2 w)
  then show ?case by (simp add: Split_no_sep)
next
  case (3 w v vs)
  then show ?case by (simp add: Split_append)
qed

lemma Split_elem_no_sep: "w \<in> set (Split sep s) \<Longrightarrow> sep \<notin> set w"
  by (induction s arbitrary: w) (auto split: if_splits list.splits)

lemma HasPrefix_append [simp]: "HasPrefix (p @ s) p"
  by (simp add: HasPrefix_def)

lemma HasPrefix_iff: "HasPrefix s p \<longleftrightarrow> (\<exists>r. s = p @ r)"
  unfolding HasPrefix_def by (metis append_eq_conv_conj append_take_drop_id)

lemma Contains_iff: "Contains s sub \<longleftrightarrow> (\<exists>a b. s = a @ sub @ b)"
proof (induction s)
  case Nil
  show ?case by simp
next
  case (Cons c s)
  have "(\<exists>a b. c # s = a @ sub @ b) \<longleftrightarrow>
        (\<exists>b. c # s = sub @ b) \<or> (\<exists>a b. s = a @ sub @ b)"
    by (metis append_Cons append_Nil list.exhaust list.inject)
  with Cons show ?case by (simp add: HasPrefix_iff)
qed

subsection \<open>Decimal numbers\<close>

definition digit :: "int \<Rightarrow> char" where
  "digit n = char_of (48 + n)"

definition is_digit :: "char \<Rightarrow> bool" where
  "is_digit c \<longleftrightarrow> 48 \<le> (of_char c :: int) \<and> (of_char c :: int) \<le> 57"

definition digit_val :: "char \<Rightarrow> int" where
  "digit_val c = of_char c - 48"

text \<open>The decimal digits of a natural number, given as \<open>int\<close>.\<close>

function format_nat :: "int \<Rightarrow> string" where
  "format_nat n = (if n < 10 then [digit n] else format_nat (n div 10) @ [digit (n mod 10)])"
  by pat_completeness auto
termination
  by (relation "measure nat") auto

declare format_nat.simps [simp del]

definition nat_of_digits :: "string \<Rightarrow> int" where
  "nat_of_digits s = foldl (\<lambda>n c. 10 * n + digit_val c) 0 s"

definition FormatInt :: "int \<Rightarrow> string" where
  "FormatInt i = (if i < 0 then ''-'' @ format_nat (- i) else format_nat i)"

text \<open>
  \<open>strconv.ParseInt(s, 10, 64)\<close>: the value and whether the error is nil. A syntax error
  gives 0, a value out of range the nearest \<open>int64\<close>.
\<close>

definition parse_digits :: "bool \<Rightarrow> string \<Rightarrow> int \<times> bool" where
  "parse_digits neg ds =
     (if ds = [] \<or> \<not> list_all is_digit ds then (0, False)
      else let n = nat_of_digits ds
           in if neg then (if n \<le> maxInt64 + 1 then (- n, True) else (minInt64, False))
              else (if n \<le> maxInt64 then (n, True) else (maxInt64, False)))"

fun ParseInt :: "string \<Rightarrow> int \<times> bool" where
  "ParseInt [] = (0, False)"
| "ParseInt (c # s) =
     (if c = CHR ''-'' then parse_digits True s
      else if c = CHR ''+'' then parse_digits False s
      else parse_digits False (c # s))"

definition FormatBool :: "bool \<Rightarrow> string" where
  "FormatBool b = (if b then ''true'' else ''false'')"

text \<open>\<open>strconv.ParseBool\<close>, the value only: the callers drop the error, which comes with false.\<close>

definition ParseBool :: "string \<Rightarrow> bool" where
  "ParseBool s \<longleftrightarrow> s \<in> {''1'', ''t'', ''T'', ''TRUE'', ''true'', ''True''}"

lemma of_char_digit: "0 \<le> n \<Longrightarrow> n < 10 \<Longrightarrow> (of_char (digit n) :: int) = 48 + n"
  by (simp add: digit_def)

lemma digit_facts [simp]:
  assumes "0 \<le> n" and "n < 10"
  shows "is_digit (digit n)" and "digit_val (digit n) = n"
  using assms by (simp_all add: is_digit_def digit_val_def of_char_digit)

lemma is_digit_not_sign: "is_digit c \<Longrightarrow> c \<noteq> CHR ''-'' \<and> c \<noteq> CHR ''+'' \<and> c \<noteq> CHR '',''"
  by (auto simp: is_digit_def)

lemma format_nat_digits: "0 \<le> n \<Longrightarrow> list_all is_digit (format_nat n)"
proof (induction n rule: format_nat.induct)
  case (1 n)
  then show ?case by (subst format_nat.simps) auto
qed

lemma format_nat_nonempty [simp]: "format_nat n \<noteq> []"
  by (subst format_nat.simps) simp

lemma nat_of_digits_snoc: "nat_of_digits (s @ [c]) = 10 * nat_of_digits s + digit_val c"
  by (simp add: nat_of_digits_def)

lemma nat_of_digits_format [simp]: "0 \<le> n \<Longrightarrow> nat_of_digits (format_nat n) = n"
proof (induction n rule: format_nat.induct)
  case (1 n)
  show ?case
  proof (cases "n < 10")
    case True
    with "1.prems" show ?thesis by (subst format_nat.simps) (simp add: nat_of_digits_def)
  next
    case False
    then have "nat_of_digits (format_nat n) = 10 * nat_of_digits (format_nat (n div 10)) + n mod 10"
      by (subst format_nat.simps) (simp add: nat_of_digits_snoc)
    with False "1" show ?thesis by simp
  qed
qed

lemma parse_format_nat:
  "0 \<le> n \<Longrightarrow> n \<le> maxInt64 \<Longrightarrow> ParseInt (format_nat n) = (n, True)"
proof -
  assume n: "0 \<le> n" "n \<le> maxInt64"
  obtain c s where cs: "format_nat n = c # s" by (cases "format_nat n") simp_all
  then have "is_digit c" using format_nat_digits[OF n(1)] by simp
  then have "ParseInt (format_nat n) = parse_digits False (format_nat n)"
    using cs is_digit_not_sign[of c] by simp
  with n format_nat_digits[OF n(1)] show ?thesis by (simp add: parse_digits_def Let_def)
qed

lemma ParseInt_FormatInt:
  assumes "minInt64 \<le> i" and "i \<le> maxInt64"
  shows "ParseInt (FormatInt i) = (i, True)"
proof (cases "i < 0")
  case True
  then show ?thesis
    using assms format_nat_digits[of "- i"]
    by (simp add: FormatInt_def parse_digits_def Let_def)
next
  case False
  with assms parse_format_nat[of i] show ?thesis by (simp add: FormatInt_def)
qed

lemma FormatInt_no_comma: "CHR '','' \<notin> set (FormatInt i)"
proof -
  have "CHR '','' \<notin> set (format_nat n)" if "0 \<le> n" for n
    using format_nat_digits[OF that] is_digit_not_sign by (auto simp: list_all_iff)
  then show ?thesis by (auto simp: FormatInt_def)
qed

lemma FormatInt_nonempty [simp]: "FormatInt i \<noteq> []"
  by (simp add: FormatInt_def)

lemma ParseBool_FormatBool [simp]: "ParseBool (FormatBool b) = b"
  by (simp add: ParseBool_def FormatBool_def)

section \<open>Maps\<close>

text \<open>A Go map; a nil map is the empty list.\<close>

type_synonym ('k, 'v) gomap = "('k \<times> 'v) list"

definition maps_equal :: "('k, 'v) gomap \<Rightarrow> ('k, 'v) gomap \<Rightarrow> bool" where
  "maps_equal a b \<longleftrightarrow> (\<forall>k \<in> set (map fst a @ map fst b). map_of a k = map_of b k)"

text \<open>\<open>m[k]\<close> of a map of strings: the zero value for a missing key.\<close>

definition get_str :: "('k, string) gomap \<Rightarrow> 'k \<Rightarrow> string" where
  "get_str m k = (case map_of m k of None \<Rightarrow> [] | Some v \<Rightarrow> v)"

definition has_key :: "('k, 'v) gomap \<Rightarrow> 'k \<Rightarrow> bool" where
  "has_key m k \<longleftrightarrow> map_of m k \<noteq> None"

definition map_put :: "'k \<Rightarrow> 'v \<Rightarrow> ('k, 'v) gomap \<Rightarrow> ('k, 'v) gomap" where
  "map_put k v m = (k, v) # filter (\<lambda>e. fst e \<noteq> k) m"

text \<open>\<open>slices.Sorted(maps.Keys(m))\<close>.\<close>

definition sorted_keys :: "('k :: linorder, 'v) gomap \<Rightarrow> 'k list" where
  "sorted_keys m = sort (remdups (map fst m))"

definition map_delete :: "'k \<Rightarrow> ('k, 'v) gomap \<Rightarrow> ('k, 'v) gomap" where
  "map_delete k m = filter (\<lambda>e. fst e \<noteq> k) m"

lemma maps_equal_iff: "maps_equal a b \<longleftrightarrow> map_of a = map_of b"
proof
  assume eq: "maps_equal a b"
  show "map_of a = map_of b"
  proof
    fix k
    show "map_of a k = map_of b k"
    proof (cases "k \<in> fst ` set a \<union> fst ` set b")
      case True
      with eq show ?thesis by (auto simp: maps_equal_def)
    next
      case False
      then have "map_of a k = None" and "map_of b k = None"
        by (auto simp: map_of_eq_None_iff)
      then show ?thesis by simp
    qed
  qed
qed (simp add: maps_equal_def)

lemma maps_equal_refl [simp]: "maps_equal a a"
  by (simp add: maps_equal_def)

lemma map_of_filter_key: "map_of (filter (\<lambda>e. fst e \<noteq> k) m) x = (if x = k then None else map_of m x)"
  by (induction m) auto

lemma length_map_put: "length (map_put k v m) \<le> Suc (length m)"
  by (simp add: map_put_def)

lemma map_of_put [simp]: "map_of (map_put k v m) = (map_of m)(k \<mapsto> v)"
  by (auto simp: map_put_def map_of_filter_key)

lemma dropWhile_sorted_none:
  assumes "sorted xs" and "y \<in> set (dropWhile P xs)" and "\<And>x y. \<not> P x \<Longrightarrow> x \<le> y \<Longrightarrow> \<not> P y"
  shows "\<not> P y"
  using assms
proof (induction xs)
  case (Cons x xs)
  then show ?case by (auto split: if_splits)
qed simp

lemma map_of_delete [simp]: "map_of (map_delete k m) = (map_of m)(k := None)"
  by (auto simp: map_delete_def map_of_filter_key)

lemma set_sorted_keys [simp]: "set (sorted_keys m) = fst ` set m"
  by (simp add: sorted_keys_def)

lemma distinct_sorted_keys [simp]: "distinct (sorted_keys m)"
  by (simp add: sorted_keys_def)

end
