(* ===== verification/GoTime.thy ===== *)
theory GoTime
  imports GoLib
begin

text \<open>
  The parts of Go's \<open>time\<close> package the controller uses beyond arithmetic: printing and
  parsing durations, and the calendar behind the RFC 3339 form of a time in UTC.
  The fraction of a duration such as \<open>1.5h\<close> is computed by Go in \<open>float64\<close>; \<open>rn53\<close> is the
  rounding of a quotient of integers to 53 significant bits, so the parsed value is the
  one the program computes.
\<close>

section \<open>Durations as text\<close>

fun strip_zeros :: "string \<Rightarrow> string" where
  "strip_zeros [] = []"
| "strip_zeros (c # s) = (if c = CHR ''0'' then strip_zeros s else c # s)"

definition pad_left :: "nat \<Rightarrow> string \<Rightarrow> string" where
  "pad_left k s = replicate (k - length s) CHR ''0'' @ s"

text \<open>\<open>fmtFrac\<close>: the fraction of \<open>v / 10 ^ prec\<close> without trailing zeros, with its point.\<close>

definition fmtFrac :: "int \<Rightarrow> nat \<Rightarrow> string" where
  "fmtFrac v prec =
     (let f = v mod 10 ^ prec
      in if f = 0 then '''' else ''.'' @ rev (strip_zeros (rev (pad_left prec (format_nat f)))))"

definition micro_sign :: string where
  "micro_sign = [char_of (194::int), char_of (181::int)]"

definition DurationString :: "duration \<Rightarrow> string" where
  "DurationString d =
     (let u = \<bar>d\<bar>;
          sec = u div 1000000000;
          body =
            (if u = 0 then ''0s''
             else if u < 1000 then format_nat u @ ''ns''
             else if u < 1000000 then format_nat (u div 1000) @ fmtFrac u 3 @ micro_sign @ ''s''
             else if u < 1000000000 then format_nat (u div 1000000) @ fmtFrac u 6 @ ''ms''
             else (if 3600 \<le> sec then format_nat (sec div 3600) @ ''h'' else '''') @
                  (if 60 \<le> sec then format_nat (sec div 60 mod 60) @ ''m'' else '''') @
                  format_nat (sec mod 60) @ fmtFrac u 9 @ ''s'')
      in if d < 0 then ''-'' @ body else body)"

text \<open>\<open>Duration.Round(m)\<close> for a positive \<open>m\<close>: to the nearest multiple, halves away from zero.\<close>

definition DurationRound :: "duration \<Rightarrow> duration \<Rightarrow> duration" where
  "DurationRound d m =
     (let r = \<bar>d\<bar> mod m
      in if d < 0 then (if r + r < m then d + r else max minInt64 (d - (m - r)))
         else (if r + r < m then d - r else min maxInt64 (d + (m - r))))"

section \<open>Parsing durations\<close>

text \<open>The nearest \<open>float64\<close> to \<open>n / d\<close> for \<open>0 \<le> n\<close>, as mantissa and binary exponent.\<close>

definition scaled :: "int \<Rightarrow> int \<Rightarrow> int \<Rightarrow> int \<times> int" where
  "scaled n d e = (n * 2 ^ nat (- e), d * 2 ^ nat e)"

definition rn53 :: "int \<Rightarrow> int \<Rightarrow> int \<times> int" where
  "rn53 n d =
     (let e0 = int (bitlen n) - int (bitlen d) - 53;
          e = (case scaled n d e0 of (a, b) \<Rightarrow> if a div b < 2 ^ 53 then e0 else e0 + 1)
      in case scaled n d e of (a, b) \<Rightarrow>
           (let q = a div b; r = a mod b
            in (if 2 * r < b \<or> (2 * r = b \<and> even q) then q else q + 1, e)))"

text \<open>\<open>uint64(float64(f) * (float64(unit) / scale))\<close>.\<close>

definition frac_ns :: "int \<Rightarrow> int \<Rightarrow> int \<Rightarrow> int" where
  "frac_ns f unit scale =
     (case rn53 f 1 of (m1, e1) \<Rightarrow>
      case rn53 unit scale of (m2, e2) \<Rightarrow>
      case rn53 (m1 * m2 * 2 ^ nat (e1 + e2)) (2 ^ nat (- (e1 + e2))) of (m, e) \<Rightarrow>
        m * 2 ^ nat e div 2 ^ nat (- e))"

definition unitMap :: "(string \<times> int) list" where
  "unitMap =
     [(''ns'', 1), (''us'', 1000), (micro_sign @ ''s'', 1000),
      ([char_of (206::int), char_of (188::int)] @ ''s'', 1000),
      (''ms'', Millisecond), (''s'', Second), (''m'', Minute), (''h'', Hour)]"

abbreviation (input) two63 :: int where "two63 \<equiv> 9223372036854775808"

text \<open>\<open>leadingInt\<close>: None when the number passes \<open>1 << 63\<close>.\<close>

fun leadingInt :: "int \<Rightarrow> string \<Rightarrow> (int \<times> string) option" where
  "leadingInt x [] = Some (x, [])"
| "leadingInt x (c # s) =
     (if \<not> is_digit c then Some (x, c # s)
      else if two63 div 10 < x then None
      else let y = x * 10 + digit_val c in if two63 < y then None else leadingInt y s)"

text \<open>\<open>leadingFraction\<close>: digits past the range are read and ignored.\<close>

fun leadingFraction :: "int \<Rightarrow> int \<Rightarrow> bool \<Rightarrow> string \<Rightarrow> int \<times> int \<times> string" where
  "leadingFraction x scale ovf [] = (x, scale, [])"
| "leadingFraction x scale ovf (c # s) =
     (if \<not> is_digit c then (x, scale, c # s)
      else if ovf then leadingFraction x scale True s
      else if maxInt64 div 10 < x then leadingFraction x scale True s
      else let y = x * 10 + digit_val c
           in if two63 < y then leadingFraction x scale True s
              else leadingFraction y (scale * 10) False s)"

definition unit_char :: "char \<Rightarrow> bool" where
  "unit_char c \<longleftrightarrow> \<not> (c = CHR ''.'' \<or> is_digit c)"

text \<open>
  The digits of one group: the integer part, the fraction with its scale, and the rest.
  No digit before and none after the point is an error.
\<close>

definition parse_number :: "string \<Rightarrow> (int \<times> int \<times> int \<times> string) option" where
  "parse_number s =
     (case leadingInt 0 s of None \<Rightarrow> None
      | Some (v, s1) \<Rightarrow>
        if s1 \<noteq> [] \<and> hd s1 = CHR ''.''
        then (case leadingFraction 0 1 False (tl s1) of (f, scale, s2) \<Rightarrow>
                if length s1 = length s \<and> length s2 = length (tl s1) then None else Some (v, f, scale, s2))
        else if length s1 = length s then None else Some (v, 0, 1, s1))"

text \<open>One \<open>number unit\<close> group of the loop: its value and the rest of the text.\<close>

definition parse_group :: "string \<Rightarrow> (int \<times> string) option" where
  "parse_group s =
     (if s = [] \<or> unit_char (hd s) then None
      else case parse_number s of None \<Rightarrow> None
      | Some (v, f, scale, s2) \<Rightarrow>
        (let u = takeWhile unit_char s2
         in if u = [] then None
            else case map_of unitMap u of None \<Rightarrow> None
            | Some unit \<Rightarrow>
              if two63 div unit < v then None
              else let v' = v * unit + (if 0 < f then frac_ns f unit scale else 0)
                   in if two63 < v' then None else Some (v', dropWhile unit_char s2)))"

text \<open>
  The loop over the groups. Every group consumes at least one byte, so the length of the
  text is fuel enough (\<open>parse_groups_fuel\<close> below).
\<close>

fun parse_groups :: "nat \<Rightarrow> int \<Rightarrow> string \<Rightarrow> int option" where
  "parse_groups fuel d [] = Some d"
| "parse_groups 0 d (c # s) = None"
| "parse_groups (Suc fuel) d (c # s) =
     (case parse_group (c # s) of None \<Rightarrow> None
      | Some (v, r) \<Rightarrow> if two63 < d + v then None else parse_groups fuel (d + v) r)"

definition duration_body :: "bool \<Rightarrow> string \<Rightarrow> duration option" where
  "duration_body neg s =
     (if s = ''0'' then Some 0
      else if s = [] then None
      else case parse_groups (length s) 0 s of None \<Rightarrow> None
      | Some d \<Rightarrow> if neg then Some (- d) else if maxInt64 < d then None else Some d)"

definition ParseDuration :: "string \<Rightarrow> duration option" where
  "ParseDuration s =
     duration_body (s \<noteq> [] \<and> hd s = CHR ''-'')
       (if s \<noteq> [] \<and> (hd s = CHR ''-'' \<or> hd s = CHR ''+'') then tl s else s)"

lemma leadingInt_length: "leadingInt x s = Some (v, r) \<Longrightarrow> length r \<le> length s"
  by (induction x s rule: leadingInt.induct) (auto simp: Let_def split: if_splits)

lemma leadingFraction_length: "leadingFraction x sc ovf s = (f, k, r) \<Longrightarrow> length r \<le> length s"
proof (induction x sc ovf s rule: leadingFraction.induct)
  case (2 x sc ovf c s)
  then show ?case by (cases "is_digit c") (auto simp: Let_def split: if_split_asm)
qed simp

lemma parse_number_length:
  assumes "parse_number s = Some (v, f, sc, r)"
  shows "length r \<le> length s"
proof -
  obtain s1 where li: "leadingInt 0 s = Some (v, s1)"
    using assms by (auto simp: parse_number_def split: option.splits if_splits prod.splits)
  have "length s1 \<le> length s" using li by (rule leadingInt_length)
  moreover have "length r \<le> length s1"
    using assms li leadingFraction_length[of 0 1 False "tl s1" f sc r]
    by (auto simp: parse_number_def split: if_splits prod.splits)
  ultimately show ?thesis by simp
qed

lemma parse_group_length:
  assumes "parse_group s = Some (v, r)"
  shows "length r < length s"
proof -
  obtain v1 f sc s2 where n: "parse_number s = Some (v1, f, sc, s2)"
    and u: "takeWhile unit_char s2 \<noteq> []" and r: "r = dropWhile unit_char s2"
    using assms by (auto simp: parse_group_def Let_def split: if_splits option.splits)
  have "length s2 = length (takeWhile unit_char s2) + length r"
    using r by (metis length_append takeWhile_dropWhile_id)
  with u parse_number_length[OF n] show ?thesis by (cases "takeWhile unit_char s2") auto
qed

text \<open>More fuel than the length of the text changes nothing: the loop is never cut short.\<close>

lemma parse_groups_fuel:
  "length s \<le> fuel \<Longrightarrow> parse_groups fuel d s = parse_groups (length s) d s"
proof (induction fuel arbitrary: d s rule: less_induct)
  case (less fuel)
  show ?case
  proof (cases s)
    case Nil
    then show ?thesis by (cases fuel) simp_all
  next
    case (Cons c cs)
    with less.prems obtain f where f: "fuel = Suc f" by (cases fuel) simp_all
    have "parse_groups f (d + v) r = parse_groups (length cs) (d + v) r"
      if "parse_group (c # cs) = Some (v, r)" for v r
    proof -
      have "length r \<le> length cs" using parse_group_length[OF that] by simp
      moreover have "length cs \<le> f" using less.prems Cons f by simp
      moreover have "f < fuel" using f by simp
      ultimately show ?thesis
        by (metis dual_order.trans le_neq_implies_less less.IH less_trans)
    qed
    with Cons f show ?thesis by (auto split: option.splits)
  qed
qed

lemma digit_val_nonneg: "is_digit c \<Longrightarrow> 0 \<le> digit_val c"
  by (simp add: is_digit_def digit_val_def)

lemma leadingInt_nonneg: "leadingInt x s = Some (v, r) \<Longrightarrow> 0 \<le> x \<Longrightarrow> 0 \<le> v"
  by (induction x s rule: leadingInt.induct)
     (auto simp: Let_def digit_val_nonneg split: if_splits)

lemma leadingFraction_nonneg:
  "leadingFraction x sc ovf s = (f, k, r) \<Longrightarrow> 0 \<le> x \<Longrightarrow> 0 < sc \<Longrightarrow> 0 \<le> f \<and> 0 < k"
proof (induction x sc ovf s rule: leadingFraction.induct)
  case (2 x sc ovf c s)
  have "0 \<le> x * 10 + digit_val c" if "is_digit c" using that "2.prems"(2) digit_val_nonneg by simp
  with 2 show ?case by (simp add: Let_def split: if_split_asm)
qed simp

lemma parse_number_nonneg:
  assumes "parse_number s = Some (v, f, sc, r)"
  shows "0 \<le> v \<and> 0 \<le> f \<and> 0 < sc"
  using assms leadingInt_nonneg[of 0 s] leadingFraction_nonneg[of 0 1 False]
  by (fastforce simp: parse_number_def split: option.splits if_splits prod.splits)

lemma rn53_nonneg: "0 \<le> n \<Longrightarrow> 0 < d \<Longrightarrow> 0 \<le> fst (rn53 n d)"
proof -
  assume nd: "0 \<le> n" "0 < d"
  then have "0 \<le> fst (scaled n d e) div snd (scaled n d e)" for e
    by (simp add: scaled_def pos_imp_zdiv_nonneg_iff)
  then show ?thesis by (simp add: rn53_def Let_def case_prod_beta add_nonneg_nonneg)
qed

lemma frac_ns_nonneg:
  assumes "0 \<le> f" and "0 \<le> unit" and "0 < scale"
  shows "0 \<le> frac_ns f unit scale"
proof -
  obtain m1 e1 m2 e2 m e where r1: "rn53 f 1 = (m1, e1)" and r2: "rn53 unit scale = (m2, e2)"
    and r3: "rn53 (m1 * m2 * 2 ^ nat (e1 + e2)) (2 ^ nat (- (e1 + e2))) = (m, e)"
    by (metis surj_pair)
  have "0 \<le> m1" "0 \<le> m2"
    using rn53_nonneg[of f 1] rn53_nonneg[of unit scale] assms r1 r2 by simp_all
  then have "0 \<le> m"
    using rn53_nonneg[of "m1 * m2 * 2 ^ nat (e1 + e2)" "2 ^ nat (- (e1 + e2))"] r3 by simp
  then show ?thesis
    unfolding frac_ns_def r1 r2 r3 prod.case by (simp add: pos_imp_zdiv_nonneg_iff)
qed

lemma unitMap_pos: "map_of unitMap u = Some k \<Longrightarrow> 0 < k"
  by (auto simp: unitMap_def split: if_splits)

lemma parse_group_nonneg:
  assumes "parse_group s = Some (v, r)"
  shows "0 \<le> v"
proof -
  obtain v1 f sc s2 unit where n: "parse_number s = Some (v1, f, sc, s2)"
    and u: "map_of unitMap (takeWhile unit_char s2) = Some unit"
    and v: "v = v1 * unit + (if 0 < f then frac_ns f unit sc else 0)"
    using assms by (auto simp: parse_group_def Let_def split: if_splits option.splits)
  have "0 \<le> v1 * unit" and "0 \<le> frac_ns f unit sc"
    using unitMap_pos[OF u] parse_number_nonneg[OF n] frac_ns_nonneg[of f unit sc] by auto
  with v show ?thesis by simp
qed

lemma parse_groups_bounds:
  "parse_groups fuel d s = Some r \<Longrightarrow> 0 \<le> d \<Longrightarrow> d \<le> two63 \<Longrightarrow> 0 \<le> r \<and> r \<le> two63"
proof (induction fuel d s rule: parse_groups.induct)
  case (3 fuel d c s)
  then obtain v q where g: "parse_group (c # s) = Some (v, q)" and le: "d + v \<le> two63"
    and p: "parse_groups fuel (d + v) q = Some r"
    by (auto split: option.splits if_splits)
  have "0 \<le> v" using g by (rule parse_group_nonneg)
  with "3.IH"[OF g refl _ p] le "3.prems" show ?case by simp
qed simp_all

lemma duration_body_Some:
  assumes "duration_body neg s = Some d"
  shows "d = 0 \<or> (\<exists>r. parse_groups (length s) 0 s = Some r \<and>
           (if neg then d = - r else d = r \<and> r \<le> maxInt64))"
  using assms by (auto simp: duration_body_def split: if_splits option.splits)

lemma duration_body_range:
  assumes "duration_body neg s = Some d"
  shows "minInt64 \<le> d \<and> d \<le> maxInt64 \<and> (\<not> neg \<longrightarrow> 0 \<le> d)"
  using duration_body_Some[OF assms] parse_groups_bounds[of "length s" 0 s]
  by (auto split: if_splits)

lemma ParseDuration_range:
  assumes "ParseDuration s = Some d"
  shows "minInt64 \<le> d \<and> d \<le> maxInt64"
  using assms duration_body_range unfolding ParseDuration_def by blast

lemma ParseDuration_nonneg:
  assumes "ParseDuration s = Some d" and "s = [] \<or> hd s \<noteq> CHR ''-''"
  shows "0 \<le> d"
proof -
  have neg: "(s \<noteq> [] \<and> hd s = CHR ''-'') = False" using assms(2) by blast
  obtain t where "duration_body False t = Some d"
    using assms(1) unfolding ParseDuration_def neg by blast
  then show ?thesis using duration_body_range[of False t d] by blast
qed

section \<open>The calendar\<close>

text \<open>
  The proleptic Gregorian date of a day number, counted from January 1 of year 1: whole
  cycles of 400, 100 and 4 years and single years are taken off, as Go does.
\<close>

definition year_of_day :: "int \<Rightarrow> int \<times> int" where
  "year_of_day d =
     (let n400 = d div 146097; r400 = d mod 146097;
          n100 = min 3 (r400 div 36524); r100 = r400 - 36524 * n100;
          n4 = r100 div 1461; r4 = r100 mod 1461;
          n1 = min 3 (r4 div 365)
      in (400 * n400 + 100 * n100 + 4 * n4 + n1 + 1, r4 - 365 * n1))"

definition is_leap :: "int \<Rightarrow> bool" where
  "is_leap y \<longleftrightarrow> 4 dvd y \<and> (\<not> 100 dvd y \<or> 400 dvd y)"

definition month_lengths :: "int \<Rightarrow> int list" where
  "month_lengths y = [31, if is_leap y then 29 else 28, 31, 30, 31, 30, 31, 31, 30, 31, 30, 31]"

fun month_of_yday :: "int list \<Rightarrow> int \<Rightarrow> int \<Rightarrow> int \<times> int" where
  "month_of_yday [] m d = (m, d + 1)"
| "month_of_yday (l # ls) m d = (if d < l then (m, d + 1) else month_of_yday ls (m + 1) (d - l))"

definition two_digits :: "int \<Rightarrow> string" where
  "two_digits n = pad_left 2 (format_nat n)"

text \<open>\<open>t.UTC().Format(time.RFC3339)\<close> for a time of the years 0 to 9999.\<close>

definition FormatRFC3339 :: "time \<Rightarrow> string" where
  "FormatRFC3339 t =
     (let s = t div Second; day = s div 86400; sod = s mod 86400;
          (y, yd) = year_of_day day;
          (m, d) = month_of_yday (month_lengths y) 1 yd
      in pad_left 4 (format_nat y) @ ''-'' @ two_digits m @ ''-'' @ two_digits d @ ''T'' @
         two_digits (sod div 3600) @ '':'' @ two_digits (sod div 60 mod 60) @ '':'' @
         two_digits (sod mod 60) @ ''Z'')"

end
