(* ===== verification/Policy.thy ===== *)
theory Policy
  imports GoTime
begin

text \<open>
  The policy a deployment's annotations declare (\<open>src/internal/policy/policy.go\<close>):
  reading, defaults, and the problems that make a policy unusable.
\<close>

section \<open>The policy\<close>

type_synonym mode = string

definition ModeAuto :: mode where "ModeAuto = ''auto''"
definition ModeOff :: mode where "ModeOff = ''off''"

lemma mode_distinct [simp]: "ModeAuto \<noteq> ModeOff" "ModeOff \<noteq> ModeAuto"
  by (simp_all add: ModeAuto_def ModeOff_def)

record Policy =
  p_Mode :: mode
  p_Sources :: "string list"
  p_SourcesAuto :: bool
  p_IdleAfter :: duration
  p_MinAwake :: duration
  p_Restart :: bool
  p_ConsumerGroup :: string
  p_IdleFromJob :: bool
  p_ResumeFromGroup :: bool
  p_MaxSleep :: duration
  p_DryRun :: bool
  p_Problems :: "string list"

definition zero_policy :: Policy where
  "zero_policy =
     \<lparr>p_Mode = '''', p_Sources = [], p_SourcesAuto = False, p_IdleAfter = 0, p_MinAwake = 0,
      p_Restart = False, p_ConsumerGroup = '''', p_IdleFromJob = False, p_ResumeFromGroup = False,
      p_MaxSleep = 0, p_DryRun = False, p_Problems = []\<rparr>"

definition problem :: "string \<Rightarrow> Policy \<Rightarrow> Policy" where
  "problem msg p = p\<lparr>p_Problems := p_Problems p @ [msg]\<rparr>"

section \<open>Durations with days\<close>

text \<open>
  The match of the expression for a leading day count: a sign, digits with an optional
  fraction, the letter d, and the rest. Returned are the sign, the number and the rest.
\<close>

definition day_count :: "string \<Rightarrow> (string \<times> string) option" where
  "day_count t =
     (let whole = takeWhile is_digit t;
          t1 = dropWhile is_digit t;
          frac = (if t1 \<noteq> [] \<and> hd t1 = CHR ''.'' then takeWhile is_digit (tl t1) else []);
          t2 = (if frac = [] then t1 else dropWhile is_digit (tl t1));
          num = (if frac = [] then whole else whole @ ''.'' @ frac)
      in if whole \<noteq> [] \<and> t2 \<noteq> [] \<and> hd t2 = CHR ''d'' \<and> CHR 0x0A \<notin> set (tl t2)
         then Some (num, tl t2) else None)"

definition days_match :: "string \<Rightarrow> (bool \<times> string \<times> string) option" where
  "days_match s =
     (if s \<noteq> [] \<and> hd s = CHR ''-'' then map_option (Pair True) (day_count (tl s))
      else map_option (Pair False) (day_count s))"

definition parseDuration :: "string \<Rightarrow> duration option" where
  "parseDuration s0 =
     (let s = TrimSpace s0
      in case days_match s of
           None \<Rightarrow> ParseDuration s
         | Some (neg, num, rest) \<Rightarrow>
             (case ParseDuration (num @ ''h'') of None \<Rightarrow> None
              | Some h \<Rightarrow>
                if maxInt64 div 24 < h then None
                else let d = i64 (h * 24)
                     in if rest = [] then Some (if neg then i64 (- d) else d)
                        else case ParseDuration rest of None \<Rightarrow> None
                        | Some r \<Rightarrow>
                          if r < 0 \<or> i64 (maxInt64 - d) < r \<or> HasPrefix rest ''+'' then None
                          else Some (if neg then i64 (- (i64 (d + r))) else i64 (d + r))))"

text \<open>
  \<open>duration\<close>: the value of an annotation, and the policy with a problem recorded when the
  value cannot be used; then the default stands.
\<close>

definition duration :: "Policy \<Rightarrow> string \<Rightarrow> (string, string) gomap \<Rightarrow> duration \<Rightarrow> bool \<Rightarrow> Policy \<times> duration" where
  "duration p key ann dflt zeroOK =
     (case map_of ann key of
        None \<Rightarrow> (p, dflt)
      | Some raw \<Rightarrow>
        if TrimSpace raw = [] then (p, dflt)
        else case parseDuration raw of
          None \<Rightarrow> (problem (key @ '' is not a duration: '' @ raw) p, dflt)
        | Some d \<Rightarrow>
          if d < 0 \<or> (d = 0 \<and> \<not> zeroOK)
          then (problem (key @ '' must be positive, got '' @ raw) p, dflt)
          else (p, d))"

section \<open>Reading the annotations\<close>

definition read_restart :: "string \<Rightarrow> (string, string) gomap \<Rightarrow> Policy \<Rightarrow> Policy" where
  "read_restart prefix ann p =
     (let restart = TrimSpace (get_str ann (prefix @ ''/restart''))
      in if restart = [] \<or> EqualFold restart ''auto'' then p
         else if EqualFold restart ''off'' then p\<lparr>p_Restart := False\<rparr>
         else problem (prefix @ ''/restart must be auto or off, got '' @ restart) p)"

definition read_mode :: "string \<Rightarrow> string \<Rightarrow> Policy \<Rightarrow> Policy" where
  "read_mode prefix mode p =
     (if EqualFold mode ''off'' then p\<lparr>p_Mode := ModeOff\<rparr>
      else if EqualFold mode ''auto'' then p
      else problem (prefix @ ''/mode must be auto or off, got '' @ mode) p)"

definition read_idle :: "string \<Rightarrow> (string, string) gomap \<Rightarrow> Policy \<Rightarrow> Policy" where
  "read_idle prefix ann p =
     (let idle = TrimSpace (get_str ann (prefix @ ''/idle''))
      in if idle = [] then p
         else if EqualFold idle ''job'' then p\<lparr>p_IdleFromJob := True\<rparr>
         else problem (prefix @ ''/idle must be job or absent, got '' @ idle) p)"

definition read_dry_run :: "string \<Rightarrow> (string, string) gomap \<Rightarrow> Policy \<Rightarrow> Policy" where
  "read_dry_run prefix ann p =
     (let dry = TrimSpace (get_str ann (prefix @ ''/dry-run''))
      in if dry = [] \<or> EqualFold dry ''false'' then p
         else if EqualFold dry ''true'' then p\<lparr>p_DryRun := True\<rparr>
         else problem (prefix @ ''/dry-run must be true or false, got '' @ dry) p)"

definition read_idle_after :: "string \<Rightarrow> (string, string) gomap \<Rightarrow> Policy \<Rightarrow> Policy" where
  "read_idle_after prefix ann p =
     (case duration p (prefix @ ''/idle-after'') ann (14 * 24 * Hour) False of
        (q, d) \<Rightarrow> q\<lparr>p_IdleAfter := d\<rparr>)"

definition read_min_awake :: "string \<Rightarrow> (string, string) gomap \<Rightarrow> Policy \<Rightarrow> Policy" where
  "read_min_awake prefix ann p =
     (case duration p (prefix @ ''/min-awake'') ann Hour True of (q, d) \<Rightarrow> q\<lparr>p_MinAwake := d\<rparr>)"

definition read_resume_from :: "string \<Rightarrow> (string, string) gomap \<Rightarrow> Policy \<Rightarrow> Policy" where
  "read_resume_from prefix ann p =
     (let fr = TrimSpace (get_str ann (prefix @ ''/resume-from''))
      in if fr = [] then p
         else if EqualFold fr ''group-offsets'' then
           (let q = p\<lparr>p_ResumeFromGroup := True\<rparr>
            in if p_ConsumerGroup p = []
               then problem (prefix @ ''/resume-from: group-offsets needs '' @ prefix @
                      ''/consumer-group, the group whose offsets the job resumes from'') q
               else q)
         else problem (prefix @ ''/resume-from must be group-offsets or absent, got '' @ fr) p)"

definition read_max_sleep :: "string \<Rightarrow> (string, string) gomap \<Rightarrow> Policy \<Rightarrow> Policy" where
  "read_max_sleep prefix ann p =
     (case duration p (prefix @ ''/max-sleep'') ann (6 * 24 * Hour) True of (q, d) \<Rightarrow> q\<lparr>p_MaxSleep := d\<rparr>)"

text \<open>The elements of a comma separated list, trimmed, without the empty ones.\<close>

definition trimmed_list :: "string \<Rightarrow> string list" where
  "trimmed_list s = filter (\<lambda>w. w \<noteq> []) (map TrimSpace (Split CHR '','' s))"

definition read_sources :: "string \<Rightarrow> (string, string) gomap \<Rightarrow> Policy \<Rightarrow> Policy" where
  "read_sources prefix ann p =
     (let raw = get_str ann (prefix @ ''/sources'');
          q = (if EqualFold (TrimSpace raw) ''auto'' then p\<lparr>p_SourcesAuto := True\<rparr>
               else p\<lparr>p_Sources := p_Sources p @ trimmed_list raw\<rparr>)
      in if p_Sources q = [] \<and> \<not> p_SourcesAuto q
         then problem (prefix @ ''/sources is required: comma-separated topic names, or auto'') q
         else q)"

definition read_bootstrap :: "string \<Rightarrow> (string, string) gomap \<Rightarrow> Policy \<Rightarrow> Policy" where
  "read_bootstrap prefix ann p =
     (if has_key ann (prefix @ ''/bootstrap-servers'')
      then problem (prefix @ ''/bootstrap-servers is reserved and not implemented yet; '' @
             ''the controller's Kafka cluster is set at install time'') p
      else p)"

text \<open>None when the object carries no policy at all.\<close>

definition Read :: "string \<Rightarrow> (string, string) gomap \<Rightarrow> Policy option" where
  "Read prefix ann =
     (case map_of ann (prefix @ ''/mode'') of
        None \<Rightarrow> None
      | Some mode \<Rightarrow>
        (let p0 = zero_policy\<lparr>p_Mode := ModeAuto, p_Restart := True,
                    p_ConsumerGroup := TrimSpace (get_str ann (prefix @ ''/consumer-group''))\<rparr>;
             p1 = read_restart prefix ann p0;
             p2 = read_mode prefix mode p1;
             p3 = read_idle prefix ann p2;
             p4 = read_dry_run prefix ann p3;
             p5 = read_idle_after prefix ann p4;
             p6 = read_min_awake prefix ann p5;
             p7 = read_resume_from prefix ann p6;
             p8 = read_max_sleep prefix ann p7;
             p9 = read_sources prefix ann p8
         in Some (read_bootstrap prefix ann p9)))"

section \<open>What parsing guarantees\<close>

lemma day_count_number:
  assumes "day_count t = Some (num, rest)"
  shows "num \<noteq> [] \<and> is_digit (hd num)"
proof -
  have w: "takeWhile is_digit t \<noteq> []"
    and n: "num = takeWhile is_digit t \<or> (\<exists>u. num = takeWhile is_digit t @ u)"
    using assms unfolding day_count_def Let_def by (auto split: if_split_asm)
  have "is_digit (hd (takeWhile is_digit t))"
    using w by (meson hd_in_set set_takeWhileD)
  with w n show ?thesis by auto
qed

lemma days_match_number:
  assumes "days_match s = Some (neg, num, rest)"
  shows "num \<noteq> [] \<and> is_digit (hd num)"
  using assms day_count_number unfolding days_match_def by (auto split: if_split_asm)

lemma days_hours_range:
  assumes "days_match s = Some (neg, num, rest)" and "ParseDuration (num @ ''h'') = Some h"
    and "\<not> maxInt64 div 24 < h"
  shows "0 \<le> h * 24 \<and> h * 24 \<le> maxInt64"
proof -
  have "num \<noteq> []" and "hd num \<noteq> CHR ''-''"
    using days_match_number[OF assms(1)] is_digit_not_sign by auto
  then have "0 \<le> h" by (intro ParseDuration_nonneg[OF assms(2)]) simp
  with assms(3) show ?thesis by simp
qed

text \<open>
  No sum or product of \<open>parseDuration\<close> wraps: with a day count, the value is the sign times
  the hours of the days plus the rest, computed exactly.
\<close>

lemma parseDuration_days:
  assumes m: "days_match (TrimSpace s) = Some (neg, num, rest)" and r: "parseDuration s = Some d"
  obtains h e where "ParseDuration (num @ ''h'') = Some h" "0 \<le> h" "0 \<le> e"
    "rest = [] \<and> e = 0 \<or> ParseDuration rest = Some e"
    "24 * h + e \<le> maxInt64" "d = (if neg then - (24 * h + e) else 24 * h + e)"
proof -
  obtain h where h: "ParseDuration (num @ ''h'') = Some h" and le: "\<not> maxInt64 div 24 < h"
    using r m by (auto simp: parseDuration_def Let_def split: option.splits if_splits)
  note range = days_hours_range[OF m h le]
  then have w: "i64 (h * 24) = 24 * h" by (simp add: i64_id)
  show ?thesis
  proof (cases "rest = []")
    case True
    then have "d = (if neg then - (24 * h) else 24 * h)"
      using r m h le w range by (auto simp: parseDuration_def Let_def i64_id)
    with h range True show ?thesis by (intro that[of h 0]) auto
  next
    case False
    have w2: "i64 (maxInt64 - 24 * h) = maxInt64 - 24 * h" using range by (simp add: i64_id)
    obtain e where e: "ParseDuration rest = Some e" and "0 \<le> e" and "e \<le> maxInt64 - 24 * h"
      and "d = (if neg then i64 (- (i64 (24 * h + e))) else i64 (24 * h + e))"
      using r m h le False by (auto simp: parseDuration_def Let_def w w2 split: option.splits if_splits)
    moreover have "i64 (24 * h + e) = 24 * h + e" and "i64 (- (24 * h + e)) = - (24 * h + e)"
      using calculation range by (simp_all add: i64_id)
    ultimately show ?thesis using h range by (intro that[of h e]) auto
  qed
qed

lemma parseDuration_bounds:
  assumes "parseDuration s = Some d"
  shows "minInt64 \<le> d \<and> d \<le> maxInt64"
proof (cases "days_match (TrimSpace s)")
  case None
  with assms show ?thesis using ParseDuration_range by (simp add: parseDuration_def Let_def)
next
  case (Some m)
  obtain neg num rest where "m = (neg, num, rest)" by (rule prod_cases3)
  with Some have "days_match (TrimSpace s) = Some (neg, num, rest)" by simp
  then show ?thesis using assms
  proof (rule parseDuration_days)
    fix h e
    assume "0 \<le> h" "0 \<le> e" "24 * h + e \<le> maxInt64"
      "d = (if neg then - (24 * h + e) else 24 * h + e)"
    then show ?thesis by (auto split: if_splits)
  qed
qed

section \<open>What reading guarantees\<close>

lemma problem_frame [simp]:
  "p_Mode (problem m p) = p_Mode p" "p_Sources (problem m p) = p_Sources p"
  "p_SourcesAuto (problem m p) = p_SourcesAuto p" "p_IdleAfter (problem m p) = p_IdleAfter p"
  "p_MinAwake (problem m p) = p_MinAwake p" "p_ConsumerGroup (problem m p) = p_ConsumerGroup p"
  "p_ResumeFromGroup (problem m p) = p_ResumeFromGroup p" "p_MaxSleep (problem m p) = p_MaxSleep p"
  "p_Problems (problem m p) \<noteq> []" "p_Restart (problem m p) = p_Restart p"
  "p_IdleFromJob (problem m p) = p_IdleFromJob p" "p_DryRun (problem m p) = p_DryRun p"
  by (simp_all add: problem_def)

text \<open>\<open>duration\<close> returns its policy or that policy with one more problem.\<close>

lemma duration_cases:
  obtains d where "duration p key ann dflt z = (p, d)" "d = dflt \<or> 0 < d \<and> d \<le> maxInt64 \<or> z \<and> d = 0"
  | m where "duration p key ann dflt z = (problem m p, dflt)"
proof (cases "map_of ann key")
  case None
  then show ?thesis by (intro that(1)[of dflt]) (simp_all add: duration_def)
next
  case (Some raw)
  show ?thesis
  proof (cases "TrimSpace raw = []")
    case True
    with Some show ?thesis by (intro that(1)[of dflt]) (simp_all add: duration_def)
  next
    case False
    show ?thesis
    proof (cases "parseDuration raw")
      case None
      with Some False show ?thesis by (intro that(2)) (simp add: duration_def)
    next
      case p: (Some d)
      show ?thesis
      proof (cases "d < 0 \<or> d = 0 \<and> \<not> z")
        case True
        with Some False p show ?thesis by (intro that(2)) (simp add: duration_def)
      next
        case ok: False
        with Some False p parseDuration_bounds[OF p] show ?thesis
          by (intro that(1)[of d]) (auto simp: duration_def)
      qed
    qed
  qed
qed

lemmas read_step_defs = read_restart_def read_mode_def read_idle_def read_dry_run_def
  read_resume_from_def read_sources_def read_bootstrap_def Let_def

text \<open>Which fields each step leaves alone.\<close>

lemma read_frame_clocks [simp]:
  "p_IdleAfter (read_resume_from x a p) = p_IdleAfter p" "p_IdleAfter (read_sources x a p) = p_IdleAfter p"
  "p_IdleAfter (read_bootstrap x a p) = p_IdleAfter p"
  "p_MinAwake (read_resume_from x a p) = p_MinAwake p" "p_MinAwake (read_sources x a p) = p_MinAwake p"
  "p_MinAwake (read_bootstrap x a p) = p_MinAwake p"
  "p_MaxSleep (read_sources x a p) = p_MaxSleep p" "p_MaxSleep (read_bootstrap x a p) = p_MaxSleep p"
  by (simp_all add: read_step_defs)

lemma read_frame_mode [simp]:
  "p_Mode (read_restart x a p) = p_Mode p" "p_Mode (read_idle x a p) = p_Mode p"
  "p_Mode (read_dry_run x a p) = p_Mode p" "p_Mode (read_resume_from x a p) = p_Mode p"
  "p_Mode (read_sources x a p) = p_Mode p" "p_Mode (read_bootstrap x a p) = p_Mode p"
  by (simp_all add: read_step_defs)

lemma read_idle_after_facts:
  "0 < p_IdleAfter (read_idle_after x a p) \<and> p_IdleAfter (read_idle_after x a p) \<le> maxInt64 \<and>
   p_Mode (read_idle_after x a p) = p_Mode p \<and> (p_Problems p \<noteq> [] \<longrightarrow> p_Problems (read_idle_after x a p) \<noteq> [])"
  by (rule duration_cases[of p "x @ ''/idle-after''" a "14 * 24 * Hour" False])
     (auto simp: read_idle_after_def)

lemma read_min_awake_facts:
  "0 \<le> p_MinAwake (read_min_awake x a p) \<and> p_MinAwake (read_min_awake x a p) \<le> maxInt64 \<and>
   p_Mode (read_min_awake x a p) = p_Mode p \<and> p_IdleAfter (read_min_awake x a p) = p_IdleAfter p"
  by (rule duration_cases[of p "x @ ''/min-awake''" a Hour True]) (auto simp: read_min_awake_def)

lemma read_max_sleep_facts:
  "0 \<le> p_MaxSleep (read_max_sleep x a p) \<and> p_MaxSleep (read_max_sleep x a p) \<le> maxInt64 \<and>
   p_Mode (read_max_sleep x a p) = p_Mode p \<and> p_IdleAfter (read_max_sleep x a p) = p_IdleAfter p \<and>
   p_MinAwake (read_max_sleep x a p) = p_MinAwake p \<and>
   p_ResumeFromGroup (read_max_sleep x a p) = p_ResumeFromGroup p \<and>
   p_ConsumerGroup (read_max_sleep x a p) = p_ConsumerGroup p \<and>
   p_Sources (read_max_sleep x a p) = p_Sources p \<and>
   (p_Problems (read_max_sleep x a p) = [] \<longrightarrow> p_Problems p = [])"
  by (rule duration_cases[of p "x @ ''/max-sleep''" a "6 * 24 * Hour" True]) (auto simp: read_max_sleep_def)

text \<open>
  A policy as the rest of the controller relies on it: one of the two modes and clocks that can
  only delay a suspend. \<open>policy_usable\<close> adds what holds when no problem was found.
\<close>

definition policy_wf :: "Policy \<Rightarrow> bool" where
  "policy_wf p \<longleftrightarrow>
     p_Mode p \<in> {ModeAuto, ModeOff} \<and> 0 < p_IdleAfter p \<and> p_IdleAfter p \<le> maxInt64 \<and>
     0 \<le> p_MinAwake p \<and> p_MinAwake p \<le> maxInt64 \<and> 0 \<le> p_MaxSleep p \<and> p_MaxSleep p \<le> maxInt64"

definition policy_usable :: "Policy \<Rightarrow> bool" where
  "policy_usable p \<longleftrightarrow>
     (p_SourcesAuto p \<or> p_Sources p \<noteq> []) \<and> [] \<notin> set (p_Sources p) \<and>
     (p_ResumeFromGroup p \<longrightarrow> p_ConsumerGroup p \<noteq> [])"

lemma Read_wf:
  assumes "Read prefix ann = Some p"
  shows "policy_wf p"
  using assms
  by (auto simp: Read_def Let_def policy_wf_def zero_policy_def
        read_idle_after_facts read_min_awake_facts read_max_sleep_facts
        read_mode_def split: option.splits)

lemma trimmed_list_nonempty [simp]: "[] \<notin> set (trimmed_list s)"
  by (simp add: trimmed_list_def)

lemma read_bootstrap_ok:
  "p_Problems (read_bootstrap x a p) = [] \<Longrightarrow> read_bootstrap x a p = p \<and> p_Problems p = []"
  by (cases "has_key a (x @ ''/bootstrap-servers'')") (simp_all add: read_bootstrap_def)

lemma read_sources_ok:
  assumes "p_Problems (read_sources x a p) = []" and "p_Sources p = []"
  shows "(p_SourcesAuto (read_sources x a p) \<or> p_Sources (read_sources x a p) \<noteq> []) \<and>
         [] \<notin> set (p_Sources (read_sources x a p)) \<and> p_Problems p = [] \<and>
         p_ResumeFromGroup (read_sources x a p) = p_ResumeFromGroup p \<and>
         p_ConsumerGroup (read_sources x a p) = p_ConsumerGroup p"
  using assms by (auto simp: read_sources_def Let_def split: if_splits)

lemma read_resume_from_ok:
  assumes "p_Problems (read_resume_from x a p) = []" and "\<not> p_ResumeFromGroup p"
  shows "p_ResumeFromGroup (read_resume_from x a p) \<longrightarrow> p_ConsumerGroup (read_resume_from x a p) \<noteq> []"
  using assms by (auto simp: read_resume_from_def Let_def split: if_splits)

lemma read_steps_keep [simp]:
  "p_Sources (read_restart x a p) = p_Sources p" "p_Sources (read_mode x m p) = p_Sources p"
  "p_Sources (read_idle x a p) = p_Sources p" "p_Sources (read_dry_run x a p) = p_Sources p"
  "p_Sources (read_resume_from x a p) = p_Sources p"
  "p_ResumeFromGroup (read_restart x a p) = p_ResumeFromGroup p"
  "p_ResumeFromGroup (read_mode x m p) = p_ResumeFromGroup p"
  "p_ResumeFromGroup (read_idle x a p) = p_ResumeFromGroup p"
  "p_ResumeFromGroup (read_dry_run x a p) = p_ResumeFromGroup p"
  by (simp_all add: read_step_defs)

lemma read_idle_after_keeps [simp]:
  "p_Sources (read_idle_after x a p) = p_Sources p \<and>
   p_ResumeFromGroup (read_idle_after x a p) = p_ResumeFromGroup p"
  by (rule duration_cases[of p "x @ ''/idle-after''" a "14 * 24 * Hour" False])
     (auto simp: read_idle_after_def)

lemma read_min_awake_keeps [simp]:
  "p_Sources (read_min_awake x a p) = p_Sources p \<and>
   p_ResumeFromGroup (read_min_awake x a p) = p_ResumeFromGroup p"
  by (rule duration_cases[of p "x @ ''/min-awake''" a Hour True]) (auto simp: read_min_awake_def)

lemma Read_usable:
  assumes "Read prefix ann = Some p" and "p_Problems p = []"
  shows "policy_usable p"
proof -
  obtain q where p: "p = read_bootstrap prefix ann (read_sources prefix ann (read_max_sleep prefix ann
      (read_resume_from prefix ann q)))" and q: "p_Sources q = []" "\<not> p_ResumeFromGroup q"
    using assms(1) by (auto simp: Read_def Let_def zero_policy_def split: option.splits)
  let ?r = "read_resume_from prefix ann q" let ?m = "read_max_sleep prefix ann ?r"
  let ?s = "read_sources prefix ann ?m"
  have s: "p = ?s" "p_Problems ?s = []" using read_bootstrap_ok assms(2) p by blast+
  have m: "p_Sources ?m = []" using q(1) read_max_sleep_facts by simp
  note ok = read_sources_ok[OF s(2) m]
  have "p_Problems ?r = []" using ok read_max_sleep_facts by blast
  from read_resume_from_ok[OF this q(2)] ok s(1) show ?thesis
    using read_max_sleep_facts[of prefix ann ?r] by (simp add: policy_usable_def)
qed

end
