(* ===== verification/PolicyProps.thy ===== *)
theory PolicyProps
  imports Policy
begin

text \<open>
  What reading the annotations guarantees the rest of the controller: which annotations make
  a policy usable, the values a usable policy carries, and durations with days.
\<close>

section \<open>When a policy has no problem\<close>

definition one_of :: "string \<Rightarrow> string list \<Rightarrow> bool" where
  "one_of v ws \<longleftrightarrow> list_ex (EqualFold v) ws"

definition duration_valid :: "(string, string) gomap \<Rightarrow> string \<Rightarrow> bool \<Rightarrow> bool" where
  "duration_valid ann key zeroOK \<longleftrightarrow>
     (case map_of ann key of
        None \<Rightarrow> True
      | Some raw \<Rightarrow> TrimSpace raw = [] \<or>
          (case parseDuration raw of None \<Rightarrow> False | Some d \<Rightarrow> 0 < d \<or> zeroOK \<and> d = 0))"

definition annotations_valid :: "string \<Rightarrow> (string, string) gomap \<Rightarrow> bool" where
  "annotations_valid prefix ann \<longleftrightarrow>
     (let val = (\<lambda>k. TrimSpace (get_str ann (prefix @ k)))
      in one_of (get_str ann (prefix @ ''/mode'')) [''auto'', ''off''] \<and>
         (val ''/restart'' = [] \<or> one_of (val ''/restart'') [''auto'', ''off'']) \<and>
         (val ''/idle'' = [] \<or> one_of (val ''/idle'') [''job'']) \<and>
         (val ''/dry-run'' = [] \<or> one_of (val ''/dry-run'') [''true'', ''false'']) \<and>
         duration_valid ann (prefix @ ''/idle-after'') False \<and>
         duration_valid ann (prefix @ ''/min-awake'') True \<and>
         duration_valid ann (prefix @ ''/max-sleep'') True \<and>
         (val ''/resume-from'' = [] \<or>
          one_of (val ''/resume-from'') [''group-offsets''] \<and> val ''/consumer-group'' \<noteq> []) \<and>
         (one_of (val ''/sources'') [''auto''] \<or> trimmed_list (get_str ann (prefix @ ''/sources'')) \<noteq> []) \<and>
         \<not> has_key ann (prefix @ ''/bootstrap-servers''))"

lemma problem_Problems [simp]: "p_Problems (problem m p) = p_Problems p @ [m]"
  by (simp add: problem_def)

lemma duration_problems:
  "p_Problems (fst (duration p key ann dflt z)) = [] \<longleftrightarrow> p_Problems p = [] \<and> duration_valid ann key z"
  by (auto simp: duration_def duration_valid_def split: option.split)

lemma read_duration_problems:
  "p_Problems (read_idle_after x a p) = [] \<longleftrightarrow> p_Problems p = [] \<and> duration_valid a (x @ ''/idle-after'') False"
  "p_Problems (read_min_awake x a p) = [] \<longleftrightarrow> p_Problems p = [] \<and> duration_valid a (x @ ''/min-awake'') True"
  "p_Problems (read_max_sleep x a p) = [] \<longleftrightarrow> p_Problems p = [] \<and> duration_valid a (x @ ''/max-sleep'') True"
  using duration_problems[of p "x @ ''/idle-after''" a "14 * 24 * Hour" False]
    duration_problems[of p "x @ ''/min-awake''" a Hour True]
    duration_problems[of p "x @ ''/max-sleep''" a "6 * 24 * Hour" True]
  by (auto simp: read_idle_after_def read_min_awake_def read_max_sleep_def split: prod.split)

lemma read_word_problems:
  "p_Problems (read_restart x a p) = [] \<longleftrightarrow> p_Problems p = [] \<and>
     (TrimSpace (get_str a (x @ ''/restart'')) = [] \<or> one_of (TrimSpace (get_str a (x @ ''/restart''))) [''auto'', ''off''])"
  "p_Problems (read_mode x m p) = [] \<longleftrightarrow> p_Problems p = [] \<and> one_of m [''auto'', ''off'']"
  "p_Problems (read_idle x a p) = [] \<longleftrightarrow> p_Problems p = [] \<and>
     (TrimSpace (get_str a (x @ ''/idle'')) = [] \<or> one_of (TrimSpace (get_str a (x @ ''/idle''))) [''job''])"
  "p_Problems (read_dry_run x a p) = [] \<longleftrightarrow> p_Problems p = [] \<and>
     (TrimSpace (get_str a (x @ ''/dry-run'')) = [] \<or> one_of (TrimSpace (get_str a (x @ ''/dry-run''))) [''true'', ''false''])"
  "p_Problems (read_bootstrap x a p) = [] \<longleftrightarrow> p_Problems p = [] \<and> \<not> has_key a (x @ ''/bootstrap-servers'')"
  "p_Problems (read_resume_from x a p) = [] \<longleftrightarrow> p_Problems p = [] \<and>
     (TrimSpace (get_str a (x @ ''/resume-from'')) = [] \<or>
      one_of (TrimSpace (get_str a (x @ ''/resume-from''))) [''group-offsets''] \<and> p_ConsumerGroup p \<noteq> [])"
  by (auto simp: read_step_defs one_of_def)

lemma read_sources_problems:
  assumes "p_Sources p = []" and "\<not> p_SourcesAuto p"
  shows "p_Problems (read_sources x a p) = [] \<longleftrightarrow> p_Problems p = [] \<and>
     (one_of (TrimSpace (get_str a (x @ ''/sources''))) [''auto''] \<or>
      trimmed_list (get_str a (x @ ''/sources'')) \<noteq> [])"
  using assms by (auto simp: read_sources_def Let_def one_of_def)

text \<open>The fields the last steps look at come unchanged from the start.\<close>

lemma read_keeps_inputs [simp]:
  "p_ConsumerGroup (read_restart x a p) = p_ConsumerGroup p" "p_ConsumerGroup (read_mode x m p) = p_ConsumerGroup p"
  "p_ConsumerGroup (read_idle x a p) = p_ConsumerGroup p" "p_ConsumerGroup (read_dry_run x a p) = p_ConsumerGroup p"
  "p_SourcesAuto (read_restart x a p) = p_SourcesAuto p" "p_SourcesAuto (read_mode x m p) = p_SourcesAuto p"
  "p_SourcesAuto (read_idle x a p) = p_SourcesAuto p" "p_SourcesAuto (read_dry_run x a p) = p_SourcesAuto p"
  "p_SourcesAuto (read_resume_from x a p) = p_SourcesAuto p"
  by (simp_all add: read_step_defs)

lemma duration_keeps_inputs:
  "p_ConsumerGroup (fst (duration p key ann dflt z)) = p_ConsumerGroup p \<and>
   p_SourcesAuto (fst (duration p key ann dflt z)) = p_SourcesAuto p \<and>
   p_Sources (fst (duration p key ann dflt z)) = p_Sources p"
  by (auto simp: duration_def split: option.split)

lemma read_durations_keep_inputs [simp]:
  "p_ConsumerGroup (read_idle_after x a p) = p_ConsumerGroup p" "p_SourcesAuto (read_idle_after x a p) = p_SourcesAuto p"
  "p_ConsumerGroup (read_min_awake x a p) = p_ConsumerGroup p" "p_SourcesAuto (read_min_awake x a p) = p_SourcesAuto p"
  "p_SourcesAuto (read_max_sleep x a p) = p_SourcesAuto p" "p_Sources (read_max_sleep x a p) = p_Sources p"
  using duration_keeps_inputs[of p "x @ ''/idle-after''" a "14 * 24 * Hour" False]
    duration_keeps_inputs[of p "x @ ''/min-awake''" a Hour True]
    duration_keeps_inputs[of p "x @ ''/max-sleep''" a "6 * 24 * Hour" True]
  by (auto simp: read_idle_after_def read_min_awake_def read_max_sleep_def split: prod.split)

lemma read_steps_chain:
  assumes p: "p_Sources p = []" "\<not> p_SourcesAuto p" "p_Problems p = []"
    and g: "p_ConsumerGroup p = TrimSpace (get_str a (x @ ''/consumer-group''))"
  shows "p_Problems (read_bootstrap x a (read_sources x a (read_max_sleep x a (read_resume_from x a
      (read_min_awake x a (read_idle_after x a (read_dry_run x a (read_idle x a
      (read_mode x (get_str a (x @ ''/mode'')) (read_restart x a p)))))))))) = [] \<longleftrightarrow> annotations_valid x a"
    (is "p_Problems (read_bootstrap x a (read_sources x a ?q)) = [] \<longleftrightarrow> _")
proof -
  have "p_Sources ?q = []" and "\<not> p_SourcesAuto ?q" using p(1,2) by simp_all
  note sources = read_sources_problems[OF this]
  show ?thesis
    using p(3) g
    by (simp only: read_word_problems(5) sources read_duration_problems)
       (auto simp: read_word_problems read_duration_problems annotations_valid_def Let_def)
qed

text \<open>
  C36. When a policy is usable. An object carries a policy exactly if it has the mode
  annotation, and the policy has no problem exactly if every annotation can be read: mode and
  restart are auto or off, idle is job or absent, dry-run is a boolean or absent, the three
  durations parse and are not negative (idle-after not zero either), group-offsets names
  a consumer group, there is a source or auto, and the reserved key is absent. So a policy is
  never refused for a valid annotation and never accepted with an invalid one.
\<close>

theorem Read_valid_iff:
  "(case Read prefix ann of
      None \<Rightarrow> map_of ann (prefix @ ''/mode'') = None
    | Some p \<Rightarrow> map_of ann (prefix @ ''/mode'') \<noteq> None \<and> (p_Problems p = [] \<longleftrightarrow> annotations_valid prefix ann))"
proof (cases "map_of ann (prefix @ ''/mode'')")
  case None
  then show ?thesis by (simp add: Read_def)
next
  case (Some m)
  then have "m = get_str ann (prefix @ ''/mode'')" by (simp add: get_str_def)
  then show ?thesis
    using Some by (simp add: Read_def Let_def) (subst read_steps_chain; simp add: zero_policy_def)
qed

section \<open>What a usable policy carries\<close>

text \<open>
  C37. The values a policy carries. Whatever the annotations say, the mode is auto or off and
  every clock is a non-negative \<open>int64\<close>, idle-after a positive one: a bad value falls back to
  the default and is recorded. With no problem recorded there is a source to watch (none of
  them the empty name) or auto, and a job resuming from group offsets has a group.
\<close>

theorem Read_sound:
  assumes "Read prefix ann = Some p"
  shows "policy_wf p \<and> (p_Problems p = [] \<longrightarrow> policy_usable p)"
  using assms Read_wf Read_usable by blast

definition orders_annotations :: "(string, string) gomap" where
  "orders_annotations =
     [(''siesta.flink.io/mode'', ''auto''), (''siesta.flink.io/sources'', '' orders , payments''),
      (''siesta.flink.io/idle-after'', ''1d12h''), (''siesta.flink.io/resume-from'', ''group-offsets''),
      (''siesta.flink.io/consumer-group'', ''billing''), (''siesta.flink.io/max-sleep'', ''0'')]"

theorem Read_sound_witness:
  "\<exists>p. Read ''siesta.flink.io'' orders_annotations = Some p \<and> p_Problems p = [] \<and>
     p_IdleAfter p = 36 * Hour \<and> p_Sources p = [''orders'', ''payments''] \<and> policy_wf p \<and> policy_usable p"
proof -
  let ?p = "\<lparr>p_Mode = ModeAuto, p_Sources = [''orders'', ''payments''], p_SourcesAuto = False,
      p_IdleAfter = 36 * Hour, p_MinAwake = Hour, p_Restart = True, p_ConsumerGroup = ''billing'',
      p_IdleFromJob = False, p_ResumeFromGroup = True, p_MaxSleep = 0, p_DryRun = False, p_Problems = []\<rparr>"
  have "Read ''siesta.flink.io'' orders_annotations = Some ?p" by code_simp
  with Read_sound[OF this] show ?thesis by (intro exI[of _ ?p]) simp
qed

section \<open>Durations in days\<close>

lemma foldl_digits_mono:
  "list_all is_digit ds \<Longrightarrow> 0 \<le> x \<Longrightarrow> x \<le> foldl (\<lambda>n c. 10 * n + digit_val c) x ds"
proof (induction ds arbitrary: x)
  case (Cons c ds)
  then have "0 \<le> digit_val c" by (simp add: digit_val_nonneg)
  with Cons.prems have "x \<le> 10 * x + digit_val c" and "0 \<le> 10 * x + digit_val c" by simp_all
  with Cons show ?case by fastforce
qed simp

lemma leadingInt_digits:
  assumes "list_all is_digit ds" and "0 \<le> x" and "\<not> is_digit c"
    and "foldl (\<lambda>n c. 10 * n + digit_val c) x ds \<le> two63"
  shows "leadingInt x (ds @ c # r) = Some (foldl (\<lambda>n c. 10 * n + digit_val c) x ds, c # r)"
  using assms
proof (induction ds arbitrary: x)
  case (Cons d ds)
  let ?y = "10 * x + digit_val d"
  have y: "0 \<le> ?y" "0 \<le> digit_val d" using Cons.prems by (simp_all add: digit_val_nonneg)
  then have "?y \<le> two63"
    using foldl_digits_mono[of ds ?y] Cons.prems by simp
  with y Cons show ?case by (simp add: Let_def mult.commute)
qed simp

lemma ParseDuration_hours:
  assumes "0 \<le> n" and "n * Hour \<le> maxInt64"
  shows "ParseDuration (FormatInt n @ ''h'') = Some (n * Hour)"
proof -
  let ?s = "format_nat n @ ''h''"
  have f: "FormatInt n = format_nat n" using assms by (simp add: FormatInt_def)
  have d: "list_all is_digit (format_nat n)" using assms(1) by (rule format_nat_digits)
  obtain c s where cs: "format_nat n = c # s" by (cases "format_nat n") simp_all
  with d have c: "is_digit c" by simp
  have "leadingInt 0 (format_nat n @ CHR ''h'' # []) = Some (n, ''h'')"
    using leadingInt_digits[OF d, of 0 "CHR ''h''" "[]"] assms nat_of_digits_format[of n]
    by (simp add: nat_of_digits_def is_digit_def)
  then have "parse_number ?s = Some (n, 0, 1, ''h'')"
    by (simp add: parse_number_def)
  moreover have "takeWhile unit_char ''h'' = ''h''" "dropWhile unit_char ''h'' = []"
    "map_of unitMap ''h'' = Some Hour"
    by (simp_all add: unit_char_def is_digit_def unitMap_def micro_sign_def)
  ultimately have g: "parse_group ?s = Some (n * Hour, [])"
    using c cs assms by (simp add: parse_group_def unit_char_def)
  have "parse_groups (length ?s) 0 ?s = Some (n * Hour)"
    using g cs assms by simp
  then have "duration_body False ?s = Some (n * Hour)"
    using cs assms by (auto simp: duration_body_def)
  then show ?thesis
    using f cs c is_digit_not_sign[of c] by (simp add: ParseDuration_def)
qed

lemma takeWhile_digits:
  "list_all is_digit ds \<Longrightarrow> \<not> is_digit c \<Longrightarrow>
     takeWhile is_digit (ds @ c # r) = ds \<and> dropWhile is_digit (ds @ c # r) = c # r"
  by (induction ds) simp_all

lemma dropWhile_hd: "s \<noteq> [] \<Longrightarrow> \<not> P (hd s) \<Longrightarrow> dropWhile P s = s"
  by (cases s) simp_all

lemma TrimSpace_id: "s \<noteq> [] \<Longrightarrow> \<not> is_space (hd s) \<Longrightarrow> \<not> is_space (last s) \<Longrightarrow> TrimSpace s = s"
  by (simp add: TrimSpace_def dropWhile_hd hd_rev)

text \<open>
  Whole days. A whole number of days that fits is read exactly as that many times 24
  hours, and a negative one as its negation, which no annotation accepts.
\<close>

theorem parseDuration_whole_days:
  assumes "0 \<le> n" and "n * 24 * Hour \<le> maxInt64"
  shows "parseDuration (FormatInt n @ ''d'') = Some (n * 24 * Hour) \<and>
     parseDuration (''-'' @ FormatInt n @ ''d'') = Some (- (n * 24 * Hour))"
proof -
  have f: "FormatInt n = format_nat n" using assms by (simp add: FormatInt_def)
  have d: "list_all is_digit (format_nat n)" using assms(1) by (rule format_nat_digits)
  obtain c s where cs: "format_nat n = c # s" by (cases "format_nat n") simp_all
  with d have c: "is_digit c" by simp
  then have nsp: "\<not> is_space c" and nm: "c \<noteq> CHR ''-''"
    by (auto simp: is_digit_def is_space_def)
  have t: "TrimSpace (format_nat n @ ''d'') = format_nat n @ ''d''"
    "TrimSpace (''-'' @ format_nat n @ ''d'') = ''-'' @ format_nat n @ ''d''"
    using cs nsp by (auto intro!: TrimSpace_id simp: is_space_def)
  have "day_count (format_nat n @ ''d'') = Some (format_nat n, [])"
    using takeWhile_digits[OF d, of "CHR ''d''" "[]"] by (simp add: day_count_def is_digit_def Let_def)
  then have m: "days_match (format_nat n @ ''d'') = Some (False, format_nat n, [])"
    "days_match (''-'' @ format_nat n @ ''d'') = Some (True, format_nat n, [])"
    using cs nm by (simp_all add: days_match_def)
  have h: "ParseDuration (format_nat n @ ''h'') = Some (n * Hour)"
    using ParseDuration_hours[OF assms(1)] assms f by simp
  have le: "\<not> maxInt64 div 24 < n * Hour" using assms by simp
  have w: "i64 (n * Hour * 24) = n * 24 * Hour" "i64 (- (n * 24 * Hour)) = - (n * 24 * Hour)"
    using assms by (simp_all add: i64_id)
  show ?thesis
    using f t m h le w by (simp add: parseDuration_def Let_def)
qed

end
