(* ===== verification/Restart.thy ===== *)
theory Restart
  imports GoLib
begin

text \<open>
  The restart budget (\<open>src/internal/state/restart.go\<close>): how many restarts a window allows,
  and the growing wait between them. \<open>Multiplier\<close> is a \<open>float64\<close> in the source and always 2
  (\<open>cmd/main.go\<close>); the model takes it as an integer, so its powers are exact, and rounds
  the first wait and the product as \<open>float64\<close> does.
\<close>

section \<open>The budget\<close>

record RestartBudget =
  b_Count :: int
  b_WindowStart :: time
  b_NextAfter :: time
  b_LastNonce :: int

definition zero_budget :: RestartBudget where
  "zero_budget = \<lparr>b_Count = 0, b_WindowStart = zero_time, b_NextAfter = zero_time, b_LastNonce = 0\<rparr>"

text \<open>A budget older than the window is a fresh budget.\<close>

definition rolled :: "RestartBudget \<Rightarrow> time \<Rightarrow> duration \<Rightarrow> RestartBudget" where
  "rolled b now window =
     (if IsZero (b_WindowStart b) \<or> After now (Add (b_WindowStart b) window)
      then zero_budget\<lparr>b_LastNonce := b_LastNonce b\<rparr>
      else b)"

definition Exhausted :: "RestartBudget \<Rightarrow> time \<Rightarrow> int \<Rightarrow> duration \<Rightarrow> bool" where
  "Exhausted b now limit window \<longleftrightarrow> limit \<le> b_Count (rolled b now window)"

definition InBackoff :: "RestartBudget \<Rightarrow> time \<Rightarrow> duration \<Rightarrow> bool" where
  "InBackoff b now window \<longleftrightarrow>
     (let b = rolled b now window in \<not> IsZero (b_NextAfter b) \<and> Before now (b_NextAfter b))"

definition Allows :: "RestartBudget \<Rightarrow> time \<Rightarrow> int \<Rightarrow> duration \<Rightarrow> bool" where
  "Allows b now limit window \<longleftrightarrow> \<not> Exhausted b now limit window \<and> \<not> InBackoff b now window"

text \<open>\<open>time.Duration(float64(base) * math.Pow(multiplier, float64(count)))\<close>.\<close>

definition backoff :: "duration \<Rightarrow> int \<Rightarrow> int \<Rightarrow> duration" where
  "backoff base multiplier count =
     f64_to_i64
       (if 0 \<le> count then f64 (f64 base * multiplier ^ nat count)
        else quot (f64 base) (multiplier ^ nat (- count)))"

definition Consume :: "RestartBudget \<Rightarrow> time \<Rightarrow> duration \<Rightarrow> duration \<Rightarrow> int \<Rightarrow> RestartBudget" where
  "Consume b now window base multiplier =
     (let b = rolled b now window;
          start = (if IsZero (b_WindowStart b) then now else b_WindowStart b)
      in \<lparr>b_Count = b_Count b + 1, b_WindowStart = start,
          b_NextAfter = Add now (backoff base multiplier (b_Count b)), b_LastNonce = b_LastNonce b\<rparr>)"

section \<open>Its invariant and the wait between restarts\<close>

text \<open>
  A budget that has not been used has no window; one that has was opened by a restart in
  the past. Memory is read back at a later time, so \<open>now\<close> only grows.
\<close>

definition budget_ok :: "RestartBudget \<Rightarrow> time \<Rightarrow> bool" where
  "budget_ok b now \<longleftrightarrow>
     0 \<le> b_Count b \<and> b_WindowStart b \<le> now \<and> (IsZero (b_WindowStart b) \<longrightarrow> b_Count b = 0)"

lemma budget_ok_later: "budget_ok b t \<Longrightarrow> t \<le> now \<Longrightarrow> budget_ok b now"
  by (auto simp: budget_ok_def)

lemma rolled_cases:
  obtains "rolled b now w = b" "\<not> IsZero (b_WindowStart b)" "now \<le> b_WindowStart b + w"
  | "rolled b now w = zero_budget\<lparr>b_LastNonce := b_LastNonce b\<rparr>"
    "IsZero (b_WindowStart b) \<or> b_WindowStart b + w < now"
  by (cases "IsZero (b_WindowStart b) \<or> b_WindowStart b + w < now") (auto simp: rolled_def)

lemma rolled_nonce [simp]: "b_LastNonce (rolled b now w) = b_LastNonce b"
  by (simp add: rolled_def)

lemma rolled_ok: "budget_ok b now \<Longrightarrow> 0 \<le> now \<Longrightarrow> budget_ok (rolled b now w) now"
  by (simp add: rolled_def budget_ok_def zero_budget_def)

lemma rolled_idem [simp]: "rolled (rolled b now w) now w = rolled b now w"
  by (simp add: rolled_def zero_budget_def)

lemma Consume_ok:
  assumes "budget_ok b now" and "0 < now"
  shows "budget_ok (Consume b now w base m) now"
  using rolled_ok[OF assms(1), of w] assms(2) by (auto simp: Consume_def Let_def budget_ok_def)

lemma Consume_nonce [simp]: "b_LastNonce (Consume b now w base m) = b_LastNonce b"
  by (simp add: Consume_def Let_def)

lemma Consume_count: "b_Count (Consume b now w base m) = b_Count (rolled b now w) + 1"
  by (simp add: Consume_def Let_def)

lemma Consume_start:
  "b_WindowStart (Consume b now w base m) =
     (if IsZero (b_WindowStart b) \<or> b_WindowStart b + w < now then now else b_WindowStart b)"
  by (auto simp: Consume_def rolled_def zero_budget_def Let_def)

lemma Allows_count: "Allows b now limit w \<Longrightarrow> b_Count (rolled b now w) < limit"
  by (simp add: Allows_def Exhausted_def)

text \<open>The multiplier of the program doubles the wait while the product is exact.\<close>

lemma backoff_exact:
  assumes "0 \<le> base" and "0 \<le> count" and "base * 2 ^ nat count < 2 ^ 53"
  shows "backoff base 2 count = base * 2 ^ nat count"
proof -
  have "base * 1 \<le> base * 2 ^ nat count" using assms(1) by (intro mult_left_mono) simp_all
  with assms have "f64 base = base" and "f64 (base * 2 ^ nat count) = base * 2 ^ nat count"
    by (simp_all add: f64_exact)
  moreover have "0 \<le> base * 2 ^ nat count" using assms(1) by simp
  then have "minInt64 \<le> base * 2 ^ nat count" by linarith
  ultimately show ?thesis using assms by (simp add: backoff_def f64_to_i64_def)
qed

section \<open>The limit over time\<close>

text \<open>
  \<open>grants\<close> plays the budget over a sequence of failing ticks the way the decider does: a
  restart is granted exactly when the budget allows one, and is then consumed.
  \<open>spent\<close> is the budget that is left after them.
\<close>

fun grants :: "int \<Rightarrow> duration \<Rightarrow> duration \<Rightarrow> int \<Rightarrow> RestartBudget \<Rightarrow> time list \<Rightarrow> time list" where
  "grants limit w base m b [] = []"
| "grants limit w base m b (t # ts) =
     (if Allows b t limit w then t # grants limit w base m (Consume b t w base m) ts
      else grants limit w base m b ts)"

fun spent :: "int \<Rightarrow> duration \<Rightarrow> duration \<Rightarrow> int \<Rightarrow> RestartBudget \<Rightarrow> time list \<Rightarrow> RestartBudget" where
  "spent limit w base m b [] = b"
| "spent limit w base m b (t # ts) =
     spent limit w base m (if Allows b t limit w then Consume b t w base m else b) ts"

abbreviation count_upto :: "time \<Rightarrow> time list \<Rightarrow> int" where
  "count_upto e ts \<equiv> int (length (filter (\<lambda>t. t \<le> e) ts))"

lemma grants_subset: "set (grants limit w base m b ts) \<subseteq> set ts"
  by (induction ts arbitrary: b) auto

lemma grants_append:
  "grants limit w base m b (xs @ ys) =
     grants limit w base m b xs @ grants limit w base m (spent limit w base m b xs) ys"
  by (induction xs arbitrary: b) auto

lemma grants_late:
  assumes "\<forall>x \<in> set ts. t \<le> x" and "e < t"
  shows "filter (\<lambda>t. t \<le> e) (grants limit w base m b ts) = []"
proof -
  have "\<not> g \<le> e" if "g \<in> set (grants limit w base m b ts)" for g
  proof -
    have "t \<le> g" using that grants_subset[of limit w base m b ts] assms(1) by auto
    with assms(2) show ?thesis by simp
  qed
  then show ?thesis by (simp add: filter_empty_conv)
qed

lemma spent_count:
  assumes "b_Count b \<le> limit"
  shows "b_Count (spent limit w base m b ts) \<le> limit"
  using assms
proof (induction ts arbitrary: b)
  case (Cons t ts)
  have "b_Count (Consume b t w base m) \<le> limit" if "Allows b t limit w"
    using Allows_count[OF that] by (simp add: Consume_count)
  with Cons show ?case by simp
qed simp

lemma spent_start:
  assumes "\<forall>t \<in> set ts. t \<le> b_WindowStart b + w" and "b_WindowStart b \<noteq> 0"
  shows "b_WindowStart (spent limit w base m b ts) = b_WindowStart b"
  using assms
proof (induction ts arbitrary: b)
  case (Cons t ts)
  then have "b_WindowStart (Consume b t w base m) = b_WindowStart b"
    by (simp add: Consume_start)
  with Cons show ?case by simp
qed simp

text \<open>While the current window lasts, what it already counts and what is granted stay within the limit.\<close>

lemma grants_in_window:
  assumes "sorted ts" and "b_WindowStart b \<noteq> 0"
    and "e \<le> b_WindowStart b + w" and "b_Count b \<le> limit"
  shows "b_Count b + count_upto e (grants limit w base m b ts) \<le> limit"
  using assms
proof (induction ts arbitrary: b)
  case (Cons t ts)
  consider "e < t" | "t \<le> e" "Allows b t limit w" | "t \<le> e" "\<not> Allows b t limit w" by linarith
  then show ?case
  proof cases
    case 1
    with Cons.prems show ?thesis by (simp add: grants_late[of ts t e])
  next
    case 2
    then have roll: "rolled b t w = b" using Cons.prems by (auto simp: rolled_def)
    let ?b = "Consume b t w base m"
    have c: "b_Count ?b = b_Count b + 1" and s: "b_WindowStart ?b = b_WindowStart b"
      using roll Cons.prems 2 by (auto simp: Consume_count Consume_start)
    have "b_Count b < limit" using Allows_count[OF 2(2)] roll by simp
    then have "b_Count ?b + count_upto e (grants limit w base m ?b ts) \<le> limit"
      using Cons.IH[of ?b] Cons.prems c s by simp
    with 2 c show ?thesis by simp
  next
    case 3
    with Cons show ?thesis by simp
  qed
qed simp

text \<open>A window opens with its first restart, and holds at most \<open>limit\<close> of them.\<close>

lemma grants_from_window:
  assumes "sorted ts" and "\<forall>t \<in> set ts. 0 < t" and "0 \<le> limit"
    and "IsZero (b_WindowStart b) \<or> (\<forall>t \<in> set ts. b_WindowStart b + w < t)"
    and "\<forall>t \<in> set ts. a \<le> t" and "e \<le> a + w"
  shows "count_upto e (grants limit w base m b ts) \<le> limit"
  using assms
proof (induction ts)
  case (Cons t ts)
  consider "e < t" | "t \<le> e" "Allows b t limit w" | "t \<le> e" "\<not> Allows b t limit w" by linarith
  then show ?case
  proof cases
    case 1
    with Cons.prems show ?thesis by (simp add: grants_late[of ts t e])
  next
    case 2
    let ?b = "Consume b t w base m"
    have fresh: "b_Count (rolled b t w) = 0"
      using Cons.prems(4) by (auto simp: rolled_def zero_budget_def)
    then have c: "b_Count ?b = 1" and s: "b_WindowStart ?b = t"
      using Cons.prems(4) by (auto simp: Consume_count Consume_start)
    have "1 \<le> limit" using Allows_count[OF 2(2)] fresh by simp
    moreover have "e \<le> t + w" and "t \<noteq> 0" and "sorted ts" using Cons.prems by auto
    ultimately have "b_Count ?b + count_upto e (grants limit w base m ?b ts) \<le> limit"
      using c s by (intro grants_in_window) auto
    with 2 c show ?thesis by simp
  next
    case 3
    moreover have "IsZero (b_WindowStart b) \<or> (\<forall>t \<in> set ts. b_WindowStart b + w < t)"
      using Cons.prems(4) by auto
    ultimately show ?thesis using Cons.IH Cons.prems by simp
  qed
qed simp

text \<open>From any budget, two windows cover a span of the window's length.\<close>

lemma grants_two_windows:
  assumes "sorted ts" and "\<forall>t \<in> set ts. 0 < t" and "0 \<le> limit" and "b_Count b \<le> limit"
    and "0 \<le> b_Count b" and "\<forall>t \<in> set ts. a \<le> t"
  shows "count_upto (a + w) (grants limit w base m b ts) \<le> 2 * limit"
proof (cases "IsZero (b_WindowStart b)")
  case True
  with assms have "count_upto (a + w) (grants limit w base m b ts) \<le> limit"
    by (intro grants_from_window) auto
  with assms(3) show ?thesis by simp
next
  case False
  let ?s = "b_WindowStart b"
  let ?xs = "takeWhile (\<lambda>t. t \<le> ?s + w) ts" and ?ys = "dropWhile (\<lambda>t. t \<le> ?s + w) ts"
  let ?b = "spent limit w base m b ?xs"
  have xs: "\<forall>t \<in> set ?xs. t \<le> ?s + w" by (auto dest: set_takeWhileD)
  have "\<forall>t \<in> set ?ys. ?s + w < t"
  proof
    fix t assume "t \<in> set ?ys"
    with assms(1) have "\<not> t \<le> ?s + w"
      by (rule dropWhile_sorted_none[where P = "\<lambda>t. t \<le> ?s + w"]) linarith
    then show "?s + w < t" by simp
  qed
  then have ys: "IsZero (b_WindowStart ?b) \<or> (\<forall>t \<in> set ?ys. b_WindowStart ?b + w < t)"
    using spent_start[OF xs False] by simp
  have "b_Count b + count_upto (?s + w) (grants limit w base m b ?xs) \<le> limit"
    using assms False by (intro grants_in_window) (auto simp: sorted_takeWhile)
  moreover have "length (filter (\<lambda>t. t \<le> a + w) (grants limit w base m b ?xs))
      \<le> length (filter (\<lambda>t. t \<le> ?s + w) (grants limit w base m b ?xs))"
    using xs grants_subset[of limit w base m b ?xs]
    by (subst (2) filter_True) (auto intro: length_filter_le)
  moreover have "count_upto (a + w) (grants limit w base m ?b ?ys) \<le> limit"
    using assms ys by (intro grants_from_window[where a = a]) (auto simp: sorted_dropWhile dest: set_dropWhileD)
  moreover have "grants limit w base m b ts =
      grants limit w base m b ?xs @ grants limit w base m ?b ?ys"
    using grants_append[of limit w base m b ?xs ?ys] by simp
  ultimately show ?thesis using assms(5) by simp
qed

lemma Consume_count_nonneg:
  "0 \<le> b_Count b \<Longrightarrow> 0 \<le> b_Count (Consume b t w base m)"
  by (simp add: Consume_count rolled_def zero_budget_def)

lemma spent_count_nonneg: "0 \<le> b_Count b \<Longrightarrow> 0 \<le> b_Count (spent limit w base m b ts)"
  by (induction ts arbitrary: b) (simp_all add: Consume_count_nonneg)

text \<open>
  C33. Bound on restarts. However the failing ticks fall, the budget grants at most twice the
  configured number of restarts in any span of one window, whatever the window it
  started in: the windows are fixed when the first restart opens them, so a span can touch
  the end of one and the start of the next, and no more.
\<close>

theorem restarts_in_any_window:
  assumes "sorted ts" and "\<forall>t \<in> set ts. 0 < t" and "0 \<le> limit"
    and "0 \<le> b_Count b" and "b_Count b \<le> limit"
  shows "int (length (filter (\<lambda>t. a \<le> t \<and> t \<le> a + w) (grants limit w base m b ts))) \<le> 2 * limit"
proof -
  let ?xs = "takeWhile (\<lambda>t. t < a) ts" and ?ys = "dropWhile (\<lambda>t. t < a) ts"
  let ?b = "spent limit w base m b ?xs"
  have "\<forall>t \<in> set ?ys. a \<le> t"
  proof
    fix t assume "t \<in> set ?ys"
    with assms(1) have "\<not> t < a" by (rule dropWhile_sorted_none[where P = "\<lambda>t. t < a"]) linarith
    then show "a \<le> t" by simp
  qed
  then have ys: "count_upto (a + w) (grants limit w base m ?b ?ys) \<le> 2 * limit"
    using assms spent_count[OF assms(5)] spent_count_nonneg[OF assms(4)]
    by (intro grants_two_windows) (auto simp: sorted_dropWhile dest: set_dropWhileD)
  have "filter (\<lambda>t. a \<le> t \<and> t \<le> a + w) (grants limit w base m b ?xs) = []"
    using grants_subset[of limit w base m b ?xs]
    by (auto simp: filter_empty_conv dest!: subsetD set_takeWhileD)
  moreover have "length (filter (\<lambda>t. a \<le> t \<and> t \<le> a + w) gs) \<le> length (filter (\<lambda>t. t \<le> a + w) gs)"
    if "gs = grants limit w base m ?b ?ys" for gs
    by (induction gs) auto
  moreover have "grants limit w base m b ts =
      grants limit w base m b ?xs @ grants limit w base m ?b ?ys"
    using grants_append[of limit w base m b ?xs ?ys] by simp
  ultimately show ?thesis using ys by fastforce
qed

theorem restarts_in_any_window_witness:
  "sorted [60 * Second, 61 * Second, 200 * Second, 2000 * Second, 2400 * Second] \<and>
   grants 2 (30 * Minute) Minute 2 zero_budget
     [60 * Second, 61 * Second, 200 * Second, 2000 * Second, 2400 * Second] =
     [60 * Second, 200 * Second, 2000 * Second, 2400 * Second] \<and>
   int (length (filter (\<lambda>t. 200 * Second \<le> t \<and> t \<le> 200 * Second + 30 * Minute)
     (grants 2 (30 * Minute) Minute 2 zero_budget
       [60 * Second, 61 * Second, 200 * Second, 2000 * Second, 2400 * Second]))) \<le> 2 * 2"
proof -
  let ?ts = "[60 * Second, 61 * Second, 200 * Second, 2000 * Second, 2400 * Second]"
  have "sorted ?ts" by simp
  moreover have "grants 2 (30 * Minute) Minute 2 zero_budget ?ts =
      [60 * Second, 200 * Second, 2000 * Second, 2400 * Second]"
    by code_simp
  ultimately show ?thesis
    using restarts_in_any_window[of ?ts 2 zero_budget "200 * Second" "30 * Minute" Minute 2]
    by (simp add: zero_budget_def)
qed

end
