(* ===== verification/State.thy ===== *)
theory State
  imports Restart
begin

text \<open>
  What the controller remembers about one deployment (\<open>src/internal/state/state.go\<close>), the
  state it starts from and the two annotations a human sees. The phase is a string type in
  the source and stays one here: memory is read back from a ConfigMap and may hold any text.
\<close>

section \<open>Phases\<close>

type_synonym phase = string

definition Active :: phase where "Active = ''active''"
definition Suspended :: phase where "Suspended = ''suspended''"
definition Unrecoverable :: phase where "Unrecoverable = ''unrecoverable''"

lemma phase_distinct [simp]:
  "Active \<noteq> Suspended" "Suspended \<noteq> Active" "Active \<noteq> Unrecoverable" "Unrecoverable \<noteq> Active"
  "Suspended \<noteq> Unrecoverable" "Unrecoverable \<noteq> Suspended"
  "Active \<noteq> []" "Suspended \<noteq> []" "Unrecoverable \<noteq> []"
  by (simp_all add: Active_def Suspended_def Unrecoverable_def)

section \<open>Memory\<close>

text \<open>The source's reachability as of the last tick.\<close>

record Outage =
  o_Down :: bool
  o_Since :: time

text \<open>Which once-per-situation events have been raised.\<close>

record Reported =
  r_SuspendChecked :: bool
  r_ResumeStalled :: bool
  r_SuspendStalled :: bool
  r_SourcesChecked :: string

record State =
  s_Phase :: phase
  s_Snapshot :: "(string, string) gomap"
  s_LastActivityAt :: time
  s_SuspendedAt :: time
  s_AwakeSince :: time
  s_Restarts :: RestartBudget
  s_Reason :: string
  s_Generation :: int
  s_ResumedAt :: time
  s_Pending :: int
  s_Sources :: "string list"
  s_RefreshWake :: bool
  s_RestartingSince :: time
  s_Outage :: Outage
  s_Reported :: Reported

definition zero_outage :: Outage where
  "zero_outage = \<lparr>o_Down = False, o_Since = zero_time\<rparr>"

definition zero_reported :: Reported where
  "zero_reported = \<lparr>r_SuspendChecked = False, r_ResumeStalled = False, r_SuspendStalled = False, r_SourcesChecked = ''''\<rparr>"

text \<open>The zero value \<open>State{}\<close>.\<close>

definition zero_state :: State where
  "zero_state =
     \<lparr>s_Phase = '''', s_Snapshot = [], s_LastActivityAt = zero_time, s_SuspendedAt = zero_time,
      s_AwakeSince = zero_time, s_Restarts = zero_budget, s_Reason = '''', s_Generation = 0,
      s_ResumedAt = zero_time, s_Pending = 0, s_Sources = [], s_RefreshWake = False,
      s_RestartingSince = zero_time, s_Outage = zero_outage, s_Reported = zero_reported\<rparr>"

definition Initial :: "time \<Rightarrow> State" where
  "Initial now =
     zero_state\<lparr>s_Phase := Active, s_LastActivityAt := now, s_AwakeSince := now, s_Reason := ''first observation''\<rparr>"

text \<open>What goes on the deployment itself.\<close>

definition Annotations :: "State \<Rightarrow> string \<Rightarrow> (string, string) gomap" where
  "Annotations s prefix = [(prefix @ ''/state'', s_Phase s), (prefix @ ''/reason'', s_Reason s)]"

section \<open>The invariant of memory\<close>

text \<open>
  The suspension clock is set exactly while the phase is suspended (an active job has none),
  every clock lies in the past, and the restart budget is well formed. A phase the
  controller never writes is treated as active.
\<close>

definition clocks_ok :: "State \<Rightarrow> time \<Rightarrow> bool" where
  "clocks_ok s now \<longleftrightarrow>
     s_LastActivityAt s \<le> now \<and> s_SuspendedAt s \<le> now \<and> s_AwakeSince s \<le> now \<and>
     s_ResumedAt s \<le> now \<and> s_RestartingSince s \<le> now \<and> budget_ok (s_Restarts s) now"

definition suspension_ok :: "State \<Rightarrow> bool" where
  "suspension_ok s \<longleftrightarrow>
     (s_Phase s = Suspended \<longrightarrow> \<not> IsZero (s_SuspendedAt s)) \<and>
     (s_Phase s \<noteq> Suspended \<and> s_Phase s \<noteq> Unrecoverable \<longrightarrow> IsZero (s_SuspendedAt s))"

definition state_ok :: "State \<Rightarrow> time \<Rightarrow> bool" where
  "state_ok s now \<longleftrightarrow> clocks_ok s now \<and> suspension_ok s"

lemma clocks_ok_later: "clocks_ok s t \<Longrightarrow> t \<le> now \<Longrightarrow> clocks_ok s now"
  by (auto simp: clocks_ok_def budget_ok_later)

lemma state_ok_later: "state_ok s t \<Longrightarrow> t \<le> now \<Longrightarrow> state_ok s now"
  by (auto simp: state_ok_def clocks_ok_later)

lemma Initial_ok: "0 < now \<Longrightarrow> state_ok (Initial now) now"
  by (simp add: state_ok_def clocks_ok_def suspension_ok_def Initial_def zero_state_def
        budget_ok_def zero_budget_def)

end
