(* ===== verification/Decide.thy ===== *)
theory Decide
  imports State Policy
begin

text \<open>
  The decider (\<open>src/internal/decide\<close>): one tick's decision from the policy, memory, what the
  operator reports and what the probes observed. \<open>jobGate\<close> is the job's own answer
  (\<open>jobgate.go\<close>), the reasons are the texts of \<open>reasons.go\<close>, and \<open>Decide\<close> is the method of
  the same name, its switch over the remembered phase split into one definition per case.
\<close>

section \<open>What a tick sees\<close>

record Live =
  l_SpecJobState :: string
  l_UpgradeMode :: string
  l_SavepointPath :: string
  l_OperatorRestarts :: bool
  l_Generation :: int
  l_RestartNonce :: int
  l_JobID :: string
  l_JobState :: string
  l_LifecycleState :: string
  l_ReconcileError :: string

definition operatorBusy :: "Live \<Rightarrow> bool" where
  "operatorBusy l \<longleftrightarrow> l_LifecycleState l = ''UPGRADING'' \<or> l_LifecycleState l = ''ROLLING_BACK''"

definition live_stable :: "Live \<Rightarrow> bool" where
  "live_stable l \<longleftrightarrow> l_LifecycleState l = ''STABLE'' \<and> l_JobState l = ''RUNNING''"

definition live_suspended :: "Live \<Rightarrow> bool" where
  "live_suspended l \<longleftrightarrow> l_LifecycleState l = ''SUSPENDED''"

definition keepsPosition :: "Live \<Rightarrow> bool" where
  "keepsPosition l \<longleftrightarrow> l_UpgradeMode l = ''savepoint'' \<or> l_UpgradeMode l = ''last-state''"

definition ResumesFromGroup :: "Live \<Rightarrow> Policy \<Rightarrow> bool" where
  "ResumesFromGroup l p \<longleftrightarrow> p_ResumeFromGroup p \<and> l_UpgradeMode l = ''stateless''"

text \<open>What the running job's REST API reports: emitted offsets by topic and partition.\<close>

record JobReading =
  jr_Offsets :: "(string, (int, int) gomap) gomap"
  jr_IdleFor :: duration
  jr_Drained :: "(string, (int, bool) gomap) gomap"

definition zero_reading :: JobReading where
  "zero_reading = \<lparr>jr_Offsets = [], jr_IdleFor = 0, jr_Drained = []\<rparr>"

definition InitialOffset :: int where "InitialOffset = -1"

record Observation =
  ob_Snapshot :: "(string, string) gomap"
  ob_Known :: bool
  ob_Pending :: int
  ob_LagKnown :: bool
  ob_Uncommitted :: string
  ob_Ends :: "(string, int list) gomap"
  ob_Reading :: JobReading
  ob_ReadingKnown :: bool
  ob_ReadingNote :: string
  ob_Why :: string
  ob_Unlearned :: bool

definition zero_observation :: Observation where
  "zero_observation =
     \<lparr>ob_Snapshot = [], ob_Known = False, ob_Pending = 0, ob_LagKnown = False, ob_Uncommitted = '''',
      ob_Ends = [], ob_Reading = zero_reading, ob_ReadingKnown = False, ob_ReadingNote = '''',
      ob_Why = '''', ob_Unlearned = False\<rparr>"

section \<open>What a tick decides\<close>

datatype Action = ActNone | Suspend | Resume | Restart | MarkUnrecoverable | Refuse

fun ActionString :: "Action \<Rightarrow> string" where
  "ActionString ActNone = ''none''"
| "ActionString Suspend = ''suspend''"
| "ActionString Resume = ''resume''"
| "ActionString Restart = ''restart''"
| "ActionString MarkUnrecoverable = ''mark-unrecoverable''"
| "ActionString Refuse = ''refuse''"

datatype JobGate = JobUnknown | JobBusy | JobIdle

fun JobGateString :: "JobGate \<Rightarrow> string" where
  "JobGateString JobBusy = ''busy''"
| "JobGateString JobIdle = ''idle''"
| "JobGateString JobUnknown = ''unknown''"

record Decision =
  d_Action :: Action
  d_Next :: State
  d_Reason :: string
  d_Held :: string
  d_Gate :: JobGate
  d_GateNote :: string
  d_ResumedAfter :: duration

text \<open>A decision with the fields every return sets; the others keep their zero values.\<close>

definition decision :: "Action \<Rightarrow> State \<Rightarrow> string \<Rightarrow> Decision" where
  "decision a next reason =
     \<lparr>d_Action = a, d_Next = next, d_Reason = reason, d_Held = '''', d_Gate = JobUnknown,
      d_GateNote = '''', d_ResumedAfter = 0\<rparr>"

lemma decision_sel [simp]:
  "d_Action (decision a n r) = a" "d_Next (decision a n r) = n" "d_Reason (decision a n r) = r"
  "d_Held (decision a n r) = ''''" "d_Gate (decision a n r) = JobUnknown"
  "d_GateNote (decision a n r) = ''''" "d_ResumedAfter (decision a n r) = 0"
  by (simp_all add: decision_def)

record RestartPolicy =
  rp_MaxRestarts :: int
  rp_Window :: duration
  rp_BaseBackoff :: duration
  rp_Multiplier :: int
  rp_FailingAfter :: duration
  rp_Unrecoverable :: "string list"

record Decider =
  dc_restart :: RestartPolicy
  dc_Quiet :: duration

definition quiet :: "Decider \<Rightarrow> duration" where
  "quiet d = (if 0 < dc_Quiet d then dc_Quiet d else Minute)"

section \<open>Reasons\<close>

definition ReasonIdle :: string where "ReasonIdle = ''idle''"
definition ReasonActive :: string where "ReasonActive = ''active''"
definition ReasonInputObserved :: string where "ReasonInputObserved = ''input observed''"
definition ReasonOffsetsUnknown :: string where "ReasonOffsetsUnknown = ''offsets unavailable''"
definition ReasonSuspensionOff :: string where "ReasonSuspensionOff = ''suspension disabled''"
definition ReasonSuspendedOutside :: string where "ReasonSuspendedOutside = ''suspended outside siesta''"
definition ReasonResumedOutside :: string where "ReasonResumedOutside = ''resumed outside siesta''"
definition ReasonOperatorSuspends :: string where
  "ReasonOperatorSuspends = ''waiting for operator to finish suspending''"
definition ReasonOperatorRestarts :: string where
  "ReasonOperatorRestarts = ''restart left to the operator's health check''"
definition ReasonBudgetExhausted :: string where "ReasonBudgetExhausted = ''restart budget exhausted''"
definition ReasonRefreshed :: string where "ReasonRefreshed = ''group offsets committed again, no input since''"
definition ReasonRelearn :: string where
  "ReasonRelearn = ''learned sources lost while asleep; resumed so the job can say what it reads''"
definition ReasonRelearnHeld :: string where
  "ReasonRelearnHeld = ''resume held: learned sources lost while asleep, and the group's offsets cannot be checked without them; set spec.job.state: running to wake the job''"

definition reasonOperatorBusy :: "string \<Rightarrow> string" where
  "reasonOperatorBusy lifecycle = ''operator busy: '' @ lifecycle"
definition reasonNoInput :: "duration \<Rightarrow> string" where
  "reasonNoInput idleAfter = ''no input for '' @ DurationString idleAfter"
definition reasonRefused :: "string \<Rightarrow> string" where
  "reasonRefused upgradeMode = ''suspend refused: upgradeMode '' @ upgradeMode @ '' would lose the job's position''"
definition reasonLagUnknown :: "string \<Rightarrow> string" where
  "reasonLagUnknown grp = ''lag unknown for group '' @ grp"
definition reasonRecordsPending :: "string \<Rightarrow> string" where
  "reasonRecordsPending grp = ''records pending for group '' @ grp"
definition reasonOffsetsMissing :: "string \<Rightarrow> string" where
  "reasonOffsetsMissing grp = ''resume held: group '' @ grp @
     '' has no committed offsets, the job would start from its reset strategy''"
definition reasonRefresh :: "duration \<Rightarrow> string" where
  "reasonRefresh maxSleep = ''asleep for '' @ DurationString maxSleep @
     '', woken so the group's offsets do not expire''"
definition reasonJobBusy :: "string \<Rightarrow> string" where "reasonJobBusy note = ''job busy: '' @ note"
definition reasonJobUnknown :: "string \<Rightarrow> string" where "reasonJobUnknown note = ''job unknown: '' @ note"
definition reasonBackoffUntil :: "time \<Rightarrow> string" where
  "reasonBackoffUntil t = ''restart backoff until '' @ FormatRFC3339 t"
definition reasonRestart :: "int \<Rightarrow> string" where "reasonRestart n = ''restart '' @ FormatInt n"
definition reasonRestarting :: "string \<Rightarrow> int \<Rightarrow> string" where
  "reasonRestarting jobState n = ''job '' @ jobState @ '', restart '' @ FormatInt n"

lemmas reason_defs =
  ReasonIdle_def ReasonActive_def ReasonInputObserved_def ReasonOffsetsUnknown_def
  ReasonSuspensionOff_def ReasonSuspendedOutside_def ReasonResumedOutside_def
  ReasonOperatorSuspends_def ReasonOperatorRestarts_def ReasonBudgetExhausted_def
  ReasonRefreshed_def ReasonRelearn_def ReasonRelearnHeld_def
  reasonOperatorBusy_def reasonNoInput_def reasonRefused_def reasonLagUnknown_def
  reasonRecordsPending_def reasonOffsetsMissing_def reasonRefresh_def reasonJobBusy_def
  reasonJobUnknown_def reasonBackoffUntil_def reasonRestart_def reasonRestarting_def

section \<open>The job gate\<close>

text \<open>
  One partition of the inner loop: either the answer the loop returns at once, or the
  number of records the partition adds to the pending count.
\<close>

definition partition_pending ::
  "string \<Rightarrow> (int, int) gomap \<Rightarrow> JobReading \<Rightarrow> int \<Rightarrow> int \<Rightarrow> (JobGate \<times> string) + int" where
  "partition_pending topic cur reading p end' =
     (if end' < 0 then Inl (JobUnknown, ''no end offset for '' @ topic @ '' partition '' @ FormatInt p)
      else case map_of cur p of
        None \<Rightarrow> Inl (JobUnknown, ''job exposes no offset for '' @ topic @ '' partition '' @ FormatInt p)
      | Some emitted \<Rightarrow>
        if emitted = InitialOffset \<and> jr_IdleFor reading = 0 then Inr end'
        else if emitted = InitialOffset then Inr 0
        else if (case map_of (jr_Drained reading) topic of None \<Rightarrow> False
                 | Some m \<Rightarrow> map_of m p = Some True) then Inr 0
        else Inr (max 0 (i64 (end' - i64 (emitted + 1)))))"

fun gate_partitions ::
  "string \<Rightarrow> (int, int) gomap \<Rightarrow> JobReading \<Rightarrow> int \<Rightarrow> int list \<Rightarrow> int \<Rightarrow> (JobGate \<times> string) + int" where
  "gate_partitions topic cur reading p [] pending = Inr pending"
| "gate_partitions topic cur reading p (e # es) pending =
     (case partition_pending topic cur reading p e of
        Inl r \<Rightarrow> Inl r
      | Inr n \<Rightarrow> gate_partitions topic cur reading (p + 1) es (i64 (pending + n)))"

fun gate_topics ::
  "(string, int list) gomap \<Rightarrow> JobReading \<Rightarrow> string list \<Rightarrow> int \<Rightarrow> (JobGate \<times> string) + int" where
  "gate_topics ends reading [] pending = Inr pending"
| "gate_topics ends reading (topic # topics) pending =
     (case (map_of ends topic, map_of (jr_Offsets reading) topic) of
        (Some (e # es), Some cur) \<Rightarrow>
          (case gate_partitions topic cur reading 0 (e # es) pending of
             Inl r \<Rightarrow> Inl r
           | Inr n \<Rightarrow> gate_topics ends reading topics n)
      | _ \<Rightarrow> Inl (JobUnknown, ''job exposes no offsets for '' @ topic))"

definition jobGate :: "string list \<Rightarrow> (string, int list) gomap \<Rightarrow> JobReading \<Rightarrow> duration \<Rightarrow> JobGate \<times> string" where
  "jobGate sources ends reading q =
     (case gate_topics ends reading sources 0 of
        Inl r \<Rightarrow> r
      | Inr pending \<Rightarrow>
        if 0 < pending then (JobBusy, FormatInt pending @ '' records pending in the job'')
        else if jr_IdleFor reading < q
        then (JobBusy, ''job emitted a record '' @ DurationString (DurationRound (jr_IdleFor reading) Second) @ '' ago'')
        else (JobIdle, ''''))"

section \<open>Helpers of the decision\<close>

definition wake :: "State \<Rightarrow> time \<Rightarrow> string \<Rightarrow> State" where
  "wake s now reason =
     s\<lparr>s_Phase := Active, s_SuspendedAt := zero_time, s_AwakeSince := now, s_LastActivityAt := now,
       s_Reason := reason, s_RefreshWake := False\<rparr>"

definition failing :: "Decider \<Rightarrow> Live \<Rightarrow> State \<Rightarrow> time \<Rightarrow> bool" where
  "failing d live s now \<longleftrightarrow>
     (if l_JobState live = ''FAILED'' \<or> l_LifecycleState live = ''FAILED'' then True
      else let since = (if After (s_AwakeSince s) (s_RestartingSince s) then s_AwakeSince s else s_RestartingSince s)
           in l_JobState live = ''RESTARTING'' \<and> After now (Add since (rp_FailingAfter (dc_restart d))))"

fun match_unrecoverable :: "string \<Rightarrow> string list \<Rightarrow> string" where
  "match_unrecoverable err [] = ''''"
| "match_unrecoverable err (sub # subs) =
     (let s = TrimSpace sub
      in if s \<noteq> [] \<and> Contains err s then ''unrecoverable: '' @ s else match_unrecoverable err subs)"

definition unrecoverable :: "Decider \<Rightarrow> Live \<Rightarrow> string" where
  "unrecoverable d live =
     (if l_ReconcileError live = [] then ''''
      else match_unrecoverable (l_ReconcileError live) (rp_Unrecoverable (dc_restart d)))"

section \<open>The phases\<close>

text \<open>
  A job we put to sleep. \<open>prev\<close> is memory, \<open>cur\<close> memory with this tick's snapshot.
\<close>

definition decide_suspended ::
  "Policy \<Rightarrow> State \<Rightarrow> State \<Rightarrow> Live \<Rightarrow> Observation \<Rightarrow> time \<Rightarrow> bool \<Rightarrow> Decision" where
  "decide_suspended p prev cur live obs now moved =
     (if l_SpecJobState live = ''running''
      then decision ActNone (wake cur now ReasonResumedOutside) ReasonResumedOutside
      else
        let pending = cur\<lparr>s_Snapshot := s_Snapshot prev\<rparr>;
            fromGroup = ResumesFromGroup live p;
            refresh = (\<not> moved \<and> fromGroup \<and> 0 < p_MaxSleep p \<and> After now (Add (s_SuspendedAt prev) (p_MaxSleep p)))
        in if \<not> live_suspended live then decision ActNone pending ReasonOperatorSuspends
           else if \<not> moved \<and> \<not> refresh then decision ActNone cur ReasonIdle
           else if fromGroup \<and> ob_Uncommitted obs \<noteq> [] then
             (let r = reasonOffsetsMissing (p_ConsumerGroup p)
              in (decision ActNone (pending\<lparr>s_Reason := r\<rparr>) r)\<lparr>d_Held := ''offsets-missing''\<rparr>)
           else if fromGroup \<and> \<not> ob_LagKnown obs then
             (let r = reasonLagUnknown (p_ConsumerGroup p)
              in (decision ActNone (pending\<lparr>s_Reason := r\<rparr>) r)\<lparr>d_Held := ''lag-unknown''\<rparr>)
           else if refresh then
             (let r = reasonRefresh (p_MaxSleep p)
              in decision Resume
                   (cur\<lparr>s_Phase := Active, s_SuspendedAt := zero_time, s_AwakeSince := now,
                        s_ResumedAt := now, s_RefreshWake := True, s_Reason := r\<rparr>) r)
           else decision Resume ((wake cur now ''input observed'')\<lparr>s_ResumedAt := now\<rparr>) ReasonInputObserved)"

definition decide_unrecoverable :: "State \<Rightarrow> State \<Rightarrow> Decision" where
  "decide_unrecoverable prev cur =
     (let reason = (if s_Reason prev = [] then ''unrecoverable; edit the spec to retry'' else s_Reason prev)
      in decision ActNone (cur\<lparr>s_Reason := reason\<rparr>) reason)"

text \<open>
  The bookkeeping of an active job: the resume latency, a restart that memory never
  recorded, and the clock of a job that is RESTARTING.
\<close>

definition note_resumed :: "Live \<Rightarrow> time \<Rightarrow> State \<Rightarrow> State \<times> duration" where
  "note_resumed live now cur =
     (if \<not> IsZero (s_ResumedAt cur) \<and> live_stable live
      then (cur\<lparr>s_ResumedAt := zero_time\<rparr>, Sub now (s_ResumedAt cur)) else (cur, 0))"

definition note_nonce :: "Decider \<Rightarrow> Live \<Rightarrow> time \<Rightarrow> State \<Rightarrow> State" where
  "note_nonce d live now cur =
     (if b_LastNonce (s_Restarts cur) < l_RestartNonce live
      then cur\<lparr>s_Restarts := (Consume (s_Restarts cur) now (rp_Window (dc_restart d))
                   (rp_BaseBackoff (dc_restart d)) (rp_Multiplier (dc_restart d)))\<lparr>b_LastNonce := l_RestartNonce live\<rparr>,
               s_AwakeSince := now\<rparr>
      else cur)"

definition note_restarting :: "Live \<Rightarrow> time \<Rightarrow> State \<Rightarrow> State" where
  "note_restarting live now cur =
     (if l_JobState live \<noteq> ''RESTARTING'' then cur\<lparr>s_RestartingSince := zero_time\<rparr>
      else if IsZero (s_RestartingSince cur) then cur\<lparr>s_RestartingSince := now\<rparr>
      else cur)"

text \<open>A failing job with restarts on: wait, give up, or restart.\<close>

definition decide_failing :: "Decider \<Rightarrow> Live \<Rightarrow> State \<Rightarrow> time \<Rightarrow> Decision" where
  "decide_failing d live cur now =
     (let rp = dc_restart d
      in if InBackoff (s_Restarts cur) now (rp_Window rp)
         then decision ActNone cur (reasonBackoffUntil (b_NextAfter (s_Restarts cur)))
         else if Exhausted (s_Restarts cur) now (rp_MaxRestarts rp) (rp_Window rp)
         then decision MarkUnrecoverable
                (cur\<lparr>s_Phase := Unrecoverable, s_Reason := ReasonBudgetExhausted\<rparr>) ReasonBudgetExhausted
         else
           let b = (Consume (s_Restarts cur) now (rp_Window rp) (rp_BaseBackoff rp) (rp_Multiplier rp))\<lparr>b_LastNonce := UnixMilli now\<rparr>
           in decision Restart
                (cur\<lparr>s_Restarts := b, s_AwakeSince := now, s_Reason := reasonRestart (b_Count b)\<rparr>)
                (reasonRestarting (l_JobState live) (b_Count b)))"

text \<open>The gates in front of a suspend, in the order of the code; each may only say not yet.\<close>

definition gate_job :: "Decider \<Rightarrow> Policy \<Rightarrow> Observation \<Rightarrow> JobGate \<times> string" where
  "gate_job d p obs =
     (if ob_ReadingKnown obs then jobGate (p_Sources p) (ob_Ends obs) (ob_Reading obs) (quiet d)
      else (JobUnknown, ob_ReadingNote obs))"

definition suspend_now :: "Policy \<Rightarrow> State \<Rightarrow> time \<Rightarrow> Decision" where
  "suspend_now p cur now =
     (let r = (if s_RefreshWake cur then ReasonRefreshed else reasonNoInput (p_IdleAfter p))
      in decision Suspend
           (cur\<lparr>s_Reason := r, s_Phase := Suspended, s_SuspendedAt := now, s_RefreshWake := False\<rparr>) r)"

definition decide_job_gate :: "Decider \<Rightarrow> Policy \<Rightarrow> State \<Rightarrow> Observation \<Rightarrow> time \<Rightarrow> Decision" where
  "decide_job_gate d p cur obs now =
     (if p_IdleFromJob p then
        (case gate_job d p obs of (gate, note) \<Rightarrow>
           (case gate of
              JobIdle \<Rightarrow> suspend_now p cur now
            | JobBusy \<Rightarrow>
                (let r = reasonJobBusy note
                 in (decision ActNone (cur\<lparr>s_Reason := r\<rparr>) r)\<lparr>d_Held := ''job-busy'', d_Gate := gate, d_GateNote := note\<rparr>)
            | JobUnknown \<Rightarrow>
                (let r = reasonJobUnknown note
                 in (decision ActNone (cur\<lparr>s_Reason := r\<rparr>) r)\<lparr>d_Held := ''job-unknown'', d_Gate := gate, d_GateNote := note\<rparr>)))
      else suspend_now p cur now)"

definition decide_idle :: "Decider \<Rightarrow> Policy \<Rightarrow> State \<Rightarrow> Live \<Rightarrow> Observation \<Rightarrow> time \<Rightarrow> duration \<Rightarrow> Decision" where
  "decide_idle d p cur live obs now resumedAfter =
     (if \<not> After now (Add (s_AwakeSince cur) (p_MinAwake p))
      then (decision ActNone cur ReasonActive)\<lparr>d_Held := ''min-awake'', d_ResumedAfter := resumedAfter\<rparr>
      else if \<not> keepsPosition live \<and> \<not> ResumesFromGroup live p
      then (let r = reasonRefused (l_UpgradeMode live) in decision Refuse (cur\<lparr>s_Reason := r\<rparr>) r)
      else if p_ConsumerGroup p \<noteq> [] \<and> \<not> ob_LagKnown obs
      then (let r = reasonLagUnknown (p_ConsumerGroup p)
            in (decision ActNone (cur\<lparr>s_Reason := r\<rparr>) r)\<lparr>d_Held := ''lag-unknown''\<rparr>)
      else if p_ConsumerGroup p \<noteq> [] \<and> 0 < ob_Pending obs
      then (let r = reasonRecordsPending (p_ConsumerGroup p)
            in (decision ActNone (cur\<lparr>s_Pending := ob_Pending obs, s_Reason := r\<rparr>) r)\<lparr>d_Held := ''lag-pending''\<rparr>)
      else decide_job_gate d p (if p_ConsumerGroup p \<noteq> [] then cur\<lparr>s_Pending := 0\<rparr> else cur) obs now)"

definition decide_active :: "Decider \<Rightarrow> Policy \<Rightarrow> State \<Rightarrow> Live \<Rightarrow> Observation \<Rightarrow> time \<Rightarrow> Decision" where
  "decide_active d p cur0 live obs now =
     (if l_SpecJobState live = ''suspended''
      then decision ActNone (cur0\<lparr>s_Reason := ReasonSuspendedOutside\<rparr>) ReasonSuspendedOutside
      else
        case note_resumed live now cur0 of (cur1, resumedAfter) \<Rightarrow>
          let cur = note_restarting live now (note_nonce d live now cur1);
              r = unrecoverable d live;
              idle = (After now (Add (s_LastActivityAt cur) (p_IdleAfter p)) \<or>
                      (s_RefreshWake cur \<and> ResumesFromGroup live p))
          in if r \<noteq> [] \<and> p_Restart p \<and> \<not> live_stable live
             then decision MarkUnrecoverable (cur\<lparr>s_Phase := Unrecoverable, s_Reason := r\<rparr>) r
             else if p_Restart p \<and> l_OperatorRestarts live \<and> failing d live cur now
             then decision ActNone cur ReasonOperatorRestarts
             else if p_Restart p \<and> failing d live cur now
             then decide_failing d live cur now
             else if p_Mode p = ModeAuto \<and> live_stable live \<and> l_SpecJobState live = ''running'' \<and> idle
             then decide_idle d p cur live obs now resumedAfter
             else (decision ActNone cur ReasonActive)\<lparr>d_ResumedAfter := resumedAfter\<rparr>)"

section \<open>The decision\<close>

text \<open>
  A spec edit clears unrecoverable, keeping only the nonce of the budget; either way the
  generation seen last is remembered.
\<close>

definition clear_unrecoverable :: "State \<Rightarrow> Live \<Rightarrow> time \<Rightarrow> State" where
  "clear_unrecoverable prev live now =
     (if s_Phase prev = Unrecoverable \<and> s_Generation prev < l_Generation live
      then (wake prev now ''spec changed'')\<lparr>s_Restarts := zero_budget\<lparr>b_LastNonce := b_LastNonce (s_Restarts prev)\<rparr>\<rparr>
      else prev)\<lparr>s_Generation := l_Generation live\<rparr>"

definition relearn :: "Policy \<Rightarrow> State \<Rightarrow> Live \<Rightarrow> time \<Rightarrow> Decision" where
  "relearn p prev live now =
     (if \<not> live_suspended live then decision ActNone prev ReasonOperatorSuspends
      else if ResumesFromGroup live p
      then (decision ActNone (prev\<lparr>s_Reason := ReasonRelearnHeld\<rparr>) ReasonRelearnHeld)\<lparr>d_Held := ''sources-unknown''\<rparr>
      else decision Resume ((wake prev now ReasonRelearn)\<lparr>s_ResumedAt := now\<rparr>) ReasonRelearn)"

definition observe_snapshot :: "State \<Rightarrow> Observation \<Rightarrow> time \<Rightarrow> State" where
  "observe_snapshot prev obs now =
     (let cur = prev\<lparr>s_Snapshot := ob_Snapshot obs\<rparr>
      in if \<not> maps_equal (ob_Snapshot obs) (s_Snapshot prev)
         then cur\<lparr>s_LastActivityAt := now, s_RefreshWake := False\<rparr> else cur)"

definition decide_phase :: "Decider \<Rightarrow> Policy \<Rightarrow> State \<Rightarrow> Live \<Rightarrow> Observation \<Rightarrow> time \<Rightarrow> Decision" where
  "decide_phase d p prev live obs now =
     (let moved = (\<not> maps_equal (ob_Snapshot obs) (s_Snapshot prev));
          cur = observe_snapshot prev obs now
      in if s_Phase prev = Suspended then decide_suspended p prev cur live obs now moved
         else if s_Phase prev = Unrecoverable then decide_unrecoverable prev cur
         else decide_active d p cur live obs now)"

definition Decide :: "Decider \<Rightarrow> Policy \<Rightarrow> State \<Rightarrow> Live \<Rightarrow> Observation \<Rightarrow> time \<Rightarrow> Decision" where
  "Decide d p prev0 live obs now =
     (if operatorBusy live then decision ActNone prev0 (reasonOperatorBusy (l_LifecycleState live))
      else if p_Mode p = ModeOff \<and> s_Phase prev0 = Suspended \<and> l_SpecJobState live = ''suspended''
      then (if \<not> live_suspended live then decision ActNone prev0 ReasonOperatorSuspends
            else decision Resume (wake prev0 now ReasonSuspensionOff) ReasonSuspensionOff)
      else
        let prev = clear_unrecoverable prev0 live now
        in if ob_Unlearned obs \<and> s_Phase prev = Suspended \<and> l_SpecJobState live = ''suspended'' \<and> p_Mode p = ModeAuto
           then relearn p prev live now
           else if \<not> ob_Known obs
           then (if ob_Why obs \<noteq> [] then decision ActNone (prev\<lparr>s_Reason := ob_Why obs\<rparr>) (ob_Why obs)
                 else decision ActNone prev ReasonOffsetsUnknown)
           else decide_phase d p prev live obs now)"

end
