(* ===== verification/DecideFacts.thy ===== *)
theory DecideFacts
  imports Decide
begin

text \<open>
  Facts about the decider: which action each part of the decision takes, the conditions of
  every action as equivalences, and what a decision does to memory.
\<close>

section \<open>The actions of the parts\<close>

lemma suspend_now_action [simp]: "d_Action (suspend_now p cur now) = Suspend"
  by (simp add: suspend_now_def Let_def)

lemma decide_job_gate_action:
  "d_Action (decide_job_gate d p cur obs now) =
     (if p_IdleFromJob p \<and> fst (gate_job d p obs) \<noteq> JobIdle then ActNone else Suspend)"
  by (auto simp: decide_job_gate_def Let_def split: prod.split JobGate.split)

lemma gate_job_idle:
  "fst (gate_job d p obs) = JobIdle \<longleftrightarrow>
     ob_ReadingKnown obs \<and> fst (jobGate (p_Sources p) (ob_Ends obs) (ob_Reading obs) (quiet d)) = JobIdle"
  by (simp add: gate_job_def)

lemma decide_idle_action:
  "d_Action (decide_idle d p cur live obs now ra) =
     (if now \<le> s_AwakeSince cur + p_MinAwake p then ActNone
      else if \<not> keepsPosition live \<and> \<not> ResumesFromGroup live p then Refuse
      else if p_ConsumerGroup p \<noteq> [] \<and> (\<not> ob_LagKnown obs \<or> 0 < ob_Pending obs) then ActNone
      else if p_IdleFromJob p \<and> fst (gate_job d p obs) \<noteq> JobIdle then ActNone
      else Suspend)"
  by (auto simp: decide_idle_def Let_def decide_job_gate_action)

lemma decide_failing_action:
  "d_Action (decide_failing d live cur now) =
     (if InBackoff (s_Restarts cur) now (rp_Window (dc_restart d)) then ActNone
      else if Exhausted (s_Restarts cur) now (rp_MaxRestarts (dc_restart d)) (rp_Window (dc_restart d))
      then MarkUnrecoverable else Restart)"
  by (simp add: decide_failing_def Let_def)

lemma decide_unrecoverable_action [simp]: "d_Action (decide_unrecoverable prev cur) = ActNone"
  by (simp add: decide_unrecoverable_def Let_def)

definition refresh_due :: "Policy \<Rightarrow> State \<Rightarrow> Live \<Rightarrow> time \<Rightarrow> bool" where
  "refresh_due p s live now \<longleftrightarrow>
     ResumesFromGroup live p \<and> 0 < p_MaxSleep p \<and> s_SuspendedAt s + p_MaxSleep p < now"

lemma decide_suspended_action:
  "d_Action (decide_suspended p prev cur live obs now moved) =
     (if l_SpecJobState live \<noteq> ''running'' \<and> live_suspended live \<and>
         (moved \<or> refresh_due p prev live now) \<and>
         (ResumesFromGroup live p \<longrightarrow> ob_Uncommitted obs = [] \<and> ob_LagKnown obs)
      then Resume else ActNone)"
  by (simp add: decide_suspended_def Let_def refresh_due_def)

lemma relearn_action:
  "d_Action (relearn p prev live now) =
     (if live_suspended live \<and> \<not> ResumesFromGroup live p then Resume else ActNone)"
  by (simp add: relearn_def)

lemma stable_not_failing: "live_stable live \<Longrightarrow> \<not> failing d live s now"
  by (simp add: live_stable_def failing_def)

lemma stable_not_busy: "live_stable live \<Longrightarrow> \<not> operatorBusy live"
  by (simp add: live_stable_def operatorBusy_def)

lemma suspended_not_busy: "live_suspended live \<Longrightarrow> \<not> operatorBusy live"
  by (simp add: live_suspended_def operatorBusy_def)

section \<open>The bookkeeping of an active job\<close>

text \<open>Memory of an active job after this tick's bookkeeping, before any decision.\<close>

definition noted :: "Decider \<Rightarrow> Live \<Rightarrow> time \<Rightarrow> State \<Rightarrow> State" where
  "noted d live now cur = note_restarting live now (note_nonce d live now (fst (note_resumed live now cur)))"

lemma note_resumed_fields [simp]:
  "s_Phase (fst (note_resumed live now s)) = s_Phase s"
  "s_Snapshot (fst (note_resumed live now s)) = s_Snapshot s"
  "s_LastActivityAt (fst (note_resumed live now s)) = s_LastActivityAt s"
  "s_SuspendedAt (fst (note_resumed live now s)) = s_SuspendedAt s"
  "s_AwakeSince (fst (note_resumed live now s)) = s_AwakeSince s"
  "s_Restarts (fst (note_resumed live now s)) = s_Restarts s"
  "s_RefreshWake (fst (note_resumed live now s)) = s_RefreshWake s"
  "s_RestartingSince (fst (note_resumed live now s)) = s_RestartingSince s"
  "s_Generation (fst (note_resumed live now s)) = s_Generation s"
  "s_Reason (fst (note_resumed live now s)) = s_Reason s"
  by (simp_all add: note_resumed_def)

lemma note_restarting_fields [simp]:
  "s_Phase (note_restarting live now s) = s_Phase s"
  "s_Snapshot (note_restarting live now s) = s_Snapshot s"
  "s_LastActivityAt (note_restarting live now s) = s_LastActivityAt s"
  "s_SuspendedAt (note_restarting live now s) = s_SuspendedAt s"
  "s_AwakeSince (note_restarting live now s) = s_AwakeSince s"
  "s_Restarts (note_restarting live now s) = s_Restarts s"
  "s_RefreshWake (note_restarting live now s) = s_RefreshWake s"
  "s_ResumedAt (note_restarting live now s) = s_ResumedAt s"
  "s_Generation (note_restarting live now s) = s_Generation s"
  "s_Reason (note_restarting live now s) = s_Reason s"
  by (simp_all add: note_restarting_def)

lemma note_nonce_fields [simp]:
  "s_Phase (note_nonce d live now s) = s_Phase s"
  "s_Snapshot (note_nonce d live now s) = s_Snapshot s"
  "s_LastActivityAt (note_nonce d live now s) = s_LastActivityAt s"
  "s_SuspendedAt (note_nonce d live now s) = s_SuspendedAt s"
  "s_RefreshWake (note_nonce d live now s) = s_RefreshWake s"
  "s_RestartingSince (note_nonce d live now s) = s_RestartingSince s"
  "s_ResumedAt (note_nonce d live now s) = s_ResumedAt s"
  "s_Generation (note_nonce d live now s) = s_Generation s"
  "s_Reason (note_nonce d live now s) = s_Reason s"
  by (simp_all add: note_nonce_def)

lemma noted_fields [simp]:
  "s_Phase (noted d live now s) = s_Phase s"
  "s_Snapshot (noted d live now s) = s_Snapshot s"
  "s_LastActivityAt (noted d live now s) = s_LastActivityAt s"
  "s_SuspendedAt (noted d live now s) = s_SuspendedAt s"
  "s_RefreshWake (noted d live now s) = s_RefreshWake s"
  "s_Generation (noted d live now s) = s_Generation s"
  "s_Reason (noted d live now s) = s_Reason s"
  by (simp_all add: noted_def)

text \<open>The nonce on the object that memory has not counted yet.\<close>

abbreviation unseen_nonce :: "State \<Rightarrow> Live \<Rightarrow> bool" where
  "unseen_nonce s live \<equiv> b_LastNonce (s_Restarts s) < l_RestartNonce live"

lemma noted_AwakeSince:
  "s_AwakeSince (noted d live now s) = (if unseen_nonce s live then now else s_AwakeSince s)"
  by (simp add: noted_def) (simp add: note_nonce_def)

lemma noted_Restarts:
  "s_Restarts (noted d live now s) =
     (if unseen_nonce s live
      then (Consume (s_Restarts s) now (rp_Window (dc_restart d)) (rp_BaseBackoff (dc_restart d))
              (rp_Multiplier (dc_restart d)))\<lparr>b_LastNonce := l_RestartNonce live\<rparr>
      else s_Restarts s)"
  by (simp add: noted_def) (simp add: note_nonce_def)

lemma noted_RestartingSince:
  "s_RestartingSince (noted d live now s) =
     (if l_JobState live \<noteq> ''RESTARTING'' then zero_time
      else if IsZero (s_RestartingSince s) then now else s_RestartingSince s)"
  by (simp add: noted_def) (simp add: note_restarting_def)

section \<open>An active job\<close>

text \<open>Idle: no input for the window, or awake only to refresh the group's offsets.\<close>

definition idle_due :: "Policy \<Rightarrow> State \<Rightarrow> Live \<Rightarrow> time \<Rightarrow> bool" where
  "idle_due p s live now \<longleftrightarrow>
     s_LastActivityAt s + p_IdleAfter p < now \<or> s_RefreshWake s \<and> ResumesFromGroup live p"

lemma decide_active_unfold:
  assumes "l_SpecJobState live \<noteq> ''suspended''"
  shows "decide_active d p s live obs now =
     (let cur = noted d live now s; ra = snd (note_resumed live now s); r = unrecoverable d live
      in if r \<noteq> [] \<and> p_Restart p \<and> \<not> live_stable live
         then decision MarkUnrecoverable (cur\<lparr>s_Phase := Unrecoverable, s_Reason := r\<rparr>) r
         else if p_Restart p \<and> l_OperatorRestarts live \<and> failing d live cur now
         then decision ActNone cur ReasonOperatorRestarts
         else if p_Restart p \<and> failing d live cur now then decide_failing d live cur now
         else if p_Mode p = ModeAuto \<and> live_stable live \<and> l_SpecJobState live = ''running'' \<and>
                 idle_due p s live now
         then decide_idle d p cur live obs now ra
         else (decision ActNone cur ReasonActive)\<lparr>d_ResumedAfter := ra\<rparr>)"
proof -
  obtain cur1 ra where n: "note_resumed live now s = (cur1, ra)" by (rule prod.exhaust)
  have "note_restarting live now (note_nonce d live now cur1) = noted d live now s"
    by (simp add: noted_def n)
  with assms n show ?thesis by (auto simp: decide_active_def idle_due_def Let_def)
qed

lemma decide_active_suspend:
  "d_Action (decide_active d p s live obs now) = Suspend \<longleftrightarrow>
     p_Mode p = ModeAuto \<and> live_stable live \<and> l_SpecJobState live = ''running'' \<and> idle_due p s live now \<and>
     d_Action (decide_idle d p (noted d live now s) live obs now (snd (note_resumed live now s))) = Suspend"
proof (cases "l_SpecJobState live = ''suspended''")
  case True
  then show ?thesis by (simp add: decide_active_def)
next
  case False
  then show ?thesis
    by (auto simp: decide_active_unfold Let_def stable_not_failing decide_failing_action)
qed

text \<open>When a failing job is ours to restart.\<close>

definition restart_due :: "Decider \<Rightarrow> Policy \<Rightarrow> State \<Rightarrow> Live \<Rightarrow> time \<Rightarrow> bool" where
  "restart_due d p s live now \<longleftrightarrow>
     l_SpecJobState live \<noteq> ''suspended'' \<and> p_Restart p \<and> unrecoverable d live = [] \<and>
     \<not> l_OperatorRestarts live \<and> failing d live (noted d live now s) now"

lemma decide_active_restart:
  "d_Action (decide_active d p s live obs now) = Restart \<longleftrightarrow>
     restart_due d p s live now \<and>
     Allows (s_Restarts (noted d live now s)) now (rp_MaxRestarts (dc_restart d)) (rp_Window (dc_restart d))"
proof (cases "l_SpecJobState live = ''suspended''")
  case True
  then show ?thesis by (simp add: decide_active_def restart_due_def)
next
  case False
  then show ?thesis
    by (auto simp: decide_active_unfold Let_def restart_due_def stable_not_failing Allows_def
          decide_failing_action decide_idle_action)
qed

lemma decide_active_mark:
  "d_Action (decide_active d p s live obs now) = MarkUnrecoverable \<longleftrightarrow>
     l_SpecJobState live \<noteq> ''suspended'' \<and> p_Restart p \<and> \<not> live_stable live \<and> unrecoverable d live \<noteq> [] \<or>
     restart_due d p s live now \<and>
     \<not> InBackoff (s_Restarts (noted d live now s)) now (rp_Window (dc_restart d)) \<and>
     Exhausted (s_Restarts (noted d live now s)) now (rp_MaxRestarts (dc_restart d)) (rp_Window (dc_restart d))"
proof (cases "l_SpecJobState live = ''suspended''")
  case True
  then show ?thesis by (simp add: decide_active_def restart_due_def)
next
  case False
  then show ?thesis
    by (auto simp: decide_active_unfold Let_def restart_due_def stable_not_failing
          decide_failing_action decide_idle_action)
qed

lemma decide_active_refuse:
  "d_Action (decide_active d p s live obs now) = Refuse \<longleftrightarrow>
     p_Mode p = ModeAuto \<and> live_stable live \<and> l_SpecJobState live = ''running'' \<and> idle_due p s live now \<and>
     s_AwakeSince (noted d live now s) + p_MinAwake p < now \<and>
     \<not> keepsPosition live \<and> \<not> ResumesFromGroup live p"
proof (cases "l_SpecJobState live = ''suspended''")
  case True
  then show ?thesis by (simp add: decide_active_def)
next
  case False
  then show ?thesis
    by (auto simp: decide_active_unfold Let_def stable_not_failing
          decide_failing_action decide_idle_action)
qed

lemma decide_active_no_resume: "d_Action (decide_active d p s live obs now) \<noteq> Resume"
proof (cases "l_SpecJobState live = ''suspended''")
  case True
  then show ?thesis by (simp add: decide_active_def)
next
  case False
  then show ?thesis
    by (simp add: decide_active_unfold Let_def decide_failing_action decide_idle_action)
qed

section \<open>Memory before the phases\<close>

lemma observe_snapshot_fields [simp]:
  "s_Phase (observe_snapshot s obs now) = s_Phase s"
  "s_Snapshot (observe_snapshot s obs now) = ob_Snapshot obs"
  "s_SuspendedAt (observe_snapshot s obs now) = s_SuspendedAt s"
  "s_AwakeSince (observe_snapshot s obs now) = s_AwakeSince s"
  "s_Restarts (observe_snapshot s obs now) = s_Restarts s"
  "s_ResumedAt (observe_snapshot s obs now) = s_ResumedAt s"
  "s_RestartingSince (observe_snapshot s obs now) = s_RestartingSince s"
  "s_Generation (observe_snapshot s obs now) = s_Generation s"
  "s_Reason (observe_snapshot s obs now) = s_Reason s"
  by (simp_all add: observe_snapshot_def Let_def)

definition moved :: "State \<Rightarrow> Observation \<Rightarrow> bool" where
  "moved s obs \<longleftrightarrow> \<not> maps_equal (ob_Snapshot obs) (s_Snapshot s)"

lemma observe_snapshot_moved:
  "s_LastActivityAt (observe_snapshot s obs now) = (if moved s obs then now else s_LastActivityAt s)"
  "s_RefreshWake (observe_snapshot s obs now) = (s_RefreshWake s \<and> \<not> moved s obs)"
  by (simp_all add: observe_snapshot_def Let_def moved_def)

lemma wake_fields [simp]:
  "s_Phase (wake s now r) = Active" "s_SuspendedAt (wake s now r) = zero_time"
  "s_AwakeSince (wake s now r) = now" "s_LastActivityAt (wake s now r) = now"
  "s_Reason (wake s now r) = r" "s_RefreshWake (wake s now r) = False"
  "s_Snapshot (wake s now r) = s_Snapshot s" "s_Restarts (wake s now r) = s_Restarts s"
  "s_Generation (wake s now r) = s_Generation s" "s_ResumedAt (wake s now r) = s_ResumedAt s"
  "s_RestartingSince (wake s now r) = s_RestartingSince s"
  by (simp_all add: wake_def)

abbreviation respecced :: "State \<Rightarrow> Live \<Rightarrow> bool" where
  "respecced s live \<equiv> s_Phase s = Unrecoverable \<and> s_Generation s < l_Generation live"

lemma clear_unrecoverable_fields:
  "s_Phase (clear_unrecoverable s live now) = (if respecced s live then Active else s_Phase s)"
  "s_Snapshot (clear_unrecoverable s live now) = s_Snapshot s"
  "s_LastActivityAt (clear_unrecoverable s live now) = (if respecced s live then now else s_LastActivityAt s)"
  "s_SuspendedAt (clear_unrecoverable s live now) = (if respecced s live then zero_time else s_SuspendedAt s)"
  "s_AwakeSince (clear_unrecoverable s live now) = (if respecced s live then now else s_AwakeSince s)"
  "s_RefreshWake (clear_unrecoverable s live now) = (s_RefreshWake s \<and> \<not> respecced s live)"
  "b_LastNonce (s_Restarts (clear_unrecoverable s live now)) = b_LastNonce (s_Restarts s)"
  "s_Generation (clear_unrecoverable s live now) = l_Generation live"
  "s_ResumedAt (clear_unrecoverable s live now) = s_ResumedAt s"
  "s_RestartingSince (clear_unrecoverable s live now) = s_RestartingSince s"
  by (simp_all add: clear_unrecoverable_def)

lemma clear_unrecoverable_id:
  "\<not> respecced s live \<Longrightarrow> clear_unrecoverable s live now = s\<lparr>s_Generation := l_Generation live\<rparr>"
  by (auto simp: clear_unrecoverable_def)

lemma moved_clear [simp]: "moved (clear_unrecoverable s live now) obs = moved s obs"
  by (simp add: moved_def clear_unrecoverable_fields)

end
