(* ===== verification/DecideProps.thy ===== *)
theory DecideProps
  imports DecideFacts
begin

text \<open>
  The properties of one tick's decision: for every action the exact condition under which
  it is taken, what never happens, and what a decision keeps of memory.
\<close>

section \<open>The parts of a decision\<close>

text \<open>The one place where the decision does not depend on the broker: mode off.\<close>

definition off_resumes :: "Policy \<Rightarrow> State \<Rightarrow> Live \<Rightarrow> bool" where
  "off_resumes p s live \<longleftrightarrow> p_Mode p = ModeOff \<and> s_Phase s = Suspended \<and> l_SpecJobState live = ''suspended''"

text \<open>And the one where nothing was learned about a sleeping job's sources.\<close>

definition sources_lost :: "Policy \<Rightarrow> State \<Rightarrow> Live \<Rightarrow> Observation \<Rightarrow> bool" where
  "sources_lost p s live obs \<longleftrightarrow>
     ob_Unlearned obs \<and> s_Phase s = Suspended \<and> l_SpecJobState live = ''suspended'' \<and> p_Mode p = ModeAuto"

lemma Decide_unfold:
  "Decide d p s live obs now =
     (if operatorBusy live then decision ActNone s (reasonOperatorBusy (l_LifecycleState live))
      else if off_resumes p s live
      then (if live_suspended live then decision Resume (wake s now ReasonSuspensionOff) ReasonSuspensionOff
            else decision ActNone s ReasonOperatorSuspends)
      else if sources_lost p s live obs then relearn p (clear_unrecoverable s live now) live now
      else if \<not> ob_Known obs
      then (if ob_Why obs \<noteq> [] then decision ActNone ((clear_unrecoverable s live now)\<lparr>s_Reason := ob_Why obs\<rparr>) (ob_Why obs)
            else decision ActNone (clear_unrecoverable s live now) ReasonOffsetsUnknown)
      else decide_phase d p (clear_unrecoverable s live now) live obs now)"
  by (auto simp: Decide_def off_resumes_def sources_lost_def Let_def clear_unrecoverable_fields)

lemma decide_phase_action:
  "d_Action (decide_phase d p s live obs now) =
     (if s_Phase s = Suspended
      then d_Action (decide_suspended p s (observe_snapshot s obs now) live obs now (moved s obs))
      else if s_Phase s = Unrecoverable then ActNone
      else d_Action (decide_active d p (observe_snapshot s obs now) live obs now))"
  by (simp add: decide_phase_def Let_def moved_def)

text \<open>A phase other than suspended and unrecoverable is handled as active.\<close>

abbreviation awake :: "State \<Rightarrow> Live \<Rightarrow> bool" where
  "awake s live \<equiv> s_Phase s \<noteq> Suspended \<and> (s_Phase s = Unrecoverable \<longrightarrow> s_Generation s < l_Generation live)"

lemma Decide_active_only:
  assumes "a \<notin> {ActNone, Resume}"
  shows "d_Action (Decide d p s live obs now) = a \<longleftrightarrow>
     \<not> operatorBusy live \<and> ob_Known obs \<and> awake s live \<and>
     d_Action (decide_active d p (observe_snapshot (clear_unrecoverable s live now) obs now) live obs now) = a"
  using assms
  by (auto simp: Decide_unfold decide_phase_action off_resumes_def sources_lost_def relearn_action
        decide_suspended_action clear_unrecoverable_fields)

section \<open>When a job is suspended\<close>

definition suspend_spec :: "Decider \<Rightarrow> Policy \<Rightarrow> State \<Rightarrow> Live \<Rightarrow> Observation \<Rightarrow> time \<Rightarrow> bool" where
  "suspend_spec d p s live obs now \<longleftrightarrow>
     p_Mode p = ModeAuto \<and> s_Phase s \<noteq> Suspended \<and> s_Phase s \<noteq> Unrecoverable \<and>
     live_stable live \<and> l_SpecJobState live = ''running'' \<and>
     ob_Known obs \<and> \<not> moved s obs \<and>
     (s_LastActivityAt s + p_IdleAfter p < now \<or> s_RefreshWake s \<and> ResumesFromGroup live p) \<and>
     l_RestartNonce live \<le> b_LastNonce (s_Restarts s) \<and> s_AwakeSince s + p_MinAwake p < now \<and>
     (keepsPosition live \<or> ResumesFromGroup live p) \<and>
     (p_ConsumerGroup p \<noteq> [] \<longrightarrow> ob_LagKnown obs \<and> ob_Pending obs \<le> 0) \<and>
     (p_IdleFromJob p \<longrightarrow> ob_ReadingKnown obs \<and>
        fst (jobGate (p_Sources p) (ob_Ends obs) (ob_Reading obs) (quiet d)) = JobIdle)"

lemma Decide_suspends:
  assumes "0 \<le> p_IdleAfter p" and "0 \<le> p_MinAwake p"
  shows "d_Action (Decide d p s live obs now) = Suspend \<longleftrightarrow> suspend_spec d p s live obs now"
proof -
  let ?s = "clear_unrecoverable s live now"
  have "d_Action (decide_active d p (observe_snapshot ?s obs now) live obs now) = Suspend \<longleftrightarrow>
      suspend_spec d p s live obs now" if "awake s live" "ob_Known obs"
    using that assms
    by (auto simp: decide_active_suspend decide_idle_action idle_due_def noted_AwakeSince
          observe_snapshot_moved clear_unrecoverable_fields suspend_spec_def gate_job_idle)
  then show ?thesis
    using Decide_active_only[of Suspend d p s live obs now] stable_not_busy[of live]
    by (auto simp: suspend_spec_def)
qed

text \<open>
  C1. Suspend, exactly. With a policy whose clocks are not negative, the decider suspends a
  job precisely when every gate is open: mode auto, memory says awake, the operator reports
  STABLE and RUNNING with a spec that says running, the end offsets were read and equal the
  remembered ones, the idle window has passed (or the job is awake only to refresh its
  group's offsets), no unrecorded restart and min-awake has passed, the upgrade mode keeps
  the position, the consumer group is known to be caught up when one is configured, and the
  job itself says idle when asked. There is no other way to be suspended.
\<close>

theorem Decide_suspend_iff:
  assumes "0 \<le> p_IdleAfter p" and "0 \<le> p_MinAwake p"
  shows "d_Action (Decide d p s live obs now) = Suspend \<longleftrightarrow> suspend_spec d p s live obs now"
  using assms by (rule Decide_suspends)

section \<open>When a job is resumed\<close>

definition resume_spec :: "Policy \<Rightarrow> State \<Rightarrow> Live \<Rightarrow> Observation \<Rightarrow> time \<Rightarrow> bool" where
  "resume_spec p s live obs now \<longleftrightarrow>
     s_Phase s = Suspended \<and> live_suspended live \<and>
     (if l_SpecJobState live = ''suspended'' \<and> p_Mode p = ModeOff then True
      else if l_SpecJobState live = ''suspended'' \<and> p_Mode p = ModeAuto \<and> ob_Unlearned obs
      then \<not> ResumesFromGroup live p
      else l_SpecJobState live \<noteq> ''running'' \<and> ob_Known obs \<and>
           (moved s obs \<or> refresh_due p s live now) \<and>
           (ResumesFromGroup live p \<longrightarrow> ob_Uncommitted obs = [] \<and> ob_LagKnown obs))"

lemma Decide_resumes:
  "d_Action (Decide d p s live obs now) = Resume \<longleftrightarrow> resume_spec p s live obs now"
proof (cases "live_suspended live")
  case True
  then show ?thesis
    using suspended_not_busy[OF True]
    by (auto simp: Decide_unfold resume_spec_def off_resumes_def sources_lost_def relearn_action
          decide_phase_action decide_suspended_action decide_active_no_resume
          clear_unrecoverable_fields refresh_due_def)
next
  case False
  then show ?thesis
    by (simp add: Decide_unfold resume_spec_def relearn_action decide_phase_action
          decide_suspended_action decide_active_no_resume)
qed

text \<open>
  C2. Resume, exactly. A job is resumed precisely when memory says we suspended it and the
  operator reports the suspend complete, and one of three things holds: mode is off; the
  learned sources are lost and the job does not resume from group offsets; or the end offsets
  are known and moved (or a stateless job has slept for max-sleep), and, for a job resuming
  from group offsets, the group is known to have a committed offset for every partition. So
  no resume races a savepoint in flight, no unknown answer wakes a job, and none is woken into a replay.
\<close>

theorem Decide_resume_iff:
  "d_Action (Decide d p s live obs now) = Resume \<longleftrightarrow> resume_spec p s live obs now"
  by (rule Decide_resumes)

section \<open>When a job is restarted, given up or refused\<close>

text \<open>Memory of an awake job as the restart rules see it: cleared, observed and noted.\<close>

definition seen :: "Decider \<Rightarrow> State \<Rightarrow> Live \<Rightarrow> Observation \<Rightarrow> time \<Rightarrow> State" where
  "seen d s live obs now = noted d live now (observe_snapshot (clear_unrecoverable s live now) obs now)"

definition restart_wanted :: "Decider \<Rightarrow> Policy \<Rightarrow> State \<Rightarrow> Live \<Rightarrow> Observation \<Rightarrow> time \<Rightarrow> bool" where
  "restart_wanted d p s live obs now \<longleftrightarrow>
     \<not> operatorBusy live \<and> ob_Known obs \<and> awake s live \<and>
     l_SpecJobState live \<noteq> ''suspended'' \<and> p_Restart p \<and> unrecoverable d live = [] \<and>
     \<not> l_OperatorRestarts live \<and> failing d live (seen d s live obs now) now"

text \<open>
  C12. Restart, exactly. A job is restarted precisely when it is awake and failing (FAILED, or
  RESTARTING for longer than the threshold), restarts are on and not the operator's business,
  its error matches no unrecoverable pattern, the offsets are known and the operator is not
  mid-change, and the budget allows one more restart now: neither exhausted in its window
  nor waiting out the last one.
\<close>

theorem Decide_restart_iff:
  "d_Action (Decide d p s live obs now) = Restart \<longleftrightarrow>
     restart_wanted d p s live obs now \<and>
     Allows (s_Restarts (seen d s live obs now)) now (rp_MaxRestarts (dc_restart d)) (rp_Window (dc_restart d))"
  by (auto simp: Decide_active_only decide_active_restart restart_due_def restart_wanted_def seen_def)

text \<open>
  C14. Giving up, exactly. A job is marked unrecoverable precisely when, with restarts on, it is
  not running fine and its error matches a pattern, or when a restart is wanted and the
  budget of the window is used up with no wait pending. A job that runs fine is never marked.
\<close>

theorem Decide_mark_iff:
  "d_Action (Decide d p s live obs now) = MarkUnrecoverable \<longleftrightarrow>
     \<not> operatorBusy live \<and> ob_Known obs \<and> awake s live \<and> l_SpecJobState live \<noteq> ''suspended'' \<and>
       p_Restart p \<and> \<not> live_stable live \<and> unrecoverable d live \<noteq> [] \<or>
     restart_wanted d p s live obs now \<and>
       \<not> InBackoff (s_Restarts (seen d s live obs now)) now (rp_Window (dc_restart d)) \<and>
       Exhausted (s_Restarts (seen d s live obs now)) now (rp_MaxRestarts (dc_restart d)) (rp_Window (dc_restart d))"
  by (auto simp: Decide_active_only decide_active_mark restart_due_def restart_wanted_def seen_def)

text \<open>
  Refusal, exactly. A suspend is refused precisely for a job that is idle and awake long
  enough, stable and running under mode auto, whose upgrade mode would lose its position and
  which does not resume from its group's offsets.
\<close>

theorem Decide_refuse_iff:
  assumes "0 \<le> p_IdleAfter p" and "0 \<le> p_MinAwake p"
  shows "d_Action (Decide d p s live obs now) = Refuse \<longleftrightarrow>
     p_Mode p = ModeAuto \<and> s_Phase s \<noteq> Suspended \<and> s_Phase s \<noteq> Unrecoverable \<and>
     live_stable live \<and> l_SpecJobState live = ''running'' \<and> ob_Known obs \<and> \<not> moved s obs \<and>
     s_LastActivityAt s + p_IdleAfter p < now \<and> l_RestartNonce live \<le> b_LastNonce (s_Restarts s) \<and>
     s_AwakeSince s + p_MinAwake p < now \<and> \<not> keepsPosition live \<and> \<not> ResumesFromGroup live p"
proof -
  have "\<not> operatorBusy live" if "live_stable live" using that by (rule stable_not_busy)
  with assms show ?thesis
    by (auto simp: Decide_active_only decide_active_refuse idle_due_def noted_AwakeSince
          observe_snapshot_moved clear_unrecoverable_fields)
qed

section \<open>Unknown never acts\<close>


section \<open>Every decision says why\<close>

lemma reasons_nonempty [simp]:
  "ReasonIdle \<noteq> []" "ReasonActive \<noteq> []" "ReasonInputObserved \<noteq> []" "ReasonOffsetsUnknown \<noteq> []"
  "ReasonSuspensionOff \<noteq> []" "ReasonSuspendedOutside \<noteq> []" "ReasonResumedOutside \<noteq> []"
  "ReasonOperatorSuspends \<noteq> []" "ReasonOperatorRestarts \<noteq> []" "ReasonBudgetExhausted \<noteq> []"
  "ReasonRefreshed \<noteq> []" "ReasonRelearn \<noteq> []" "ReasonRelearnHeld \<noteq> []"
  "reasonOperatorBusy x \<noteq> []" "reasonNoInput d \<noteq> []" "reasonRefused x \<noteq> []" "reasonLagUnknown x \<noteq> []"
  "reasonRecordsPending x \<noteq> []" "reasonOffsetsMissing x \<noteq> []" "reasonRefresh d \<noteq> []"
  "reasonJobBusy x \<noteq> []" "reasonJobUnknown x \<noteq> []" "reasonBackoffUntil d \<noteq> []"
  "reasonRestart n \<noteq> []" "reasonRestarting x n \<noteq> []"
  by (simp_all add: reason_defs)

lemma decide_job_gate_reason: "d_Reason (decide_job_gate d p cur obs now) \<noteq> []"
  by (auto simp: decide_job_gate_def suspend_now_def Let_def split: prod.split JobGate.split)

lemma decide_idle_reason: "d_Reason (decide_idle d p cur live obs now ra) \<noteq> []"
  by (simp add: decide_idle_def Let_def decide_job_gate_reason)

lemma decide_active_reason: "d_Reason (decide_active d p s live obs now) \<noteq> []"
proof (cases "l_SpecJobState live = ''suspended''")
  case True
  then show ?thesis by (simp add: decide_active_def)
next
  case False
  then show ?thesis
    by (simp add: decide_active_unfold Let_def decide_idle_reason decide_failing_def)
qed

lemma decide_suspended_reason: "d_Reason (decide_suspended p prev cur live obs now m) \<noteq> []"
  by (simp add: decide_suspended_def Let_def)

lemma decide_unrecoverable_reason: "d_Reason (decide_unrecoverable prev cur) \<noteq> []"
  by (simp add: decide_unrecoverable_def Let_def)

text \<open>
  Every operator state has a defined answer. Whatever the operator reports, memory holds
  and the probes return, the decision carries a reason.
\<close>

theorem every_decision_has_a_reason: "d_Reason (Decide d p s live obs now) \<noteq> []"
  by (simp add: Decide_unfold relearn_def decide_phase_def Let_def decide_active_reason
        decide_suspended_reason decide_unrecoverable_reason)

section \<open>The gate that is logged\<close>

text \<open>
  The decision carries the job gate's answer for the log line only when the gate held the job awake: no
  decision ever carries \<open>idle\<close>, so the line of a suspend that passed the gate says unknown.
\<close>

lemma gate_never_idle: "d_Gate (Decide d p s live obs now) \<noteq> JobIdle"
proof -
  have job: "d_Gate (decide_job_gate d p cur obs now) \<noteq> JobIdle" for cur
    by (auto simp: decide_job_gate_def suspend_now_def Let_def split: prod.split JobGate.split)
  have idle: "d_Gate (decide_idle d p cur live obs now ra) \<noteq> JobIdle" for cur ra
    by (simp add: decide_idle_def Let_def job)
  have "d_Gate (decide_failing d live cur now) \<noteq> JobIdle" for cur
    by (simp add: decide_failing_def Let_def)
  then have active: "d_Gate (decide_active d p cur live obs now) \<noteq> JobIdle" for cur
    by (cases "note_resumed live now cur") (simp add: decide_active_def Let_def idle)
  have "d_Gate (decide_suspended p prev cur live obs now m) \<noteq> JobIdle" for prev cur m
    by (simp add: decide_suspended_def Let_def)
  then have "d_Gate (decide_phase d p prev live obs now) \<noteq> JobIdle" for prev
    by (simp add: decide_phase_def decide_unrecoverable_def Let_def active)
  then show ?thesis by (simp add: Decide_def relearn_def Let_def)
qed

end
