(* ===== verification/DecideMemory.thy ===== *)
theory DecideMemory
  imports DecideProps
begin

text \<open>
  What a decision does to memory: the invariant every decision keeps, the effect of each
  action, and properties of whole sequences of ticks.
\<close>

section \<open>The invariant\<close>

named_theorems ok_intros \<open>steps that keep the invariant of memory\<close>

lemma budget_ok_nonce [simp]: "budget_ok (b\<lparr>b_LastNonce := n\<rparr>) now = budget_ok b now"
  by (simp add: budget_ok_def)

lemma budget_ok_zero: "0 \<le> now \<Longrightarrow> budget_ok zero_budget now"
  by (simp add: budget_ok_def zero_budget_def)

lemmas state_ok_defs = state_ok_def clocks_ok_def suspension_ok_def

lemma state_ok_reason [simp]: "state_ok (s\<lparr>s_Reason := r\<rparr>) now = state_ok s now"
  by (simp add: state_ok_defs)

lemma state_ok_generation [simp]: "state_ok (s\<lparr>s_Generation := g\<rparr>) now = state_ok s now"
  by (simp add: state_ok_defs)

lemma state_ok_pending [simp]: "state_ok (s\<lparr>s_Pending := n\<rparr>) now = state_ok s now"
  by (simp add: state_ok_defs)

lemma state_ok_snapshot [simp]: "state_ok (s\<lparr>s_Snapshot := m\<rparr>) now = state_ok s now"
  by (simp add: state_ok_defs)

lemma wake_ok [ok_intros]: "state_ok s now \<Longrightarrow> 0 \<le> now \<Longrightarrow> state_ok (wake s now r) now"
  by (simp add: state_ok_defs)

lemma wake_resumed_ok [ok_intros]:
  "state_ok s now \<Longrightarrow> 0 \<le> now \<Longrightarrow> state_ok ((wake s now r)\<lparr>s_ResumedAt := now\<rparr>) now"
  by (simp add: state_ok_defs)

lemma mark_ok [ok_intros]:
  "state_ok s now \<Longrightarrow> state_ok (s\<lparr>s_Phase := Unrecoverable\<rparr>) now"
  by (simp add: state_ok_defs)

lemma clear_unrecoverable_ok [ok_intros]:
  "state_ok s now \<Longrightarrow> 0 \<le> now \<Longrightarrow> state_ok (clear_unrecoverable s live now) now"
  by (simp add: clear_unrecoverable_def state_ok_defs budget_ok_zero)

lemma observe_snapshot_ok [ok_intros]:
  "state_ok s now \<Longrightarrow> state_ok (observe_snapshot s obs now) now"
  by (simp add: observe_snapshot_def Let_def state_ok_defs)

lemma noted_ok [ok_intros]:
  assumes "state_ok s now" and "0 < now"
  shows "state_ok (noted d live now s) now"
proof -
  have b: "budget_ok (s_Restarts (noted d live now s)) now"
    using assms Consume_ok by (auto simp: noted_Restarts state_ok_defs)
  have "s_ResumedAt (noted d live now s) \<in> {0, s_ResumedAt s}"
    by (simp add: noted_def note_resumed_def)
  with assms b show ?thesis
    by (auto simp: state_ok_defs noted_AwakeSince noted_RestartingSince)
qed

lemma suspend_now_ok:
  "state_ok cur now \<Longrightarrow> 0 < now \<Longrightarrow> state_ok (d_Next (suspend_now p cur now)) now"
  by (simp add: suspend_now_def Let_def state_ok_defs)

lemma decide_job_gate_ok:
  "state_ok cur now \<Longrightarrow> 0 < now \<Longrightarrow> state_ok (d_Next (decide_job_gate d p cur obs now)) now"
  by (auto simp: decide_job_gate_def Let_def suspend_now_ok split: prod.split JobGate.split)

lemma decide_idle_ok:
  "state_ok cur now \<Longrightarrow> 0 < now \<Longrightarrow> state_ok (d_Next (decide_idle d p cur live obs now ra)) now"
  by (simp add: decide_idle_def Let_def decide_job_gate_ok)

lemma decide_failing_ok:
  assumes "state_ok cur now" and "0 < now"
  shows "state_ok (d_Next (decide_failing d live cur now)) now"
proof -
  have "budget_ok (Consume (s_Restarts cur) now w base m) now" for w base m
    using assms Consume_ok by (simp add: state_ok_defs)
  with assms show ?thesis by (auto simp: decide_failing_def Let_def state_ok_defs)
qed

lemma decide_active_ok:
  assumes "state_ok s now" and "0 < now"
  shows "state_ok (d_Next (decide_active d p s live obs now)) now"
proof (cases "l_SpecJobState live = ''suspended''")
  case True
  with assms show ?thesis by (simp add: decide_active_def)
next
  case False
  then show ?thesis
    using noted_ok[OF assms, of d live] assms(2)
    by (simp add: decide_active_unfold Let_def decide_idle_ok decide_failing_ok mark_ok)
qed

lemma decide_suspended_ok:
  assumes "state_ok cur now" and "0 \<le> now"
  shows "state_ok (d_Next (decide_suspended p prev cur live obs now m)) now"
proof -
  have "state_ok (cur\<lparr>s_Phase := Active, s_SuspendedAt := 0, s_AwakeSince := now, s_ResumedAt := now,
      s_RefreshWake := True, s_Reason := r\<rparr>) now" for r
    using assms by (simp add: state_ok_defs)
  with assms show ?thesis by (simp add: decide_suspended_def Let_def wake_ok wake_resumed_ok)
qed

text \<open>
  The invariant of memory. If memory was well formed at an earlier tick, then whatever
  the operator, the broker and the job report, every decision leaves it well formed now: the
  suspension clock runs exactly while the phase is suspended, no clock lies in the future,
  and the restart budget has a non-negative count and a window exactly if it counts something.
\<close>

lemma Decide_keeps_memory_ok:
  assumes "state_ok s t" and "t \<le> now" and "0 < now"
  shows "state_ok (d_Next (Decide d p s live obs now)) now"
proof -
  have s: "state_ok s now" using assms(1,2) by (rule state_ok_later)
  let ?c = "clear_unrecoverable s live now"
  have c: "state_ok ?c now" using s assms(3) by (simp add: clear_unrecoverable_ok)
  then have o: "state_ok (observe_snapshot ?c obs now) now" by (rule observe_snapshot_ok)
  have "state_ok (d_Next (decide_phase d p ?c live obs now)) now"
    using o assms(3)
    by (simp add: decide_phase_def Let_def decide_suspended_ok decide_active_ok decide_unrecoverable_def)
  with s c assms(3) show ?thesis
    by (simp add: Decide_unfold relearn_def wake_ok wake_resumed_ok)
qed

section \<open>The effect of an action\<close>

lemma suspend_now_next:
  "s_Phase (d_Next (suspend_now p cur now)) = Suspended" "s_SuspendedAt (d_Next (suspend_now p cur now)) = now"
  "s_RefreshWake (d_Next (suspend_now p cur now)) = False"
  "s_Snapshot (d_Next (suspend_now p cur now)) = s_Snapshot cur"
  by (simp_all add: suspend_now_def Let_def)

lemma decide_job_gate_next:
  "d_Action (decide_job_gate d p cur obs now) = Suspend \<Longrightarrow>
     decide_job_gate d p cur obs now = suspend_now p cur now"
  by (auto simp: decide_job_gate_def Let_def split: if_splits prod.splits JobGate.splits)

lemma decide_active_suspend_next:
  assumes "d_Action (decide_active d p s live obs now) = Suspend"
  obtains cur where "decide_active d p s live obs now = suspend_now p cur now" "s_Snapshot cur = s_Snapshot s"
proof -
  let ?n = "noted d live now s"
  have a: "live_stable live" "l_SpecJobState live = ''running''" "p_Mode p = ModeAuto" "idle_due p s live now"
    and i: "d_Action (decide_idle d p ?n live obs now (snd (note_resumed live now s))) = Suspend"
    using assms by (auto simp: decide_active_suspend)
  then have "decide_active d p s live obs now = decide_idle d p ?n live obs now (snd (note_resumed live now s))"
    by (simp add: decide_active_unfold Let_def stable_not_failing)
  moreover obtain cur where "decide_idle d p ?n live obs now (snd (note_resumed live now s)) = decide_job_gate d p cur obs now"
    and "s_Snapshot cur = s_Snapshot ?n"
    using i by (auto simp: decide_idle_def Let_def split: if_splits)
  ultimately show ?thesis using that[of cur] i decide_job_gate_next by simp
qed

text \<open>
  The effect of a suspend. Memory says suspended since now, is no longer in a refresh
  wake, and holds this tick's end offsets: the input that will wake the job is measured from
  the very observation the suspend was decided on.
\<close>

theorem Decide_suspend_next:
  assumes "d_Action (Decide d p s live obs now) = Suspend"
  shows "s_Phase (d_Next (Decide d p s live obs now)) = Suspended \<and>
     s_SuspendedAt (d_Next (Decide d p s live obs now)) = now \<and>
     \<not> s_RefreshWake (d_Next (Decide d p s live obs now)) \<and>
     s_Snapshot (d_Next (Decide d p s live obs now)) = ob_Snapshot obs"
proof -
  let ?c = "observe_snapshot (clear_unrecoverable s live now) obs now"
  have a: "\<not> operatorBusy live" "ob_Known obs" "awake s live"
    "d_Action (decide_active d p ?c live obs now) = Suspend"
    using assms Decide_active_only[of Suspend d p s live obs now] by auto
  then have "Decide d p s live obs now = decide_active d p ?c live obs now"
    by (auto simp: Decide_unfold off_resumes_def sources_lost_def decide_phase_def Let_def
          clear_unrecoverable_fields)
  with a(4) show ?thesis
    by (auto elim!: decide_active_suspend_next simp: suspend_now_next)
qed

lemma decide_suspended_resume_next:
  assumes "d_Action (decide_suspended p prev cur live obs now m) = Resume"
  shows "d_Next (decide_suspended p prev cur live obs now m) =
     (if m then (wake cur now ''input observed'')\<lparr>s_ResumedAt := now\<rparr>
      else cur\<lparr>s_Phase := Active, s_SuspendedAt := zero_time, s_AwakeSince := now, s_ResumedAt := now,
             s_RefreshWake := True, s_Reason := reasonRefresh (p_MaxSleep p)\<rparr>)"
  using assms by (cases m) (auto simp: decide_suspended_def Let_def split: if_splits)

lemma Decide_suspended_phase:
  assumes "s_Phase s = Suspended" and "\<not> operatorBusy live" and "\<not> off_resumes p s live"
    and "\<not> sources_lost p s live obs" and "ob_Known obs"
  shows "Decide d p s live obs now =
     decide_suspended p (s\<lparr>s_Generation := l_Generation live\<rparr>)
       (observe_snapshot (s\<lparr>s_Generation := l_Generation live\<rparr>) obs now) live obs now (moved s obs)"
  using assms by (simp add: Decide_unfold clear_unrecoverable_id decide_phase_def Let_def moved_def)

lemma Decide_resumed:
  assumes "d_Action (Decide d p s live obs now) = Resume"
  shows "s_Phase (d_Next (Decide d p s live obs now)) = Active \<and>
     IsZero (s_SuspendedAt (d_Next (Decide d p s live obs now))) \<and>
     s_AwakeSince (d_Next (Decide d p s live obs now)) = now \<and>
     (if s_RefreshWake (d_Next (Decide d p s live obs now))
      then refresh_due p s live now \<and> \<not> moved s obs
      else s_LastActivityAt (d_Next (Decide d p s live obs now)) = now)"
proof -
  have spec: "resume_spec p s live obs now" using assms by (simp add: Decide_resumes)
  then have ph: "s_Phase s = Suspended" and ls: "live_suspended live" by (simp_all add: resume_spec_def)
  have nb: "\<not> operatorBusy live" using ls by (rule suspended_not_busy)
  consider "off_resumes p s live" | "\<not> off_resumes p s live" "sources_lost p s live obs"
    | "\<not> off_resumes p s live" "\<not> sources_lost p s live obs" by blast
  then show ?thesis
  proof cases
    case 1
    with nb ls show ?thesis by (simp add: Decide_unfold)
  next
    case 2
    then have "\<not> ResumesFromGroup live p"
      using spec by (auto simp: resume_spec_def sources_lost_def off_resumes_def)
    with 2 nb ls show ?thesis by (simp add: Decide_unfold relearn_def)
  next
    case 3
    then have k: "ob_Known obs" and mr: "moved s obs \<or> refresh_due p s live now"
      using spec ph by (auto simp: resume_spec_def sources_lost_def off_resumes_def split: if_splits)
    note D = Decide_suspended_phase[OF ph nb 3 k]
    show ?thesis
      using assms mr unfolding D by (cases "moved s obs") (auto simp: decide_suspended_resume_next)
  qed
qed

text \<open>
  The effect of a resume. Memory says active with both clocks at now, so the job gets a
  full min-awake, and a full idle window too unless the wake only refreshes the group's
  offsets; only then is the refresh flag set.
\<close>

theorem Decide_resume_next:
  assumes "d_Action (Decide d p s live obs now) = Resume"
  shows "s_Phase (d_Next (Decide d p s live obs now)) = Active \<and>
     IsZero (s_SuspendedAt (d_Next (Decide d p s live obs now))) \<and>
     s_AwakeSince (d_Next (Decide d p s live obs now)) = now \<and>
     (if s_RefreshWake (d_Next (Decide d p s live obs now))
      then refresh_due p s live now \<and> \<not> moved s obs
      else s_LastActivityAt (d_Next (Decide d p s live obs now)) = now)"
  using assms by (rule Decide_resumed)

text \<open>
  The effect of a restart. The budget counts it: the count is positive and within the
  configured maximum, the next wait starts now, and the nonce memory records is the one the
  patch will carry, the current time in milliseconds; the job gets a fresh min-awake.
\<close>

theorem Decide_restart_next:
  assumes "d_Action (Decide d p s live obs now) = Restart" and "0 \<le> b_Count (s_Restarts s)"
  shows "1 \<le> b_Count (s_Restarts (d_Next (Decide d p s live obs now))) \<and>
     b_Count (s_Restarts (d_Next (Decide d p s live obs now))) \<le> rp_MaxRestarts (dc_restart d) \<and>
     b_LastNonce (s_Restarts (d_Next (Decide d p s live obs now))) = UnixMilli now \<and>
     s_AwakeSince (d_Next (Decide d p s live obs now)) = now \<and>
     s_Phase (d_Next (Decide d p s live obs now)) \<notin> {Suspended, Unrecoverable}"
proof -
  let ?c = "observe_snapshot (clear_unrecoverable s live now) obs now"
  let ?n = "noted d live now ?c" and ?rp = "dc_restart d"
  have a: "\<not> operatorBusy live" "ob_Known obs" "awake s live"
    "d_Action (decide_active d p ?c live obs now) = Restart"
    using assms(1) Decide_active_only[of Restart d p s live obs now] by auto
  then have "Decide d p s live obs now = decide_active d p ?c live obs now"
    by (auto simp: Decide_unfold off_resumes_def sources_lost_def decide_phase_def Let_def
          clear_unrecoverable_fields)
  moreover have due: "restart_due d p ?c live now" and al: "Allows (s_Restarts ?n) now (rp_MaxRestarts ?rp) (rp_Window ?rp)"
    using a(4) by (simp_all add: decide_active_restart)
  moreover have "decide_active d p ?c live obs now = decide_failing d live ?n now"
    using due by (auto simp: restart_due_def decide_active_unfold Let_def)
  moreover have "0 \<le> b_Count (s_Restarts ?n)"
    using assms(2) Consume_count_nonneg
    by (auto simp: noted_Restarts clear_unrecoverable_def zero_budget_def)
  then have "0 \<le> b_Count (rolled (s_Restarts ?n) now (rp_Window ?rp))"
    by (simp add: rolled_def zero_budget_def)
  moreover have "b_Count (rolled (s_Restarts ?n) now (rp_Window ?rp)) < rp_MaxRestarts ?rp"
    using al by (rule Allows_count)
  moreover have "s_Phase ?n \<notin> {Suspended, Unrecoverable}"
    using a(3) by (auto simp: clear_unrecoverable_fields)
  ultimately show ?thesis
    by (auto simp: decide_failing_def Let_def Allows_def Consume_count)
qed

end
