(* ===== verification/Scenario.thy ===== *)
theory Scenario
  imports DecideMemory
begin

text \<open>
  The decider as \<open>src/cmd/main.go\<close> builds it from the flags' defaults, and small concrete
  deployments at which the properties of a decision are exercised.
\<close>

section \<open>The decider of the binary\<close>

definition default_unrecoverable :: string where
  "default_unrecoverable = ''UnknownTopicOrPartition,does not exist,ImagePullBackOff,ErrImagePull''"

definition main_restart_policy :: RestartPolicy where
  "main_restart_policy =
     \<lparr>rp_MaxRestarts = 3, rp_Window = 30 * Minute, rp_BaseBackoff = Minute, rp_Multiplier = 2,
      rp_FailingAfter = 10 * Minute, rp_Unrecoverable = Split CHR '','' default_unrecoverable\<rparr>"

definition main_decider :: Decider where
  "main_decider = \<lparr>dc_restart = main_restart_policy, dc_Quiet = Minute\<rparr>"

section \<open>Concrete deployments\<close>

text \<open>Some tick's time, in the year 2026.\<close>

definition t0 :: time where "t0 = 63900000000 * Second"

definition orders_policy :: Policy where
  "orders_policy =
     zero_policy\<lparr>p_Mode := ModeAuto, p_Restart := True, p_Sources := [''orders''],
       p_IdleAfter := 2 * Hour, p_MinAwake := Hour, p_MaxSleep := 144 * Hour\<rparr>"

definition stable_live :: Live where
  "stable_live =
     \<lparr>l_SpecJobState = ''running'', l_UpgradeMode = ''savepoint'', l_SavepointPath = '''',
      l_OperatorRestarts = False, l_Generation = 1, l_RestartNonce = 0, l_JobID = ''a1'',
      l_JobState = ''RUNNING'', l_LifecycleState = ''STABLE'', l_ReconcileError = ''''\<rparr>"

definition asleep_live :: Live where
  "asleep_live = stable_live\<lparr>l_SpecJobState := ''suspended'', l_JobState := ''FINISHED'',
     l_LifecycleState := ''SUSPENDED'', l_SavepointPath := ''s3://sp/1''\<rparr>"

definition failed_live :: Live where
  "failed_live = stable_live\<lparr>l_JobState := ''FAILED''\<rparr>"

definition orders_seen :: "string \<Rightarrow> Observation" where
  "orders_seen ends = zero_observation\<lparr>ob_Known := True, ob_Snapshot := [(''orders'', ends)]\<rparr>"

definition idle_state :: State where
  "idle_state = (Initial (t0 - 3 * Hour))\<lparr>s_Snapshot := [(''orders'', ''8812,8790'')], s_Generation := 1\<rparr>"

definition asleep_state :: State where
  "asleep_state = idle_state\<lparr>s_Phase := Suspended, s_SuspendedAt := t0 - Hour\<rparr>"

lemmas scenario_defs =
  main_decider_def main_restart_policy_def orders_policy_def stable_live_def asleep_live_def
  failed_live_def orders_seen_def idle_state_def asleep_state_def t0_def zero_policy_def
  zero_observation_def Initial_def zero_state_def zero_budget_def

section \<open>The properties at these deployments\<close>

theorem Decide_suspend_iff_witness:
  "suspend_spec main_decider orders_policy idle_state stable_live (orders_seen ''8812,8790'') t0 \<and>
   d_Action (Decide main_decider orders_policy idle_state stable_live (orders_seen ''8812,8790'') t0) = Suspend"
proof -
  have "suspend_spec main_decider orders_policy idle_state stable_live (orders_seen ''8812,8790'') t0"
    by code_simp
  moreover have "0 \<le> p_IdleAfter orders_policy" "0 \<le> p_MinAwake orders_policy"
    by (simp_all add: orders_policy_def)
  ultimately show ?thesis using Decide_suspend_iff by blast
qed


theorem Decide_keeps_memory_ok_witness:
  "state_ok idle_state t0 \<and>
   state_ok (d_Next (Decide main_decider orders_policy idle_state stable_live (orders_seen ''8812,8790'') t0)) t0"
proof -
  have "state_ok idle_state t0" "(0::int) < t0" by code_simp+
  then show ?thesis using Decide_keeps_memory_ok by blast
qed

theorem Decide_mark_iff_witness:
  "d_Action (Decide main_decider orders_policy idle_state
     (failed_live\<lparr>l_ReconcileError := ''back-off pulling image: ImagePullBackOff''\<rparr>)
     (orders_seen ''8812,8790'') t0) = MarkUnrecoverable"
  unfolding Decide_mark_iff by code_simp

end
