(* ===== verification/Ticks.thy ===== *)
theory Ticks
  imports Scenario
begin

text \<open>
  Sequences of ticks: the decider run over what successive ticks see, each on the memory the
  one before left. Here live the properties that span ticks: a woken job keeps its windows,
  and no input that arrives while a job sleeps is lost.
\<close>

section \<open>Ticks\<close>

record Tick =
  tk_live :: Live
  tk_obs :: Observation
  tk_now :: time

definition tick_decision :: "Decider \<Rightarrow> Policy \<Rightarrow> State \<Rightarrow> Tick \<Rightarrow> Decision" where
  "tick_decision d p s t = Decide d p s (tk_live t) (tk_obs t) (tk_now t)"

primrec decisions :: "Decider \<Rightarrow> Policy \<Rightarrow> State \<Rightarrow> Tick list \<Rightarrow> Decision list" where
  "decisions d p s [] = []"
| "decisions d p s (t # ts) =
     (let r = tick_decision d p s t in r # decisions d p (d_Next r) ts)"

definition memory_after :: "Decider \<Rightarrow> Policy \<Rightarrow> State \<Rightarrow> Tick list \<Rightarrow> State" where
  "memory_after d p s ts = foldl (\<lambda>m t. d_Next (tick_decision d p m t)) s ts"

lemma memory_after_simps [simp]:
  "memory_after d p s [] = s"
  "memory_after d p s (t # ts) = memory_after d p (d_Next (tick_decision d p s t)) ts"
  by (simp_all add: memory_after_def)

section \<open>A woken job keeps its windows\<close>

text \<open>An awake job whose clocks are no older than the two given times.\<close>

definition awake_since :: "time \<Rightarrow> State \<Rightarrow> bool" where
  "awake_since a s \<longleftrightarrow> s_Phase s \<noteq> Suspended \<and> a \<le> s_AwakeSince s"

definition active_since :: "time \<Rightarrow> State \<Rightarrow> bool" where
  "active_since a s \<longleftrightarrow> s_Phase s \<noteq> Suspended \<and> \<not> s_RefreshWake s \<and> a \<le> s_LastActivityAt s"

lemma decide_failing_next:
  "s_LastActivityAt (d_Next (decide_failing d live s now)) = s_LastActivityAt s"
  "s_RefreshWake (d_Next (decide_failing d live s now)) = s_RefreshWake s"
  "s_Phase (d_Next (decide_failing d live s now)) \<in> {s_Phase s, Unrecoverable}"
  "s_AwakeSince (d_Next (decide_failing d live s now)) \<in> {s_AwakeSince s, now}"
  by (simp_all add: decide_failing_def Let_def)

lemma decide_idle_next:
  assumes "d_Action (decide_idle d p s live obs now ra) \<noteq> Suspend"
  shows "s_LastActivityAt (d_Next (decide_idle d p s live obs now ra)) = s_LastActivityAt s"
    "s_RefreshWake (d_Next (decide_idle d p s live obs now ra)) = s_RefreshWake s"
    "s_Phase (d_Next (decide_idle d p s live obs now ra)) = s_Phase s"
    "s_AwakeSince (d_Next (decide_idle d p s live obs now ra)) = s_AwakeSince s"
  using assms
  by (auto simp: decide_idle_def decide_job_gate_def Let_def suspend_now_def split: if_splits prod.splits JobGate.splits)

lemma decide_active_next:
  assumes "d_Action (decide_active d p s live obs now) \<noteq> Suspend"
  shows "s_LastActivityAt (d_Next (decide_active d p s live obs now)) = s_LastActivityAt s"
    "s_RefreshWake (d_Next (decide_active d p s live obs now)) = s_RefreshWake s"
    "s_Phase (d_Next (decide_active d p s live obs now)) \<in> {s_Phase s, Unrecoverable}"
    "s_AwakeSince (d_Next (decide_active d p s live obs now)) \<in> {s_AwakeSince s, now}"
proof -
  let ?n = "noted d live now s"
  have f: "s_Phase (d_Next (decide_failing d live ?n now)) \<in> {s_Phase s, Unrecoverable}"
    "s_AwakeSince (d_Next (decide_failing d live ?n now)) \<in> {s_AwakeSince s, now}"
    using decide_failing_next(3,4)[of d live ?n now] by (auto simp: noted_AwakeSince)
  show "s_LastActivityAt (d_Next (decide_active d p s live obs now)) = s_LastActivityAt s"
    "s_RefreshWake (d_Next (decide_active d p s live obs now)) = s_RefreshWake s"
    "s_Phase (d_Next (decide_active d p s live obs now)) \<in> {s_Phase s, Unrecoverable}"
    "s_AwakeSince (d_Next (decide_active d p s live obs now)) \<in> {s_AwakeSince s, now}"
    using assms f
    by (cases "l_SpecJobState live = ''suspended''",
        simp add: decide_active_def,
        auto simp: decide_active_unfold Let_def decide_failing_next(1,2) decide_idle_next noted_AwakeSince split: if_splits)+
qed

text \<open>What one tick may do to the clocks of an awake job it does not suspend.\<close>

definition clocks_kept :: "State \<Rightarrow> time \<Rightarrow> State \<Rightarrow> bool" where
  "clocks_kept s now s' \<longleftrightarrow>
     s_Phase s' \<noteq> Suspended \<and> (s_RefreshWake s' \<longrightarrow> s_RefreshWake s) \<and>
     s_LastActivityAt s' \<in> {s_LastActivityAt s, now} \<and> s_AwakeSince s' \<in> {s_AwakeSince s, now}"

lemma Decide_awake_unfold:
  assumes "s_Phase s \<noteq> Suspended"
  shows "Decide d p s live obs now =
     (if operatorBusy live then decision ActNone s (reasonOperatorBusy (l_LifecycleState live))
      else if \<not> ob_Known obs
      then (if ob_Why obs \<noteq> [] then decision ActNone ((clear_unrecoverable s live now)\<lparr>s_Reason := ob_Why obs\<rparr>) (ob_Why obs)
            else decision ActNone (clear_unrecoverable s live now) ReasonOffsetsUnknown)
      else if s_Phase (clear_unrecoverable s live now) = Unrecoverable
      then decide_unrecoverable (clear_unrecoverable s live now)
             (observe_snapshot (clear_unrecoverable s live now) obs now)
      else decide_active d p (observe_snapshot (clear_unrecoverable s live now) obs now) live obs now)"
  using assms
  by (simp add: Decide_unfold off_resumes_def sources_lost_def decide_phase_def Let_def clear_unrecoverable_fields)

lemma clocks_kept_observed:
  assumes "s_Phase s \<noteq> Suspended"
  shows "clocks_kept s now (clear_unrecoverable s live now)"
    "clocks_kept s now (observe_snapshot (clear_unrecoverable s live now) obs now)"
  using assms by (simp_all add: clocks_kept_def clear_unrecoverable_fields observe_snapshot_moved)

lemma clocks_kept_reason [simp]: "clocks_kept s now (s'\<lparr>s_Reason := r\<rparr>) = clocks_kept s now s'"
  by (simp add: clocks_kept_def)

lemma Decide_awake_next:
  assumes "s_Phase s \<noteq> Suspended" and "d_Action (Decide d p s live obs now) \<noteq> Suspend"
  shows "clocks_kept s now (d_Next (Decide d p s live obs now))"
proof -
  let ?c = "clear_unrecoverable s live now" let ?o = "observe_snapshot ?c obs now"
  have o: "clocks_kept s now ?o" using assms(1) by (rule clocks_kept_observed)
  have "clocks_kept s now (d_Next (decide_active d p ?o live obs now))"
    if "d_Action (decide_active d p ?o live obs now) \<noteq> Suspend"
    using decide_active_next[OF that] o unfolding clocks_kept_def by auto
  then show ?thesis
    using assms clocks_kept_observed[OF assms(1)]
    by (auto simp: Decide_awake_unfold[OF assms(1)] decide_unrecoverable_def Let_def clocks_kept_def[of s now s]
          split: if_splits)
qed

lemma min_awake_blocks:
  assumes "awake_since a s" and "now \<le> a + p_MinAwake p" and "0 \<le> p_MinAwake p" and "0 \<le> p_IdleAfter p"
  shows "d_Action (Decide d p s live obs now) \<noteq> Suspend"
  using assms Decide_suspends[of p d s live obs now]
  by (auto simp: awake_since_def suspend_spec_def)

lemma idle_window_blocks:
  assumes "active_since a s" and "now \<le> a + p_IdleAfter p" and "0 \<le> p_MinAwake p" and "0 \<le> p_IdleAfter p"
  shows "d_Action (Decide d p s live obs now) \<noteq> Suspend"
  using assms Decide_suspends[of p d s live obs now]
  by (auto simp: active_since_def suspend_spec_def)

lemma awake_window:
  assumes "awake_since a s" and "0 \<le> p_MinAwake p" and "0 \<le> p_IdleAfter p"
    and "\<forall>t \<in> set ts. a \<le> tk_now t \<and> tk_now t \<le> a + p_MinAwake p"
  shows "Suspend \<notin> d_Action ` set (decisions d p s ts)"
  using assms
proof (induction ts arbitrary: s)
  case (Cons t ts)
  have n: "d_Action (tick_decision d p s t) \<noteq> Suspend"
    using Cons.prems min_awake_blocks unfolding tick_decision_def by simp
  then have "clocks_kept s (tk_now t) (d_Next (tick_decision d p s t))"
    using Cons.prems(1) Decide_awake_next unfolding tick_decision_def awake_since_def by blast
  with Cons.prems have "awake_since a (d_Next (tick_decision d p s t))"
    by (auto simp: clocks_kept_def awake_since_def)
  with n Cons show ?case by (auto simp: Let_def)
qed simp

lemma idle_window:
  assumes "active_since a s" and "0 \<le> p_MinAwake p" and "0 \<le> p_IdleAfter p"
    and "\<forall>t \<in> set ts. a \<le> tk_now t \<and> tk_now t \<le> a + p_IdleAfter p"
  shows "Suspend \<notin> d_Action ` set (decisions d p s ts)"
  using assms
proof (induction ts arbitrary: s)
  case (Cons t ts)
  have n: "d_Action (tick_decision d p s t) \<noteq> Suspend"
    using Cons.prems idle_window_blocks unfolding tick_decision_def by simp
  then have "clocks_kept s (tk_now t) (d_Next (tick_decision d p s t))"
    using Cons.prems(1) Decide_awake_next unfolding tick_decision_def active_since_def by blast
  with Cons.prems have "active_since a (d_Next (tick_decision d p s t))"
    by (auto simp: clocks_kept_def active_since_def)
  with n Cons show ?case by (auto simp: Let_def)
qed simp

text \<open>
  C17. A woken job keeps its windows. After a resume, no sequence of ticks that ends within
  min-awake suspends the job again, and unless it was woken only to refresh its group's
  offsets, none that ends within idle-after does, whatever the ticks see: a failure, a
  restart, an outage, a human's edit.
\<close>

theorem resumed_job_keeps_its_windows:
  assumes "d_Action (Decide d p s live obs now) = Resume"
    and "0 \<le> p_MinAwake p" and "0 \<le> p_IdleAfter p"
    and "\<forall>t \<in> set ts. now \<le> tk_now t \<and> tk_now t \<le> now + w"
    and "w = p_MinAwake p \<or> w = p_IdleAfter p \<and> \<not> s_RefreshWake (d_Next (Decide d p s live obs now))"
  shows "Suspend \<notin> d_Action ` set (decisions d p (d_Next (Decide d p s live obs now)) ts)"
proof -
  note r = Decide_resumed[OF assms(1)]
  have a: "awake_since now (d_Next (Decide d p s live obs now))" using r by (simp add: awake_since_def)
  have "active_since now (d_Next (Decide d p s live obs now))"
    if "\<not> s_RefreshWake (d_Next (Decide d p s live obs now))"
    using r that by (simp add: active_since_def)
  with a assms show ?thesis using awake_window idle_window by blast
qed

definition woken_ticks :: "Tick list" where
  "woken_ticks =
     [\<lparr>tk_live = stable_live\<lparr>l_LifecycleState := ''DEPLOYED''\<rparr>, tk_obs = orders_seen ''8813,8790'', tk_now = t0 + Minute\<rparr>,
      \<lparr>tk_live = failed_live, tk_obs = orders_seen ''8813,8790'', tk_now = t0 + 30 * Minute\<rparr>,
      \<lparr>tk_live = stable_live, tk_obs = orders_seen ''8813,8790'', tk_now = t0 + 119 * Minute\<rparr>]"

theorem resumed_job_keeps_its_windows_witness:
  "Suspend \<notin> d_Action ` set (decisions main_decider orders_policy
     (d_Next (Decide main_decider orders_policy asleep_state asleep_live (orders_seen ''8813,8790'') t0)) woken_ticks)"
proof -
  let ?D = "Decide main_decider orders_policy asleep_state asleep_live (orders_seen ''8813,8790'') t0"
  have "d_Action ?D = Resume" "0 \<le> p_MinAwake orders_policy" "0 \<le> p_IdleAfter orders_policy"
    "\<not> s_RefreshWake (d_Next ?D)" by code_simp+
  moreover have "\<forall>t \<in> set woken_ticks. t0 \<le> tk_now t \<and> tk_now t \<le> t0 + p_IdleAfter orders_policy"
    by (simp add: woken_ticks_def orders_policy_def)
  ultimately show ?thesis by (intro resumed_job_keeps_its_windows) auto
qed

section \<open>No input is lost while a job sleeps\<close>

text \<open>While a job sleeps and is not woken, memory keeps the offsets it fell asleep at.\<close>

lemma asleep_tick:
  assumes "s_Phase s = Suspended" and "l_SpecJobState live = ''suspended''"
    and "d_Action (Decide d p s live obs now) \<noteq> Resume"
  shows "s_Phase (d_Next (Decide d p s live obs now)) = Suspended \<and>
     map_of (s_Snapshot (d_Next (Decide d p s live obs now))) = map_of (s_Snapshot s) \<and>
     s_SuspendedAt (d_Next (Decide d p s live obs now)) = s_SuspendedAt s"
proof -
  let ?g = "s\<lparr>s_Generation := l_Generation live\<rparr>"
  have c: "clear_unrecoverable s live now = ?g"
    using assms(1) by (intro clear_unrecoverable_id) simp
  have "s_Phase (d_Next D) = Suspended \<and> map_of (s_Snapshot (d_Next D)) = map_of (s_Snapshot s) \<and>
      s_SuspendedAt (d_Next D) = s_SuspendedAt s"
    if "D = decide_suspended p ?g (observe_snapshot ?g obs now) live obs now (moved s obs)" "d_Action D \<noteq> Resume" for D
    using that assms(1,2)
    by (auto simp: decide_suspended_def Let_def moved_def maps_equal_iff split: if_splits)
  moreover have "decide_phase d p ?g live obs now =
      decide_suspended p ?g (observe_snapshot ?g obs now) live obs now (moved s obs)"
    using assms(1) by (simp add: decide_phase_def Let_def moved_def)
  ultimately show ?thesis
    using assms by (auto simp: Decide_unfold c relearn_def split: if_splits)
qed

lemma asleep_ticks:
  assumes "s_Phase s = Suspended" and "\<forall>t \<in> set ts. l_SpecJobState (tk_live t) = ''suspended''"
    and "Resume \<notin> d_Action ` set (decisions d p s ts)"
  shows "s_Phase (memory_after d p s ts) = Suspended \<and>
     map_of (s_Snapshot (memory_after d p s ts)) = map_of (s_Snapshot s) \<and>
     s_SuspendedAt (memory_after d p s ts) = s_SuspendedAt s"
  using assms
proof (induction ts arbitrary: s)
  case (Cons t ts)
  then have "d_Action (tick_decision d p s t) \<noteq> Resume" by (simp add: Let_def) metis
  with Cons.prems have "s_Phase (d_Next (tick_decision d p s t)) = Suspended"
    "map_of (s_Snapshot (d_Next (tick_decision d p s t))) = map_of (s_Snapshot s)"
    "s_SuspendedAt (d_Next (tick_decision d p s t)) = s_SuspendedAt s"
    unfolding tick_decision_def using asleep_tick by auto
  with Cons show ?case by (simp add: Let_def)
qed simp

text \<open>
  C16. No input is lost while a job sleeps. However many ticks pass without waking it, while
  the operator is still suspending, while the broker or the group cannot be read, while a
  resume is held, the first tick that finds the operator done and the end offsets different
  from those the job fell asleep at wakes it (a job resuming from group offsets: once its
  group is known to be whole). Input that arrived during any of those ticks counts.
\<close>

theorem input_while_asleep_wakes:
  assumes "s_Phase s = Suspended" and "\<forall>t \<in> set ts. l_SpecJobState (tk_live t) = ''suspended''"
    and "Resume \<notin> d_Action ` set (decisions d p s ts)"
    and "l_SpecJobState live = ''suspended''" and "live_suspended live"
    and "ob_Known obs" and "\<not> ob_Unlearned obs" and "map_of (ob_Snapshot obs) \<noteq> map_of (s_Snapshot s)"
    and "ResumesFromGroup live p \<longrightarrow> ob_Uncommitted obs = [] \<and> ob_LagKnown obs"
  shows "d_Action (Decide d p (memory_after d p s ts) live obs now) = Resume"
proof -
  note m = asleep_ticks[OF assms(1-3)]
  then have "moved (memory_after d p s ts) obs" using assms(8) by (simp add: moved_def maps_equal_iff)
  with m assms(4-9) show ?thesis by (simp add: Decide_resumes resume_spec_def)
qed

text \<open>Input arrives while the operator still suspends; the broker is then away for a tick.\<close>

definition asleep_ticks_ex :: "Tick list" where
  "asleep_ticks_ex =
     [\<lparr>tk_live = asleep_live\<lparr>l_LifecycleState := ''STABLE''\<rparr>, tk_obs = orders_seen ''8813,8790'', tk_now = t0 + Minute\<rparr>,
      \<lparr>tk_live = asleep_live, tk_obs = zero_observation, tk_now = t0 + 2 * Minute\<rparr>]"

theorem input_while_asleep_wakes_witness:
  "d_Action (Decide main_decider orders_policy
     (memory_after main_decider orders_policy asleep_state asleep_ticks_ex)
     asleep_live (orders_seen ''8813,8790'') (t0 + 3 * Minute)) = Resume"
proof (rule input_while_asleep_wakes)
  show "Resume \<notin> d_Action ` set (decisions main_decider orders_policy asleep_state asleep_ticks_ex)"
    by code_simp
  show "map_of (ob_Snapshot (orders_seen ''8813,8790'')) \<noteq> map_of (s_Snapshot asleep_state)"
    by (auto simp: orders_seen_def asleep_state_def idle_state_def dest: fun_cong[of _ _ "''orders''"])
qed (simp_all add: asleep_ticks_ex_def asleep_state_def asleep_live_def orders_seen_def orders_policy_def
      zero_policy_def live_suspended_def ResumesFromGroup_def zero_observation_def)

end
