(* ===== verification/Probe.thy ===== *)
theory Probe
  imports GoLib
begin

text \<open>
  The Kafka probe (\<open>src/internal/probe/probe.go\<close> and \<open>kafka.go\<close>): the end offsets of the
  sources as text and as numbers, and the lag of a consumer group against them. The admin
  client is not part of the repository: what its calls return is a parameter.
\<close>

section \<open>Errors\<close>

text \<open>
  A Go error: its text, and what \<open>errors.Is\<close> and the API machinery's predicates find in its
  chain. Wrapping with \<open>%w\<close> keeps the latter.
\<close>

record goerr =
  e_Msg :: string
  e_NoCommit :: bool
  e_NotFound :: bool
  e_Conflict :: bool

definition new_error :: "string \<Rightarrow> goerr" where
  "new_error msg = \<lparr>e_Msg = msg, e_NoCommit = False, e_NotFound = False, e_Conflict = False\<rparr>"

definition wrap_error :: "string \<Rightarrow> goerr \<Rightarrow> goerr" where
  "wrap_error msg e = e\<lparr>e_Msg := msg @ '': '' @ e_Msg e\<rparr>"

lemma wrap_error_sel [simp]:
  "e_NoCommit (wrap_error m e) = e_NoCommit e" "e_NotFound (wrap_error m e) = e_NotFound e"
  "e_Conflict (wrap_error m e) = e_Conflict e"
  by (simp_all add: wrap_error_def)

lemma new_error_sel [simp]:
  "\<not> e_NoCommit (new_error m)" "\<not> e_NotFound (new_error m)" "\<not> e_Conflict (new_error m)"
  by (simp_all add: new_error_def)

definition ErrNoCommit :: goerr where
  "ErrNoCommit = (new_error ''no committed offset'')\<lparr>e_NoCommit := True\<rparr>"

section \<open>Observations\<close>

record Offsets =
  of_Snapshot :: "(string, string) gomap"
  of_Ends :: "(string, int list) gomap"

text \<open>\<open>Ends\<close>: the typed offsets of a snapshot; a value that cannot be read is -1.\<close>

definition parse_offset :: "string \<Rightarrow> int" where
  "parse_offset raw = (case ParseInt raw of (n, ok) \<Rightarrow> if ok then n else -1)"

definition Ends :: "(string, string) gomap \<Rightarrow> (string, int list) gomap" where
  "Ends snapshot = map (\<lambda>(topic, joined). (topic, map parse_offset (Split CHR '','' joined))) snapshot"

section \<open>Reading the end offsets\<close>

text \<open>
  What the admin client reports: one listed offset per partition, in the order \<open>Each\<close> visits
  them, and the first error of the listing. Partition numbers are never negative in Kafka.
\<close>

record ListedOffset =
  lo_Topic :: string
  lo_Partition :: nat
  lo_Offset :: int

record ListedOffsets =
  ls_Error :: "goerr option"
  ls_Each :: "ListedOffset list"

text \<open>The callback of \<open>Each\<close>: grow the topic's slice with -1 up to the partition, then set it.\<close>

definition grow :: "int list \<Rightarrow> nat \<Rightarrow> int list" where
  "grow parts n = parts @ replicate (Suc n - length parts) (-1)"

definition put_listed :: "ListedOffset \<Rightarrow> (string, int list) gomap \<Rightarrow> (string, int list) gomap" where
  "put_listed o' perTopic =
     (let parts = (case map_of perTopic (lo_Topic o') of None \<Rightarrow> [] | Some ps \<Rightarrow> ps)
      in map_put (lo_Topic o') ((grow parts (lo_Partition o'))[lo_Partition o' := lo_Offset o']) perTopic)"

definition per_topic :: "ListedOffset list \<Rightarrow> (string, int list) gomap" where
  "per_topic os = fold put_listed os []"

text \<open>The builder loop: a comma before every offset but the first.\<close>

fun write_offsets :: "nat \<Rightarrow> int list \<Rightarrow> string" where
  "write_offsets i [] = []"
| "write_offsets i (off # parts) = (if 0 < i then '','' else []) @ FormatInt off @ write_offsets (Suc i) parts"

definition Observe ::
  "(string list \<Rightarrow> ListedOffsets \<times> goerr option) \<Rightarrow> string list \<Rightarrow> goerr + Offsets" where
  "Observe ListEndOffsets topics =
     (case ListEndOffsets topics of (ends, err) \<Rightarrow>
        let err' = (case err of None \<Rightarrow> ls_Error ends | Some e \<Rightarrow> Some e)
        in case err' of
             Some e \<Rightarrow> Inl (wrap_error (''end offsets for '' @ Join topics '','') e)
           | None \<Rightarrow>
             let perTopic = per_topic (ls_Each ends)
             in if perTopic = [] then Inl (new_error (''no partitions for '' @ Join topics '',''))
                else Inr \<lparr>of_Snapshot = map (\<lambda>(topic, parts). (topic, write_offsets 0 parts)) perTopic,
                          of_Ends = perTopic\<rparr>)"

section \<open>Lag\<close>

record OffsetResponse =
  or_At :: int
  or_Err :: "goerr option"

record OffsetResponses =
  fo_Error :: "goerr option"
  fo_Lookup :: "string \<Rightarrow> int \<Rightarrow> OffsetResponse option"

text \<open>One partition of the loop: the error it returns with, or the records it adds.\<close>

definition partition_lag :: "string \<Rightarrow> OffsetResponses \<Rightarrow> string \<Rightarrow> int \<Rightarrow> int \<Rightarrow> goerr + int" where
  "partition_lag grp committed topic p end' =
     (let c = fo_Lookup committed topic p
      in if end' < 0 then Inl (new_error (''no end offset for '' @ topic @ '' partition '' @ FormatInt p))
         else case c of
           None \<Rightarrow> Inl (ErrNoCommit\<lparr>e_Msg := ''group '' @ grp @ '' has no committed offset for '' @ topic @ '' partition '' @ FormatInt p\<rparr>)
         | Some r \<Rightarrow>
           (case or_Err r of
              Some e \<Rightarrow> Inl (wrap_error (''committed offset for group '' @ grp @ '', '' @ topic @ '' partition '' @ FormatInt p) e)
            | None \<Rightarrow>
              if or_At r < 0
              then Inl (ErrNoCommit\<lparr>e_Msg := ''group '' @ grp @ '' has no committed offset for '' @ topic @ '' partition '' @ FormatInt p\<rparr>)
              else Inr (max 0 (i64 (end' - or_At r)))))"

fun lag_partitions :: "string \<Rightarrow> OffsetResponses \<Rightarrow> string \<Rightarrow> int \<Rightarrow> int list \<Rightarrow> int \<Rightarrow> goerr + int" where
  "lag_partitions grp committed topic p [] pending = Inr pending"
| "lag_partitions grp committed topic p (e # es) pending =
     (case partition_lag grp committed topic p e of
        Inl err \<Rightarrow> Inl err
      | Inr d \<Rightarrow> lag_partitions grp committed topic (p + 1) es (i64 (pending + d)))"

fun lag_topics :: "string \<Rightarrow> OffsetResponses \<Rightarrow> (string, int list) gomap \<Rightarrow> string list \<Rightarrow> int \<Rightarrow> goerr + int" where
  "lag_topics grp committed ends [] pending = Inr pending"
| "lag_topics grp committed ends (topic # topics) pending =
     (case lag_partitions grp committed topic 0 (case map_of ends topic of None \<Rightarrow> [] | Some es \<Rightarrow> es) pending of
        Inl err \<Rightarrow> Inl err
      | Inr n \<Rightarrow> lag_topics grp committed ends topics n)"

definition Lag ::
  "(string \<Rightarrow> OffsetResponses \<times> goerr option) \<Rightarrow> string \<Rightarrow> (string, int list) gomap \<Rightarrow> goerr + int" where
  "Lag FetchOffsets grp ends =
     (case FetchOffsets grp of (committed, err) \<Rightarrow>
        let err' = (case err of None \<Rightarrow> fo_Error committed | Some e \<Rightarrow> Some e)
        in case err' of
             Some e \<Rightarrow> Inl (wrap_error (''committed offsets for group '' @ grp) e)
           | None \<Rightarrow>
             (let topics = sorted_keys ends
              in if topics = [] then Inl (new_error (''no end offsets to measure group '' @ grp @ '' against''))
                 else lag_topics grp committed ends topics 0))"

section \<open>Snapshots round trip\<close>

lemma write_offsets_Suc:
  "write_offsets (Suc i) ps = concat (map (\<lambda>o'. '','' @ FormatInt o') ps)"
  by (induction ps arbitrary: i) simp_all

lemma Split_write_offsets:
  "ps \<noteq> [] \<Longrightarrow> Split CHR '','' (write_offsets 0 ps) = map FormatInt ps"
proof (induction ps)
  case (Cons o' ps)
  show ?case
  proof (cases ps)
    case Nil
    then show ?thesis using FormatInt_no_comma by (simp add: Split_no_sep)
  next
    case (Cons o2 ps2)
    then have "write_offsets 0 (o' # ps) = FormatInt o' @ CHR '','' # write_offsets 0 ps"
      by (simp add: write_offsets_Suc)
    then show ?thesis using Cons.IH Cons FormatInt_no_comma by (simp add: Split_append)
  qed
qed simp

definition in_int64 :: "int \<Rightarrow> bool" where
  "in_int64 n \<longleftrightarrow> minInt64 \<le> n \<and> n \<le> maxInt64"

lemma parse_written:
  assumes "ps \<noteq> []" and "list_all in_int64 ps"
  shows "map parse_offset (Split CHR '','' (write_offsets 0 ps)) = ps"
  using assms by (auto simp: Split_write_offsets list_all_iff parse_offset_def in_int64_def ParseInt_FormatInt intro!: map_idI)

lemma map_of_map_snd: "map_of (map (\<lambda>(k, v). (k, f v)) m) k = map_option f (map_of m k)"
  by (induction m) auto

text \<open>The offset a typed observation holds for a partition, if it covers it.\<close>

definition end_at :: "(string, int list) gomap \<Rightarrow> string \<Rightarrow> nat \<Rightarrow> int option" where
  "end_at ends topic p =
     (case map_of ends topic of None \<Rightarrow> None | Some ps \<Rightarrow> if p < length ps then Some (ps ! p) else None)"

lemma length_grow: "length (grow ps n) = max (length ps) (Suc n)"
  by (simp add: grow_def)

lemma nth_grow: "i < length (grow ps n) \<Longrightarrow> grow ps n ! i = (if i < length ps then ps ! i else -1)"
  by (auto simp: grow_def nth_append)

lemma end_at_put:
  "end_at (put_listed o' m) t i =
     (if t = lo_Topic o' \<and> i = lo_Partition o' then Some (lo_Offset o')
      else if t = lo_Topic o' \<and> i < lo_Partition o' \<and> end_at m t i = None then Some (-1)
      else end_at m t i)"
  by (auto simp: end_at_def put_listed_def Let_def length_grow nth_grow nth_list_update split: option.split)

definition ends_ok :: "(string, int list) gomap \<Rightarrow> bool" where
  "ends_ok m \<longleftrightarrow> list_all (\<lambda>(t, ps). ps \<noteq> [] \<and> list_all in_int64 ps) m"

lemma ends_ok_lookup: "ends_ok m \<Longrightarrow> map_of m t = Some ps \<Longrightarrow> ps \<noteq> [] \<and> list_all in_int64 ps"
  by (auto simp: ends_ok_def list_all_iff dest!: map_of_SomeD)

lemma ends_ok_put:
  assumes "ends_ok m" and "in_int64 (lo_Offset o')"
  shows "ends_ok (put_listed o' m)"
proof -
  let ?ps = "case map_of m (lo_Topic o') of None \<Rightarrow> [] | Some ps \<Rightarrow> ps"
  have "list_all in_int64 ?ps"
    using assms(1) by (auto split: option.split dest: ends_ok_lookup)
  then have "list_all in_int64 (grow ?ps (lo_Partition o'))"
    by (auto simp: grow_def list_all_iff in_int64_def)
  with assms(2) have "list_all in_int64 ((grow ?ps (lo_Partition o'))[lo_Partition o' := lo_Offset o'])"
    by (auto simp: list_all_iff dest!: subsetD[OF set_update_subset_insert])
  moreover have "(grow ?ps (lo_Partition o'))[lo_Partition o' := lo_Offset o'] \<noteq> []"
    by (simp add: grow_def)
  ultimately show ?thesis
    using assms(1) by (auto simp: ends_ok_def put_listed_def Let_def map_put_def list_all_iff)
qed

lemma ends_ok_per_topic: "list_all (\<lambda>o'. in_int64 (lo_Offset o')) os \<Longrightarrow> ends_ok (per_topic os)"
proof (induction os rule: rev_induct)
  case (snoc o' os)
  then show ?case by (simp add: per_topic_def ends_ok_put)
qed (simp add: per_topic_def ends_ok_def)

lemma Observe_Inr:
  assumes "Observe f topics = Inr r"
  shows "of_Ends r = per_topic (ls_Each (fst (f topics)))"
    "of_Snapshot r = map (\<lambda>(topic, parts). (topic, write_offsets 0 parts)) (of_Ends r)"
    "of_Ends r \<noteq> []"
  using assms by (auto simp: Observe_def Let_def split: prod.splits option.splits if_splits)

text \<open>What the broker lists: offsets are \<open>int64\<close>, each partition listed once.\<close>

definition listing_ok :: "ListedOffset list \<Rightarrow> bool" where
  "listing_ok os \<longleftrightarrow>
     list_all (\<lambda>o'. in_int64 (lo_Offset o')) os \<and> distinct (map (\<lambda>o'. (lo_Topic o', lo_Partition o')) os)"

lemma snapshot_roundtrip:
  assumes "ends_ok m"
  shows "Ends (map (\<lambda>(topic, parts). (topic, write_offsets 0 parts)) m) = m"
  using assms by (auto simp: Ends_def ends_ok_def list_all_iff parse_written intro!: map_idI)

text \<open>
  The snapshot loses nothing. Reading the offsets back out of the text form the controller
  persists gives exactly the typed offsets the broker was read for.
\<close>

theorem Ends_of_snapshot:
  assumes "Observe f topics = Inr r" and "listing_ok (ls_Each (fst (f topics)))"
  shows "Ends (of_Snapshot r) = of_Ends r"
  using Observe_Inr[OF assms(1)] ends_ok_per_topic assms(2)
  by (simp add: snapshot_roundtrip listing_ok_def)

text \<open>
  A function that returns only the text, as a probe (\<open>Func\<close>). Over the text of the Kafka probe it
  is the Kafka probe.
\<close>

definition Func_Observe :: "(string list \<Rightarrow> goerr + (string, string) gomap) \<Rightarrow> string list \<Rightarrow> goerr + Offsets" where
  "Func_Observe f sources =
     (case f sources of
        Inl e \<Rightarrow> Inl e
      | Inr snap \<Rightarrow> Inr \<lparr>of_Snapshot = snap, of_Ends = Ends snap\<rparr>)"

lemma Func_Observe_Kafka:
  assumes "listing_ok (ls_Each (fst (f topics)))"
  shows "Func_Observe (\<lambda>ts. map_sum id of_Snapshot (Observe f ts)) topics = Observe f topics"
  using Ends_of_snapshot[where f = f and topics = topics, OF _ assms] by (cases "Observe f topics") (simp_all add: Func_Observe_def)

text \<open>
  Two observations have the same snapshot exactly if they agree on every end offset.
\<close>

lemma snapshot_equal_iff:
  assumes "ends_ok a" and "ends_ok b"
  shows "maps_equal (map (\<lambda>(topic, parts). (topic, write_offsets 0 parts)) a)
           (map (\<lambda>(topic, parts). (topic, write_offsets 0 parts)) b) \<longleftrightarrow> map_of a = map_of b"
    (is "?l = ?r")
proof
  assume ?l
  then have eq: "map_option (write_offsets 0) (map_of a k) = map_option (write_offsets 0) (map_of b k)" for k
    by (simp add: maps_equal_iff fun_eq_iff map_of_map_snd)
  have "map_of a k = map_of b k" for k
  proof -
    have "map_option (\<lambda>s. map parse_offset (Split CHR '','' s)) (map_option (write_offsets 0) (map_of c k)) = map_of c k"
      if "ends_ok c" for c
    proof (cases "map_of c k")
      case (Some ps)
      then show ?thesis using ends_ok_lookup[OF that] parse_written[of ps] by simp
    qed simp
    then show ?thesis using eq[of k] assms by metis
  qed
  then show ?r by (simp add: fun_eq_iff)
qed (simp add: maps_equal_iff fun_eq_iff map_of_map_snd)

definition listed_at :: "ListedOffset list \<Rightarrow> string \<Rightarrow> nat \<Rightarrow> int set" where
  "listed_at os t i = {lo_Offset o' | o'. o' \<in> set os \<and> lo_Topic o' = t \<and> lo_Partition o' = i}"

lemma listed_at_snoc:
  "listed_at (os @ [x]) t i =
     (if lo_Topic x = t \<and> lo_Partition x = i then insert (lo_Offset x) (listed_at os t i) else listed_at os t i)"
  by (auto simp: listed_at_def)

lemma listed_at_new:
  "distinct (map (\<lambda>o'. (lo_Topic o', lo_Partition o')) (os @ [x])) \<Longrightarrow> listed_at os (lo_Topic x) (lo_Partition x) = {}"
  by (auto simp: listed_at_def image_iff)

lemma end_at_per_topic:
  assumes "distinct (map (\<lambda>o'. (lo_Topic o', lo_Partition o')) os)"
  shows "end_at (per_topic os) t i =
     (if listed_at os t i \<noteq> {} then Some (the_elem (listed_at os t i))
      else if \<exists>o' \<in> set os. lo_Topic o' = t \<and> i < lo_Partition o' then Some (-1) else None) \<and>
     (listed_at os t i = {} \<or> (\<exists>v. listed_at os t i = {v}))"
  using assms
proof (induction os rule: rev_induct)
  case (snoc x os)
  have put: "per_topic (os @ [x]) = put_listed x (per_topic os)" by (simp add: per_topic_def)
  have "distinct (map (\<lambda>o'. (lo_Topic o', lo_Partition o')) os)" using snoc.prems by simp
  note IH = snoc.IH[OF this]
  show ?case
  proof (cases "lo_Topic x = t \<and> lo_Partition x = i")
    case True
    then have "listed_at os t i = {}" using listed_at_new[OF snoc.prems] by auto
    with True show ?thesis unfolding put end_at_put by (simp add: listed_at_snoc)
  next
    case False
    then show ?thesis using IH unfolding put end_at_put by (auto simp: listed_at_snoc split: if_splits)
  qed
qed (simp add: per_topic_def end_at_def listed_at_def)

lemma end_at_per_topic_Some:
  assumes "distinct (map (\<lambda>o'. (lo_Topic o', lo_Partition o')) os)"
  shows "end_at (per_topic os) t i = Some v \<longleftrightarrow>
     v \<in> listed_at os t i \<or>
     v = -1 \<and> listed_at os t i = {} \<and> (\<exists>o' \<in> set os. lo_Topic o' = t \<and> i < lo_Partition o')"
  using end_at_per_topic[OF assms, of t i] by (auto simp: the_elem_def split: if_splits)

lemma listed_at_mem:
  "v \<in> listed_at os t i \<longleftrightarrow> (\<exists>o' \<in> set os. lo_Topic o' = t \<and> lo_Partition o' = i \<and> lo_Offset o' = v)"
  by (auto simp: listed_at_def)

lemma listed_at_empty:
  "listed_at os t i = {} \<longleftrightarrow> (\<forall>o' \<in> set os. lo_Topic o' = t \<longrightarrow> lo_Partition o' \<noteq> i)"
  by (auto simp: listed_at_def)

text \<open>
  C32. The observation is the broker's answer. An observation covers a partition exactly if the
  broker listed it, with that offset, or listed a higher one of the same topic, with -1: no
  offset is dropped, moved to another partition or made up.
\<close>

theorem Observe_exact:
  assumes "Observe f topics = Inr r" and "listing_ok (ls_Each (fst (f topics)))"
  shows "end_at (of_Ends r) t i = Some v \<longleftrightarrow>
     (\<exists>o' \<in> set (ls_Each (fst (f topics))). lo_Topic o' = t \<and> lo_Partition o' = i \<and> lo_Offset o' = v) \<or>
     v = -1 \<and> (\<forall>o' \<in> set (ls_Each (fst (f topics))). lo_Topic o' = t \<longrightarrow> lo_Partition o' \<noteq> i) \<and>
     (\<exists>o' \<in> set (ls_Each (fst (f topics))). lo_Topic o' = t \<and> i < lo_Partition o')"
proof -
  have "distinct (map (\<lambda>o'. (lo_Topic o', lo_Partition o')) (ls_Each (fst (f topics))))"
    using assms(2) by (simp add: listing_ok_def)
  from end_at_per_topic_Some[OF this, of t i v] show ?thesis
    unfolding Observe_Inr(1)[OF assms(1)] listed_at_mem listed_at_empty by simp
qed

definition orders_listing :: "string list \<Rightarrow> ListedOffsets \<times> goerr option" where
  "orders_listing topics =
     (\<lparr>ls_Error = None,
       ls_Each = [\<lparr>lo_Topic = ''orders'', lo_Partition = 2, lo_Offset = 9001\<rparr>,
                  \<lparr>lo_Topic = ''orders'', lo_Partition = 0, lo_Offset = 8812\<rparr>]\<rparr>, None)"

definition orders_offsets :: Offsets where
  "orders_offsets = \<lparr>of_Snapshot = [(''orders'', ''8812,-1,9001'')], of_Ends = [(''orders'', [8812, -1, 9001])]\<rparr>"

theorem Observe_exact_witness:
  "end_at (of_Ends orders_offsets) ''orders'' 2 = Some 9001 \<and> end_at (of_Ends orders_offsets) ''orders'' 1 = Some (-1)"
proof -
  have "Observe orders_listing [''orders''] = Inr orders_offsets"
    and "listing_ok (ls_Each (fst (orders_listing [''orders''])))" by code_simp+
  note iff = Observe_exact[OF this]
  show ?thesis unfolding iff by (simp add: orders_listing_def)
qed

section \<open>Lag, exactly\<close>

text \<open>The partitions to measure, with their end offsets, in the order of the code.\<close>

fun cells :: "string \<Rightarrow> int \<Rightarrow> int list \<Rightarrow> (string \<times> int \<times> int) list" where
  "cells topic p [] = []"
| "cells topic p (e # es) = (topic, p, e) # cells topic (p + 1) es"

definition all_cells :: "(string, int list) gomap \<Rightarrow> string list \<Rightarrow> (string \<times> int \<times> int) list" where
  "all_cells ends topics = concat (map (\<lambda>t. cells t 0 (case map_of ends t of None \<Rightarrow> [] | Some es \<Rightarrow> es)) topics)"

definition committed_at :: "OffsetResponses \<Rightarrow> string \<Rightarrow> int \<Rightarrow> int option" where
  "committed_at committed t p =
     (case fo_Lookup committed t p of
        None \<Rightarrow> None
      | Some r \<Rightarrow> if or_Err r = None \<and> 0 \<le> or_At r then Some (or_At r) else None)"

text \<open>
  The reference: the number of records between the committed and the end offset of every
  partition, if each has both.
\<close>

definition lag_ref :: "OffsetResponses \<Rightarrow> (string \<times> int \<times> int) list \<Rightarrow> int option" where
  "lag_ref committed cs =
     (if list_all (\<lambda>(t, p, e). 0 \<le> e \<and> committed_at committed t p \<noteq> None) cs
      then Some (sum_list (map (\<lambda>(t, p, e). max 0 (e - the (committed_at committed t p))) cs))
      else None)"

definition commits_ok :: "OffsetResponses \<Rightarrow> bool" where
  "commits_ok committed \<longleftrightarrow> (\<forall>t p r. fo_Lookup committed t p = Some r \<longrightarrow> or_At r \<le> maxInt64)"

definition cells_sum :: "(string \<times> int \<times> int) list \<Rightarrow> int" where
  "cells_sum cs = sum_list (map (\<lambda>(t, p, e). max 0 e) cs)"

lemma cells_sum_simps [simp]:
  "cells_sum [] = 0" "cells_sum ((t, p, e) # cs) = max 0 e + cells_sum cs"
  "cells_sum (as @ bs) = cells_sum as + cells_sum bs"
  by (simp_all add: cells_sum_def)

lemma cells_sum_nonneg [simp]: "0 \<le> cells_sum cs"
  unfolding cells_sum_def by (intro sum_list_nonneg) auto

lemma lag_ref_Nil [simp]: "lag_ref c [] = Some 0"
  by (simp add: lag_ref_def)

lemma lag_ref_append:
  "lag_ref c (as @ bs) =
     (case (lag_ref c as, lag_ref c bs) of (Some a, Some b) \<Rightarrow> Some (a + b) | _ \<Rightarrow> None)"
  by (auto simp: lag_ref_def)

lemma lag_ref_le: "lag_ref c cs = Some n \<Longrightarrow> 0 \<le> n \<and> n \<le> cells_sum cs"
proof (induction cs arbitrary: n)
  case (Cons x cs)
  obtain t p e where x: "x = (t, p, e)" by (rule prod_cases3)
  have "lag_ref c ([x] @ cs) = Some n" using Cons.prems by simp
  then obtain a b where ab: "lag_ref c [x] = Some a" "lag_ref c cs = Some b" "n = a + b"
    unfolding lag_ref_append by (auto split: option.splits)
  then have "0 \<le> a \<and> a \<le> max 0 e"
    using x by (auto simp: lag_ref_def committed_at_def split: if_splits option.splits)
  with ab Cons.IH x show ?case by fastforce
qed simp

lemma partition_lag_ref:
  assumes "commits_ok c" and "e \<le> maxInt64"
  shows "partition_lag g c t p e = Inr n \<longleftrightarrow> lag_ref c [(t, p, e)] = Some n"
proof -
  have "i64 (e - or_At r) = e - or_At r" if "fo_Lookup c t p = Some r" "0 \<le> e" "0 \<le> or_At r" for r
  proof -
    have "or_At r \<le> maxInt64" using assms(1) that(1) by (auto simp: commits_ok_def)
    with that assms(2) show ?thesis by (intro i64_id) linarith+
  qed
  then show ?thesis
    by (auto simp: partition_lag_def lag_ref_def committed_at_def Let_def split: option.splits)
qed

lemma lag_partitions_ref:
  assumes "commits_ok c" and "0 \<le> acc" and "acc + cells_sum (cells t p es) \<le> maxInt64"
  shows "lag_partitions g c t p es acc = Inr n \<longleftrightarrow> lag_ref c (cells t p es) = Some (n - acc)"
  using assms
proof (induction es arbitrary: p acc)
  case (Cons e es)
  have sum: "acc + (max 0 e + cells_sum (cells t (p + 1) es)) \<le> maxInt64" using Cons.prems(3) by simp
  then have e: "e \<le> maxInt64" using Cons.prems(2) cells_sum_nonneg[of "cells t (p + 1) es"] by linarith
  note one = partition_lag_ref[OF Cons.prems(1) e, of g t p]
  have split: "lag_ref c (cells t p (e # es)) =
      (case (lag_ref c [(t, p, e)], lag_ref c (cells t (p + 1) es)) of
         (Some a, Some b) \<Rightarrow> Some (a + b) | _ \<Rightarrow> None)"
    using lag_ref_append[of c "[(t, p, e)]" "cells t (p + 1) es"] by simp
  show ?case
  proof (cases "partition_lag g c t p e")
    case (Inl r)
    then have "lag_ref c [(t, p, e)] = None" using one by (cases "lag_ref c [(t, p, e)]") auto
    with Inl split show ?thesis by simp
  next
    case (Inr a)
    then have a: "lag_ref c [(t, p, e)] = Some a" using one by simp
    from lag_ref_le[OF this] have r: "0 \<le> a" "a \<le> max 0 e" by simp_all
    then have b: "acc + a + cells_sum (cells t (p + 1) es) \<le> maxInt64" using sum by linarith
    then have "i64 (acc + a) = acc + a"
      using r Cons.prems(2) cells_sum_nonneg[of "cells t (p + 1) es"] by (intro i64_id) linarith+
    moreover have "lag_partitions g c t (p + 1) es (acc + a) = Inr n \<longleftrightarrow>
        lag_ref c (cells t (p + 1) es) = Some (n - (acc + a))"
      using Cons.IH[of "acc + a" "p + 1"] Cons.prems(1,2) r b by simp
    ultimately show ?thesis using Inr a unfolding split by (auto split: option.splits)
  qed
qed auto

lemma lag_topics_ref:
  assumes "commits_ok c" and "0 \<le> acc" and "acc + cells_sum (all_cells ends topics) \<le> maxInt64"
  shows "lag_topics g c ends topics acc = Inr n \<longleftrightarrow> lag_ref c (all_cells ends topics) = Some (n - acc)"
  using assms
proof (induction topics arbitrary: acc)
  case (Cons t topics)
  let ?es = "case map_of ends t of None \<Rightarrow> [] | Some es \<Rightarrow> es" and ?rest = "all_cells ends topics"
  have all: "all_cells ends (t # topics) = cells t 0 ?es @ ?rest" by (simp add: all_cells_def)
  then have sum: "acc + cells_sum (cells t 0 ?es) + cells_sum ?rest \<le> maxInt64" using Cons.prems(3) by simp
  then have "acc + cells_sum (cells t 0 ?es) \<le> maxInt64" using cells_sum_nonneg[of ?rest] by linarith
  note part = lag_partitions_ref[OF Cons.prems(1,2) this, of g]
  show ?case
  proof (cases "lag_partitions g c t 0 ?es acc")
    case (Inl r)
    then have "lag_ref c (cells t 0 ?es) \<noteq> Some (m - acc)" for m using part[of m] by simp
    then have "lag_ref c (cells t 0 ?es) = None"
      by (cases "lag_ref c (cells t 0 ?es)") (auto, metis add_diff_cancel_left')
    with Inl show ?thesis unfolding all lag_ref_append by simp
  next
    case (Inr m)
    then have m: "lag_ref c (cells t 0 ?es) = Some (m - acc)" using part by simp
    from lag_ref_le[OF this] have r: "0 \<le> m - acc" "m - acc \<le> cells_sum (cells t 0 ?es)" by simp_all
    then have "lag_topics g c ends topics m = Inr n \<longleftrightarrow> lag_ref c ?rest = Some (n - m)"
      using Cons.IH[of m] Cons.prems(1,2) sum by simp
    then show ?thesis using Inr m unfolding all lag_ref_append by (auto split: option.splits)
  qed
qed (auto simp: all_cells_def)

text \<open>
  C31. The lag is exact. When the group's commits could be fetched and the offsets of all
  partitions together fit an \<open>int64\<close>, the lag is a number exactly if every partition has
  an end offset and a commit, and then it is the sum of end minus commit: never zero for a
  group that is behind anywhere, never a number where one commit is missing.
\<close>

theorem Lag_exact:
  assumes "FetchOffsets grp = (committed, None)" and "fo_Error committed = None" and "ends \<noteq> []"
    and "commits_ok committed" and "cells_sum (all_cells ends (sorted_keys ends)) \<le> maxInt64"
  shows "Lag FetchOffsets grp ends = Inr n \<longleftrightarrow> lag_ref committed (all_cells ends (sorted_keys ends)) = Some n"
proof -
  have "set (sorted_keys ends) \<noteq> {}" using assms(3) by simp
  then have "sorted_keys ends \<noteq> []" by force
  then show ?thesis
    using assms lag_topics_ref[of committed 0 ends "sorted_keys ends" grp n] by (simp add: Lag_def Let_def)
qed

definition billing_commits :: "string \<Rightarrow> OffsetResponses \<times> goerr option" where
  "billing_commits grp =
     (\<lparr>fo_Error = None,
       fo_Lookup = (\<lambda>t p. if t = ''orders'' \<and> 0 \<le> p \<and> p \<le> 1 then Some \<lparr>or_At = 8800 + 12 * p, or_Err = None\<rparr> else None)\<rparr>, None)"

theorem Lag_exact_witness:
  "Lag billing_commits ''billing'' [(''orders'', [8812, 8812])] = Inr 12 \<and>
   Lag billing_commits ''billing'' [(''orders'', [8812, 8812]), (''payments'', [1])] \<noteq> Inr 0"
proof -
  let ?c = "fst (billing_commits ''billing'')"
  have c: "billing_commits ''billing'' = (?c, None)" "fo_Error ?c = None" "commits_ok ?c"
    by (auto simp: billing_commits_def commits_ok_def split: if_splits)
  have "Lag billing_commits ''billing'' [(''orders'', [8812, 8812])] = Inr 12"
    using Lag_exact[of billing_commits "''billing''" ?c "[(''orders'', [8812, 8812])]" 12] c
    by (simp add: billing_commits_def sorted_keys_def all_cells_def lag_ref_def committed_at_def)
  moreover have "Lag billing_commits ''billing'' [(''orders'', [8812, 8812]), (''payments'', [1])] \<noteq> Inr 0"
    by code_simp
  ultimately show ?thesis by blast
qed

end
