(* ===== verification/MetricsAuth.thy ===== *)
theory MetricsAuth
  imports Probe GoStrings
begin

text \<open>
  The filter in front of the metrics (\<open>src/internal/metricsauth/metricsauth.go\<close>): a bearer token is
  reviewed by the API server, and the answer is reused for a minute. The two review calls and the
  hash are parameters; the map of answers is the filter's own state.
\<close>

section \<open>The review\<close>

record UserInfo =
  ui_Username :: string
  ui_UID :: string
  ui_Groups :: "string list"
  ui_Extra :: "(string, string list) gomap"

record TokenReviewStatus =
  tr_Authenticated :: bool
  tr_User :: UserInfo

record SubjectAccessReviewSpec =
  sar_User :: string
  sar_UID :: string
  sar_Groups :: "string list"
  sar_Extra :: "(string, string list) gomap"
  sar_Path :: string
  sar_Verb :: string

record 'w reviews =
  rv_authn :: "'w \<Rightarrow> string \<Rightarrow> 'w \<times> (goerr + TokenReviewStatus)"
  rv_authz :: "'w \<Rightarrow> SubjectAccessReviewSpec \<Rightarrow> 'w \<times> (goerr + bool)"

text \<open>The access review for a user; \<open>extra\<close> is a copy of the user's map.\<close>

definition access_spec :: "UserInfo \<Rightarrow> string \<Rightarrow> SubjectAccessReviewSpec" where
  "access_spec u path =
     \<lparr>sar_User = ui_Username u, sar_UID = ui_UID u, sar_Groups = ui_Groups u, sar_Extra = ui_Extra u,
      sar_Path = path, sar_Verb = ''get''\<rparr>"

definition Allowed :: "'w reviews \<Rightarrow> 'w \<Rightarrow> string \<Rightarrow> string \<Rightarrow> 'w \<times> (goerr + bool)" where
  "Allowed r w token path =
     (case rv_authn r w token of (w1, tr) \<Rightarrow>
        (case tr of
           Inl e \<Rightarrow> (w1, Inl e)
         | Inr status \<Rightarrow>
           if \<not> tr_Authenticated status then (w1, Inr False)
           else rv_authz r w1 (access_spec (tr_User status) path)))"

text \<open>The filter is built over the two clients; building either of them may fail.\<close>

definition metrics_Filter ::
  "goerr + ('w \<Rightarrow> string \<Rightarrow> 'w \<times> (goerr + TokenReviewStatus)) \<Rightarrow>
   goerr + ('w \<Rightarrow> SubjectAccessReviewSpec \<Rightarrow> 'w \<times> (goerr + bool)) \<Rightarrow> goerr + 'w reviews" where
  "metrics_Filter authn authz =
     (case authn of
        Inl e \<Rightarrow> Inl e
      | Inr n \<Rightarrow> (case authz of Inl e \<Rightarrow> Inl e | Inr z \<Rightarrow> Inr \<lparr>rv_authn = n, rv_authz = z\<rparr>))"

section \<open>The filter\<close>

definition remember_for :: duration where "remember_for = Minute"

record answer =
  an_allowed :: bool
  an_until :: time

record request =
  rq_Authorization :: string
  rq_Path :: string

datatype response = Unauthorized | InternalServerError | Forbidden | ServeHTTP

definition cache_key :: "string \<Rightarrow> string \<Rightarrow> string" where
  "cache_key token path = token @ [CHR 0x00] @ path"

text \<open>The handler: the API server's state and the answers seen, the response, and what is logged.\<close>

definition handle ::
  "'w reviews \<Rightarrow> (string \<Rightarrow> 'h) \<Rightarrow> request \<Rightarrow> time \<Rightarrow> 'w \<times> ('h, answer) gomap \<Rightarrow>
     ('w \<times> ('h, answer) gomap) \<times> response \<times> goerr option" where
  "handle r Sum256 req now st =
     (case CutPrefix (rq_Authorization req) ''Bearer '' of (token, ok) \<Rightarrow>
        if \<not> ok \<or> token = [] then (st, Unauthorized, None)
        else (case st of (w, seen') \<Rightarrow>
          let key = Sum256 (cache_key token (rq_Path req));
              reply = (\<lambda>a. if \<not> an_allowed a then Forbidden else ServeHTTP);
              review = (case Allowed r w token (rq_Path req) of (w1, res) \<Rightarrow>
                 (case res of
                    Inl e \<Rightarrow> ((w1, seen'), InternalServerError, Some e)
                  | Inr allowed \<Rightarrow>
                    let a = \<lparr>an_allowed = allowed, an_until = Add now remember_for\<rparr>
                    in ((w1, map_put key a (if 1000 \<le> length seen' then [] else seen')), reply a, None)))
          in case map_of seen' key of
               None \<Rightarrow> review
             | Some a \<Rightarrow> if After now (an_until a) then review else ((w, seen'), reply a, None)))"

section \<open>Who is served\<close>

text \<open>
  A run of the filter, with the token, path and time of every request at which the API server
  vouches for the caller. Between requests the API server may change in any way. Header values
  have no zero byte, which the HTTP server rejects.
\<close>

definition bearer :: "request \<Rightarrow> string \<Rightarrow> bool" where
  "bearer req token \<longleftrightarrow> rq_Authorization req = ''Bearer '' @ token \<and> token \<noteq> []"

definition vouched :: "'w reviews \<Rightarrow> 'w \<Rightarrow> request \<Rightarrow> time \<Rightarrow> (string \<times> string \<times> time) set" where
  "vouched r w req now = {(token, path, t). bearer req token \<and> path = rq_Path req \<and> t = now \<and> snd (Allowed r w token path) = Inr True}"

inductive serving ::
  "'w reviews \<Rightarrow> (string \<Rightarrow> 'h) \<Rightarrow> (string \<times> string \<times> time) set \<Rightarrow> 'w \<times> ('h, answer) gomap \<Rightarrow> bool"
  for r Sum256 where
  start: "serving r Sum256 {} (w, [])"
| drift: "serving r Sum256 V (w, seen') \<Longrightarrow> serving r Sum256 V (w', seen')"
| request: "serving r Sum256 V (w, seen') \<Longrightarrow> CHR 0x00 \<notin> set (rq_Authorization req) \<Longrightarrow>
     handle r Sum256 req now (w, seen') = (st', resp, err) \<Longrightarrow> serving r Sum256 (V \<union> vouched r w req now) st'"

lemma CutPrefix_bearer: "CutPrefix (rq_Authorization req) ''Bearer '' = (token, True) \<and> token \<noteq> [] \<longleftrightarrow> bearer req token"
  by (auto simp: CutPrefix_iff bearer_def)

lemma handle_unauthorized:
  assumes "\<forall>token. \<not> bearer req token"
  shows "handle r h req now st = (st, Unauthorized, None)"
proof -
  obtain token ok where c: "CutPrefix (rq_Authorization req) ''Bearer '' = (token, ok)" by fastforce
  with assms CutPrefix_bearer[of req token] have "\<not> ok \<or> token = []" by auto
  with c show ?thesis by (simp add: handle_def)
qed

text \<open>A request with a token is answered from a fresh answer, or reviewed.\<close>

lemma handle_cases:
  assumes "bearer req token" and "handle r h req now (w, seen') = (st', resp, err)"
  obtains
    (remembered) a where "map_of seen' (h (cache_key token (rq_Path req))) = Some a" "now \<le> an_until a" "st' = (w, seen')"
      "resp = (if an_allowed a then ServeHTTP else Forbidden)" "err = None"
  | (failed) w1 e where "Allowed r w token (rq_Path req) = (w1, Inl e)" "st' = (w1, seen')" "resp = InternalServerError" "err = Some e"
  | (reviewed) w1 ok where "Allowed r w token (rq_Path req) = (w1, Inr ok)"
      "st' = (w1, map_put (h (cache_key token (rq_Path req))) \<lparr>an_allowed = ok, an_until = Add now remember_for\<rparr>
                    (if 1000 \<le> length seen' then [] else seen'))"
      "resp = (if ok then ServeHTTP else Forbidden)" "err = None"
proof -
  obtain w1 res where A: "Allowed r w token (rq_Path req) = (w1, res)" by fastforce
  from assms(1) CutPrefix_bearer[of req token] have "CutPrefix (rq_Authorization req) ''Bearer '' = (token, True)" "token \<noteq> []" by auto
  with assms(2) A that show thesis
    by (cases "map_of seen' (h (cache_key token (rq_Path req)))"; cases res)
      (auto simp: handle_def Let_def split: if_splits)
qed

lemma cache_key_inj:
  assumes "CHR 0x00 \<notin> set a" "CHR 0x00 \<notin> set b" "cache_key a p = cache_key b q"
  shows "a = b \<and> p = q"
proof -
  have "takeWhile (\<lambda>c. c \<noteq> CHR 0x00) (cache_key x y) = x" if "CHR 0x00 \<notin> set x" for x y
    using that by (auto simp: cache_key_def takeWhile_append)
  with assms have "a = b" by metis
  with assms(3) show ?thesis by (simp add: cache_key_def)
qed

text \<open>Every remembered yes goes back to a vouched request one minute before it runs out.\<close>

definition traced :: "(string \<Rightarrow> 'h) \<Rightarrow> (string \<times> string \<times> time) set \<Rightarrow> 'h \<Rightarrow> answer \<Rightarrow> bool" where
  "traced h V k a \<longleftrightarrow> an_allowed a \<longrightarrow> (\<exists>token path t. (token, path, t) \<in> V \<and> k = h (cache_key token path) \<and> an_until a = Add t remember_for)"

definition answers_ok :: "(string \<Rightarrow> 'h) \<Rightarrow> (string \<times> string \<times> time) set \<Rightarrow> ('h, answer) gomap \<Rightarrow> bool" where
  "answers_ok h V seen' \<longleftrightarrow> length seen' \<le> 1000 \<and> (\<forall>k a. map_of seen' k = Some a \<longrightarrow> traced h V k a)"

lemma answers_ok_mono: "answers_ok h V seen' \<Longrightarrow> V \<subseteq> V' \<Longrightarrow> answers_ok h V' seen'"
  by (fastforce simp: answers_ok_def traced_def)

lemma answers_ok_put:
  assumes "answers_ok h V seen'" "traced h V k a"
  shows "answers_ok h V (map_put k a (if 1000 \<le> length seen' then [] else seen'))"
proof -
  have "length (map_put k a (if 1000 \<le> length seen' then [] else seen')) \<le> 1000"
    using assms(1) length_map_put[of k a seen'] length_map_put[of k a "[]"] by (auto simp: answers_ok_def)
  with assms show ?thesis by (auto simp: answers_ok_def)
qed

lemma serving_inv:
  assumes "serving r h V st"
  shows "(\<forall>(token, path, t)\<in>V. CHR 0x00 \<notin> set token) \<and> answers_ok h V (snd st)"
  using assms
proof (induction rule: serving.induct)
  case (request V w seen' req now st' resp err)
  have tokens: "\<forall>(token, path, t)\<in>vouched r w req now. CHR 0x00 \<notin> set token"
    using request.hyps(2) by (auto simp: vouched_def bearer_def)
  have old: "answers_ok h (V \<union> vouched r w req now) seen'" using request.IH by (auto intro: answers_ok_mono)
  have "answers_ok h (V \<union> vouched r w req now) (snd st')"
  proof (cases "\<exists>token. bearer req token")
    case False
    with handle_unauthorized[of req r h now "(w, seen')"] request.hyps(3) old show ?thesis by auto
  next
    case True
    then obtain token where b: "bearer req token" by blast
    from b request.hyps(3) show ?thesis
    proof (cases rule: handle_cases)
      case (reviewed w1 ok)
      have "traced h (V \<union> vouched r w req now) (h (cache_key token (rq_Path req))) \<lparr>an_allowed = ok, an_until = Add now remember_for\<rparr>"
        using reviewed(1) b by (fastforce simp: traced_def vouched_def)
      from answers_ok_put[OF old this] reviewed(2) show ?thesis by simp
    qed (use old in auto)
  qed
  with tokens request.IH show ?case by auto
qed (auto simp: answers_ok_def)

text \<open>
  C21. The metrics are served only to callers the API server vouches for: in every run, a request
  that reaches the metrics carries a bearer token, and the API server authenticated that token and
  allowed it to get that path at this request or at one not more than a minute before. This rests
  on the hash keeping the vouched token and path pairs apart. At most a thousand answers are kept.
\<close>

theorem metrics_only_for_vouched:
  assumes "serving r h V (w, seen')" and "CHR 0x00 \<notin> set (rq_Authorization req)"
    and "handle r h req now (w, seen') = (st', ServeHTTP, err)"
    and "inj_on h {cache_key token path | token path. bearer req token \<and> path = rq_Path req \<or> (\<exists>t. (token, path, t) \<in> V)}"
  shows "\<exists>token t. bearer req token \<and> (token, rq_Path req, t) \<in> V \<union> vouched r w req now \<and> now \<le> t + Minute \<and> length seen' \<le> 1000"
proof -
  from assms(3) handle_unauthorized[of req r h now "(w, seen')"] obtain token where b: "bearer req token" by force
  note inv = serving_inv[OF assms(1)]
  have nul: "CHR 0x00 \<notin> set token" using b assms(2) by (auto simp: bearer_def)
  from b assms(3) have "\<exists>t. (token, rq_Path req, t) \<in> V \<union> vouched r w req now \<and> now \<le> t + Minute"
  proof (cases rule: handle_cases)
    case (remembered a)
    then have "an_allowed a" by (auto split: if_splits)
    moreover from remembered(1) inv have "traced h V (h (cache_key token (rq_Path req))) a" by (simp add: answers_ok_def)
    ultimately obtain token' path' t where
      t: "(token', path', t) \<in> V" "h (cache_key token (rq_Path req)) = h (cache_key token' path')" "an_until a = Add t remember_for"
      by (auto simp: traced_def)
    have "cache_key token (rq_Path req) = cache_key token' path'"
      using inj_onD[OF assms(4) t(2)] b t(1) by blast
    with cache_key_inj[OF nul] inv t(1) have "token = token' \<and> rq_Path req = path'" by fastforce
    with t remembered(2) show ?thesis by (auto simp: remember_for_def)
  next
    case (failed w1 e)
    then show ?thesis by simp
  next
    case (reviewed w1 ok)
    then show ?thesis using b by (auto simp: vouched_def intro!: exI[of _ now] split: if_splits)
  qed
  with b inv show ?thesis by (auto simp: answers_ok_def)
qed

text \<open>An API server that knows one token, and a second scrape half a minute after the first.\<close>

definition example_reviews :: "nat reviews" where
  "example_reviews =
     \<lparr>rv_authn = (\<lambda>w token. (Suc w, Inr \<lparr>tr_Authenticated = (token = ''s3cret''),
         tr_User = \<lparr>ui_Username = ''prometheus'', ui_UID = ''u1'', ui_Groups = [], ui_Extra = []\<rparr>\<rparr>)),
      rv_authz = (\<lambda>w spec. (Suc w, Inr (sar_User spec = ''prometheus'' \<and> sar_Path spec = ''/metrics'')))\<rparr>"

definition scrape :: request where
  "scrape = \<lparr>rq_Authorization = ''Bearer s3cret'', rq_Path = ''/metrics''\<rparr>"

theorem metrics_only_for_vouched_witness:
  "handle example_reviews id scrape (30 * Second) (2, [(cache_key ''s3cret'' ''/metrics'', \<lparr>an_allowed = True, an_until = Minute\<rparr>)]) =
     ((2, [(cache_key ''s3cret'' ''/metrics'', \<lparr>an_allowed = True, an_until = Minute\<rparr>)]), ServeHTTP, None) \<and>
   (\<exists>token t. bearer scrape token \<and> (token, ''/metrics'', t) \<in> vouched example_reviews 0 scrape 0 \<union> vouched example_reviews 2 scrape (30 * Second))"
proof -
  let ?seen = "[(cache_key ''s3cret'' ''/metrics'', \<lparr>an_allowed = True, an_until = Minute\<rparr>)]"
  have nul: "CHR 0x00 \<notin> set (rq_Authorization scrape)" by code_simp
  have first: "handle example_reviews id scrape 0 (0, []) = ((2, ?seen), ServeHTTP, None)" by code_simp
  have second: "handle example_reviews id scrape (30 * Second) (2, ?seen) = ((2, ?seen), ServeHTTP, None)" by code_simp
  have "serving example_reviews id ({} \<union> vouched example_reviews 0 scrape 0) (2, ?seen)"
    by (rule serving.request[OF serving.start nul first])
  from metrics_only_for_vouched[OF this nul second] second show ?thesis by (auto simp: scrape_def)
qed

end
