(* ===== verification/Flink.thy ===== *)
theory Flink
  imports Scenario
begin

text \<open>
  The FlinkDeployment as the controller sees it (\<open>src/internal/flink/flinkdeployment.go\<close>) and
  the predicate on its updates (\<open>src/internal/controller/predicate.go\<close>). The object is
  unstructured: its content is reached only through the API machinery's nested accessors, so
  an object is modelled by its metadata and by what those accessors return for a path; a
  missing or mistyped field reads as the zero value, as their callers ignore the error.
\<close>

section \<open>The object\<close>

record Object =
  u_Namespace :: string
  u_Name :: string
  u_UID :: string
  u_APIVersion :: string
  u_Kind :: string
  u_Generation :: int
  u_ResourceVersion :: string
  u_Annotations :: "(string, string) gomap"
  u_NestedString :: "string list \<Rightarrow> string"
  u_NestedInt64 :: "string list \<Rightarrow> int"

abbreviation (input) spec_job_state :: "string list" where
  "spec_job_state \<equiv> [''spec'', ''job'', ''state'']"

definition Live :: "Object \<Rightarrow> Live" where
  "Live u =
     (let specState = u_NestedString u spec_job_state;
          specState' = (if specState = [] then ''running'' else specState);
          jobState = u_NestedString u [''status'', ''jobStatus'', ''state''];
          jobID = u_NestedString u [''status'', ''jobStatus'', ''jobId''];
          lifecycle = u_NestedString u [''status'', ''lifecycleState''];
          recErr = u_NestedString u [''status'', ''reconciliationStatus'', ''error''];
          jobErr = u_NestedString u [''status'', ''error''];
          recErr' = (if jobErr \<noteq> [] then recErr @ '' '' @ jobErr else recErr);
          upgradeMode = u_NestedString u [''spec'', ''job'', ''upgradeMode''];
          upgradeMode' = (if upgradeMode = [] then ''stateless'' else upgradeMode);
          savepoint = u_NestedString u [''status'', ''jobStatus'', ''upgradeSavepointPath''];
          healthCheck = u_NestedString u [''spec'', ''flinkConfiguration'', ''kubernetes.operator.cluster.health-check.enabled''];
          nonce = u_NestedInt64 u [''spec'', ''restartNonce'']
      in \<lparr>l_SpecJobState = specState', l_UpgradeMode = upgradeMode', l_SavepointPath = savepoint,
          l_OperatorRestarts = (healthCheck = ''true''), l_Generation = u_Generation u, l_RestartNonce = nonce,
          l_JobID = jobID, l_JobState = jobState, l_LifecycleState = lifecycle, l_ReconcileError = recErr'\<rparr>)"

section \<open>Which updates are looked at\<close>

definition foreign :: "string \<Rightarrow> (string, string) gomap \<Rightarrow> (string, string) gomap" where
  "foreign prefix m = filter (\<lambda>(k, v). \<not> HasPrefix k prefix) m"

text \<open>The number of keys of a map.\<close>

definition map_len :: "('k, 'v) gomap \<Rightarrow> nat" where
  "map_len m = length (remdups (map fst m))"

definition equalForeignAnnotations :: "string \<Rightarrow> (string, string) gomap \<Rightarrow> (string, string) gomap \<Rightarrow> bool" where
  "equalForeignAnnotations prefix a b \<longleftrightarrow>
     (let fa = foreign prefix a; fb = foreign prefix b
      in map_len fa = map_len fb \<and> list_all (\<lambda>k. get_str fb k = get_str fa k) (map fst fa))"

definition changedOutside :: "string \<Rightarrow> Object \<Rightarrow> Object \<Rightarrow> bool" where
  "changedOutside prefix oldU newU \<longleftrightarrow>
     (if u_Generation oldU \<noteq> u_Generation newU then True
      else if Live oldU \<noteq> Live newU then True
      else \<not> equalForeignAnnotations (prefix @ ''/'') (u_Annotations oldU) (u_Annotations newU))"

text \<open>
  The watch (\<open>SetupWithManager\<close>): an event reaches \<open>Reconcile\<close> when both predicates let it through. An
  update needs our mode or our state on either version, and something outside our annotations
  changed; the other events need our mode or state only. The objects of the watch are unstructured;
  of any other only the annotations are read.
\<close>

datatype ClientObject = Unstructured Object | OtherObject "(string, string) gomap"

fun GetAnnotations :: "ClientObject \<Rightarrow> (string, string) gomap" where
  "GetAnnotations (Unstructured u) = u_Annotations u"
| "GetAnnotations (OtherObject ann) = ann"

datatype WatchEvent =
    CreateEvent ClientObject
  | DeleteEvent ClientObject
  | GenericEvent ClientObject
  | UpdateEvent ClientObject ClientObject

definition ours :: "string \<Rightarrow> ClientObject \<Rightarrow> bool" where
  "ours prefix o' \<longleftrightarrow> has_key (GetAnnotations o') (prefix @ ''/mode'') \<or> has_key (GetAnnotations o') (prefix @ ''/state'')"

fun hasPolicy :: "string \<Rightarrow> WatchEvent \<Rightarrow> bool" where
  "hasPolicy prefix (CreateEvent o') = ours prefix o'"
| "hasPolicy prefix (DeleteEvent o') = ours prefix o'"
| "hasPolicy prefix (GenericEvent o') = ours prefix o'"
| "hasPolicy prefix (UpdateEvent old' new') = (ours prefix new' \<or> ours prefix old')"

fun relevantChange :: "string \<Rightarrow> WatchEvent \<Rightarrow> bool" where
  "relevantChange prefix (UpdateEvent (Unstructured oldU) (Unstructured newU)) = changedOutside prefix oldU newU"
| "relevantChange prefix e = True"

definition event_passes :: "string \<Rightarrow> WatchEvent \<Rightarrow> bool" where
  "event_passes prefix e \<longleftrightarrow> hasPolicy prefix e \<and> relevantChange prefix e"

text \<open>A deployment that carries our mode reaches \<open>Reconcile\<close> when it is created or listed, and when it is deleted.\<close>

lemma event_passes_whole:
  "event_passes prefix (CreateEvent o') \<longleftrightarrow> ours prefix o'" "event_passes prefix (DeleteEvent o') \<longleftrightarrow> ours prefix o'"
  by (simp_all add: event_passes_def)

section \<open>What the predicate lets through\<close>

lemma map_of_foreign: "map_of (foreign prefix m) k = (if HasPrefix k prefix then None else map_of m k)"
  unfolding foreign_def by (induction m) auto

lemma map_len_card: "map_len m = card (dom (map_of m))"
  by (simp add: map_len_def dom_map_of_conv_image_fst card_set length_remdups_card_conv)

text \<open>No annotation has an empty value: then the comparison of the foreign annotations is exact.\<close>

definition values_nonempty :: "('k, string) gomap \<Rightarrow> bool" where
  "values_nonempty m \<longleftrightarrow> list_all (\<lambda>(k, v). v \<noteq> []) m"

lemma equalForeign_exact:
  assumes "values_nonempty a"
  shows "equalForeignAnnotations prefix a b \<longleftrightarrow> map_of (foreign prefix a) = map_of (foreign prefix b)"
    (is "_ \<longleftrightarrow> map_of ?fa = map_of ?fb")
proof
  assume e: "equalForeignAnnotations prefix a b"
  have ne: "v \<noteq> []" if "map_of ?fa k = Some v" for k v
    using that assms by (auto simp: foreign_def values_nonempty_def list_all_iff dest!: map_of_SomeD)
  have sub: "map_of ?fb k = Some v" if "map_of ?fa k = Some v" for k v
  proof -
    have "k \<in> set (map fst ?fa)" using that by (force dest: map_of_SomeD)
    then have "get_str ?fb k = get_str ?fa k"
      using e by (auto simp: equalForeignAnnotations_def Let_def list_all_iff)
    with that ne show ?thesis by (auto simp: get_str_def split: option.splits)
  qed
  then have d: "dom (map_of ?fa) \<subseteq> dom (map_of ?fb)" by auto
  moreover have "card (dom (map_of ?fa)) = card (dom (map_of ?fb))"
    using e by (simp add: equalForeignAnnotations_def Let_def map_len_card)
  ultimately have dom: "dom (map_of ?fa) = dom (map_of ?fb)"
    by (simp add: card_subset_eq finite_dom_map_of)
  show "map_of ?fa = map_of ?fb"
  proof
    fix k
    show "map_of ?fa k = map_of ?fb k"
    proof (cases "map_of ?fa k")
      case None
      then have "k \<notin> dom (map_of ?fb)" using dom by auto
      with None show ?thesis by (simp add: domIff)
    next
      case (Some v)
      with sub show ?thesis by simp
    qed
  qed
next
  assume "map_of ?fa = map_of ?fb"
  then show "equalForeignAnnotations prefix a b"
    by (simp add: equalForeignAnnotations_def Let_def map_len_card get_str_def list_all_iff)
qed

text \<open>
  Without that the comparison can miss a change: an annotation with an empty value whose key is
  replaced by another key counts as unchanged.
\<close>

lemma empty_annotation_missed:
  "equalForeignAnnotations ''siesta.flink.io/'' [(''pause'', [])] [(''team'', ''a'')]"
  by code_simp

text \<open>
  The controller does not wake itself (ADR 8). When no annotation is empty, an update is
  relevant exactly if the generation, anything the decider reads of the object, or an
  annotation outside the prefix changed; in particular writing the state and the reason
  is never relevant.
\<close>

theorem changedOutside_iff:
  assumes "values_nonempty (u_Annotations old')"
  shows "changedOutside prefix old' new' \<longleftrightarrow>
     u_Generation old' \<noteq> u_Generation new' \<or> Live old' \<noteq> Live new' \<or>
     (\<exists>k. \<not> HasPrefix k (prefix @ ''/'') \<and> map_of (u_Annotations old') k \<noteq> map_of (u_Annotations new') k)"
  by (auto simp: changedOutside_def equalForeign_exact[OF assms] map_of_foreign fun_eq_iff)

definition orders_object :: Object where
  "orders_object =
     \<lparr>u_Namespace = ''flink'', u_Name = ''orders'', u_UID = ''u-1'', u_APIVersion = ''flink.apache.org/v1beta1'',
      u_Kind = ''FlinkDeployment'', u_Generation = 1, u_ResourceVersion = ''7'',
      u_Annotations = [(''siesta.flink.io/mode'', ''auto''), (''team'', ''a'')],
      u_NestedString = (\<lambda>path. if path = [''status'', ''lifecycleState''] then ''STABLE''
         else if path = [''status'', ''jobStatus'', ''state''] then ''RUNNING''
         else if path = [''spec'', ''job'', ''upgradeMode''] then ''savepoint'' else []),
      u_NestedInt64 = (\<lambda>path. 0)\<rparr>"

text \<open>
  C39. An edit of the policy annotations alone is not an event. Whatever the old and the new
  values under the prefix are, adding, changing or removing them is never relevant, so it
  reaches the controller only with the next requeue or another change: a deployment already
  known is revisited within the poll interval, while one that gets its first policy this way
  has no requeue yet.
\<close>

theorem policy_edit_not_relevant:
  assumes "map_of (foreign (prefix @ ''/'') (u_Annotations old')) = map_of (foreign (prefix @ ''/'') ann)"
  shows "\<not> event_passes prefix (UpdateEvent (Unstructured old') (Unstructured (old'\<lparr>u_Annotations := ann\<rparr>)))"
proof -
  have "equalForeignAnnotations (prefix @ ''/'') (u_Annotations old') ann"
    using assms by (simp add: equalForeignAnnotations_def Let_def map_len_card get_str_def list_all_iff)
  moreover have "Live (old'\<lparr>u_Annotations := ann\<rparr>) = Live old'" by (simp add: Live_def)
  ultimately show ?thesis by (simp add: event_passes_def changedOutside_def)
qed

theorem policy_edit_not_relevant_witness:
  "Read ''siesta.flink.io'' [(''team'', ''a'')] = None \<and>
   Read ''siesta.flink.io'' [(''siesta.flink.io/mode'', ''auto''), (''team'', ''a'')] \<noteq> None \<and>
   \<not> event_passes ''siesta.flink.io'' (UpdateEvent (Unstructured (orders_object\<lparr>u_Annotations := [(''team'', ''a'')]\<rparr>))
       (Unstructured (orders_object\<lparr>u_Annotations := [(''siesta.flink.io/mode'', ''auto''), (''team'', ''a'')]\<rparr>)))"
proof -
  let ?old = "orders_object\<lparr>u_Annotations := [(''team'', ''a'')]\<rparr>"
  let ?ann = "[(''siesta.flink.io/mode'', ''auto''), (''team'', ''a'')]"
  have "foreign (''siesta.flink.io'' @ ''/'') (u_Annotations ?old) = foreign (''siesta.flink.io'' @ ''/'') ?ann"
    by code_simp
  then have "\<not> event_passes ''siesta.flink.io'' (UpdateEvent (Unstructured ?old) (Unstructured (?old\<lparr>u_Annotations := ?ann\<rparr>)))"
    by (intro policy_edit_not_relevant) simp
  moreover have "?old\<lparr>u_Annotations := ?ann\<rparr> = orders_object\<lparr>u_Annotations := ?ann\<rparr>" by simp
  moreover have "Read ''siesta.flink.io'' [(''team'', ''a'')] = None"
    "Read ''siesta.flink.io'' ?ann \<noteq> None" by code_simp+
  ultimately show ?thesis by simp
qed

end
