(* ===== verification/GoTimeParse.thy ===== *)
theory GoTimeParse
  imports GoTime
begin

text \<open>
  Reading times: \<open>time.Parse\<close> for the layout RFC 3339, as Go's general parser does it (its
  fast path accepts a subset with the same result), and the round trip with formatting. This
  is the standard library under \<open>parseTime\<close> and \<open>formatTime\<close> of \<open>src/internal/state/state.go\<close>.
\<close>

section \<open>Parsing\<close>

text \<open>\<open>getnum\<close>: two digits, or one when not fixed.\<close>

fun getnum :: "bool \<Rightarrow> string \<Rightarrow> (int \<times> string) option" where
  "getnum fixed [] = None"
| "getnum fixed [c] = (if is_digit c \<and> \<not> fixed then Some (digit_val c, []) else None)"
| "getnum fixed (c # c2 # r) =
     (if \<not> is_digit c then None
      else if is_digit c2 then Some (digit_val c * 10 + digit_val c2, r)
      else if fixed then None else Some (digit_val c, c2 # r))"

fun expect :: "char \<Rightarrow> string \<Rightarrow> string option" where
  "expect c [] = None"
| "expect c (x # r) = (if x = c then Some r else None)"

definition parse_year :: "string \<Rightarrow> (int \<times> string) option" where
  "parse_year s =
     (if length s < 4 \<or> \<not> list_all is_digit (take 4 s) then None
      else Some (nat_of_digits (take 4 s), drop 4 s))"

text \<open>A fraction of a second; digits past the ninth are dropped.\<close>

definition parse_fraction :: "string \<Rightarrow> int \<times> string" where
  "parse_fraction s =
     (case s of
        c # d # r \<Rightarrow>
          if (c = CHR ''.'' \<or> c = CHR '','') \<and> is_digit d
          then (let ds = take 9 (takeWhile is_digit (d # r))
                in (nat_of_digits ds * 10 ^ (9 - length ds), dropWhile is_digit (d # r)))
          else (0, s)
      | _ \<Rightarrow> (0, s))"

text \<open>The zone: Z, or a signed offset in seconds.\<close>

definition parse_zone :: "string \<Rightarrow> (int \<times> string) option" where
  "parse_zone s =
     (case s of
        [] \<Rightarrow> None
      | c # r \<Rightarrow>
        if c = CHR ''Z'' then Some (0, r)
        else if length s < 6 \<or> s ! 3 \<noteq> CHR '':'' \<or> (c \<noteq> CHR ''+'' \<and> c \<noteq> CHR ''-'') then None
        else case (getnum True (take 2 (drop 1 s)), getnum True (take 2 (drop 4 s))) of
          (Some (hr, _), Some (mm, _)) \<Rightarrow>
            if 24 < hr \<or> 60 < mm then None
            else let off = (hr * 60 + mm) * 60 in Some (if c = CHR ''-'' then - off else off, drop 6 s)
        | _ \<Rightarrow> None)"

definition days_before_year :: "int \<Rightarrow> int" where
  "days_before_year y = 365 * (y - 1) + (y - 1) div 4 - (y - 1) div 100 + (y - 1) div 400"

definition days_before_month :: "int \<Rightarrow> int \<Rightarrow> int" where
  "days_before_month y m = sum_list (take (nat (m - 1)) (month_lengths y))"

definition days_in :: "int \<Rightarrow> int \<Rightarrow> int" where
  "days_in y m = month_lengths y ! nat (m - 1)"

text \<open>The calendar day of a date, counted like \<open>year_of_day\<close>; None for a date that does not exist.\<close>

definition day_of_date :: "int \<Rightarrow> int \<Rightarrow> int \<Rightarrow> int option" where
  "day_of_date y m d =
     (if m < 1 \<or> 12 < m \<or> d < 1 \<or> days_in y m < d then None
      else Some (days_before_year y + days_before_month y m + d - 1))"

definition parse_date :: "string \<Rightarrow> (int \<times> string) option" where
  "parse_date s0 =
     (case parse_year s0 of None \<Rightarrow> None | Some (y, s1) \<Rightarrow>
      case expect CHR ''-'' s1 of None \<Rightarrow> None | Some s2 \<Rightarrow>
      case getnum True s2 of None \<Rightarrow> None | Some (m, s3) \<Rightarrow>
      case expect CHR ''-'' s3 of None \<Rightarrow> None | Some s4 \<Rightarrow>
      case getnum True s4 of None \<Rightarrow> None | Some (d, s5) \<Rightarrow>
      case day_of_date y m d of None \<Rightarrow> None | Some day \<Rightarrow> Some (day, s5))"

definition parse_clock :: "string \<Rightarrow> (int \<times> string) option" where
  "parse_clock s0 =
     (case getnum False s0 of None \<Rightarrow> None | Some (h, s1) \<Rightarrow>
      case expect CHR '':'' s1 of None \<Rightarrow> None | Some s2 \<Rightarrow>
      case getnum True s2 of None \<Rightarrow> None | Some (m, s3) \<Rightarrow>
      case expect CHR '':'' s3 of None \<Rightarrow> None | Some s4 \<Rightarrow>
      case getnum True s4 of None \<Rightarrow> None | Some (s, s5) \<Rightarrow>
      if 24 \<le> h \<or> 60 \<le> m \<or> 60 \<le> s then None else Some (h * 3600 + m * 60 + s, s5))"

definition ParseRFC3339 :: "string \<Rightarrow> time option" where
  "ParseRFC3339 s =
     (case parse_date s of None \<Rightarrow> None | Some (day, s1) \<Rightarrow>
      case expect CHR ''T'' s1 of None \<Rightarrow> None | Some s2 \<Rightarrow>
      case parse_clock s2 of None \<Rightarrow> None | Some (sod, s3) \<Rightarrow>
      case parse_fraction s3 of (ns, s4) \<Rightarrow>
      case parse_zone s4 of None \<Rightarrow> None | Some (off, s5) \<Rightarrow>
      if s5 \<noteq> [] then None else Some ((day * 86400 + sod - off) * Second + ns))"

section \<open>The calendar is exact\<close>

text \<open>Taking off at most three whole cycles of length \<open>k\<close> from up to four of them.\<close>

lemma capped_div:
  fixes r k :: int
  assumes "0 \<le> r" and "r \<le> 4 * k" and "0 < k"
  shows "0 \<le> min 3 (r div k)" "min 3 (r div k) \<le> 3" "0 \<le> r - k * min 3 (r div k)"
    "r - k * min 3 (r div k) \<le> k" "min 3 (r div k) < 3 \<Longrightarrow> r - k * min 3 (r div k) < k"
proof -
  have m: "r - k * (r div k) = r mod k" by (simp add: minus_mult_div_eq_mod)
  have "0 \<le> r div k" using assms by (simp add: pos_imp_zdiv_nonneg_iff)
  then show "0 \<le> min 3 (r div k)" by simp
  show "min 3 (r div k) \<le> 3" by simp
  show "min 3 (r div k) < 3 \<Longrightarrow> r - k * min 3 (r div k) < k" using assms m by (simp add: min_def split: if_splits)
  show "r - k * min 3 (r div k) \<le> k" using assms m by (auto simp: min_def) (use pos_mod_bound[of k r] in linarith)
  show "0 \<le> r - k * min 3 (r div k)"
  proof (cases "r div k \<le> 3")
    case True
    with assms m show ?thesis by (simp add: min_def)
  next
    case False
    then have "k * 3 \<le> k * (r div k)" using assms(3) by simp
    moreover have "k * (r div k) \<le> r" using assms(3) m pos_mod_sign[of k r] by linarith
    ultimately show ?thesis using False by (simp add: min_def)
  qed
qed

lemma year_of_day_bounds:
  assumes "year_of_day day = (y, yd)"
  shows "days_before_year y + yd = day \<and> 0 \<le> yd \<and> yd < (if is_leap y then 366 else 365)"
proof -
  define a where "a = day div 146097"
  define r4h where "r4h = day mod 146097"
  define b where "b = min 3 (r4h div 36524)"
  define r1h where "r1h = r4h - 36524 * b"
  define c where "c = r1h div 1461"
  define r4 where "r4 = r1h mod 1461"
  define e where "e = min 3 (r4 div 365)"
  have "year_of_day day = (400 * a + 100 * b + 4 * c + e + 1, r4 - 365 * e)"
    unfolding year_of_day_def Let_def e_def r4_def c_def r1h_def b_def r4h_def a_def by (rule refl)
  with assms have y: "y = 400 * a + 100 * b + 4 * c + e + 1" and yd: "yd = r4 - 365 * e"
    by (simp_all only: prod.inject)
  have d: "day = 146097 * a + r4h" "0 \<le> r4h" "r4h < 146097" by (simp_all add: a_def r4h_def)
  have b: "0 \<le> b" "b \<le> 3" "0 \<le> r1h" "r1h < 36525" "b < 3 \<Longrightarrow> r1h < 36524"
    using capped_div[of r4h 36524] d(2,3) unfolding b_def r1h_def by simp_all
  have c: "r1h = 1461 * c + r4" "0 \<le> r4" "r4 < 1461" by (simp_all add: c_def r4_def)
  have c2: "0 \<le> c" "c \<le> 24" "c = 24 \<Longrightarrow> b < 3 \<Longrightarrow> r4 < 1460"
    using b c by linarith+
  have e: "0 \<le> e" "e \<le> 3" "0 \<le> yd" "yd < 366" "e < 3 \<Longrightarrow> yd < 365" "r4 < 1460 \<Longrightarrow> yd < 365"
  proof -
    show "0 \<le> e" "e \<le> 3" "0 \<le> yd" "yd < 366" "e < 3 \<Longrightarrow> yd < 365"
      using capped_div[of r4 365] c(2,3) unfolding e_def yd by simp_all
    show "r4 < 1460 \<Longrightarrow> yd < 365"
      using capped_div[of r4 365] c(2) unfolding e_def yd by (cases "r4 div 365 < 3") auto
  qed
  have q: "(y - 1) div 4 = 100 * a + 25 * b + c" "(y - 1) div 100 = 4 * a + b" "(y - 1) div 400 = a"
  proof -
    show "(y - 1) div 4 = 100 * a + 25 * b + c"
      using y e(1,2) by (intro int_div_pos_eq[where r = e]) simp_all
    show "(y - 1) div 100 = 4 * a + b"
      using y e(1,2) c2(1,2) by (intro int_div_pos_eq[where r = "4 * c + e"]) simp_all
    show "(y - 1) div 400 = a"
      using y e(1,2) c2(1,2) b(1,2) by (intro int_div_pos_eq[where r = "100 * b + 4 * c + e"]) simp_all
  qed
  have "is_leap y" if "yd = 365"
  proof -
    have e3: "e = 3" and n: "\<not> (c = 24 \<and> b < 3)" using that e c2 by linarith+
    have "y = 4 * (100 * a + 25 * b + c + 1)" using y e3 by simp
    then have "4 dvd y" by simp
    moreover have "400 dvd y" if "100 dvd y"
    proof -
      have "y = 100 * (4 * a + b) + 4 * (c + 1)" using y e3 by simp
      then have "100 dvd 4 * (c + 1)" using that by (metis dvd_add_right_iff dvd_triv_left)
      then obtain k where "4 * (c + 1) = 100 * k" by (rule dvdE)
      then have k: "c + 1 = 25 * k" by simp
      then have "0 < k" and "k < 2" using c2(1,2) by simp_all
      with k have "c = 24" by simp
      then have "b = 3" using n b by linarith
      with \<open>c = 24\<close> y e3 show ?thesis by (simp add: algebra_simps)
    qed
    ultimately show ?thesis by (auto simp: is_leap_def)
  qed
  moreover have "days_before_year y + yd = day"
    unfolding days_before_year_def q yd using y d(1) c(1) r1h_def by simp
  ultimately show ?thesis using e(3,4) by (cases "yd = 365") auto
qed

lemma month_of_yday_bounds:
  assumes "month_of_yday ls m0 d = (m, dd)" and "0 \<le> d" and "d < sum_list ls"
  shows "m0 \<le> m \<and> m < m0 + int (length ls) \<and> 1 \<le> dd \<and> dd \<le> ls ! nat (m - m0) \<and>
     sum_list (take (nat (m - m0)) ls) + dd - 1 = d"
  using assms
proof (induction ls arbitrary: m0 d)
  case (Cons l ls)
  show ?case
  proof (cases "d < l")
    case True
    with Cons.prems show ?thesis by auto
  next
    case False
    with Cons.prems have "m0 + 1 \<le> m \<and> m < m0 + 1 + int (length ls) \<and> 1 \<le> dd \<and> dd \<le> ls ! nat (m - (m0 + 1)) \<and>
        sum_list (take (nat (m - (m0 + 1))) ls) + dd - 1 = d - l"
      by (intro Cons.IH) auto
    moreover from this have "nat (m - m0) = Suc (nat (m - (m0 + 1)))" by linarith
    ultimately show ?thesis by simp
  qed
qed simp

lemma month_lengths_sum: "sum_list (month_lengths y) = (if is_leap y then 366 else 365)"
  by (simp add: month_lengths_def)

lemma day_of_date_of_day:
  assumes "year_of_day day = (y, yd)" and "month_of_yday (month_lengths y) 1 yd = (m, d)"
  shows "day_of_date y m d = Some day \<and> 1 \<le> m \<and> m \<le> 12 \<and> 1 \<le> d \<and> d \<le> 31"
proof -
  note y = year_of_day_bounds[OF assms(1)]
  have len: "length (month_lengths y) = 12" by (simp add: month_lengths_def)
  note m = month_of_yday_bounds[OF assms(2)]
  have "yd < sum_list (month_lengths y)" using y month_lengths_sum by simp
  with m y len have *: "1 \<le> m" "m < 13" "1 \<le> d" "d \<le> days_in y m" "days_before_month y m + d - 1 = yd"
    by (auto simp: days_in_def days_before_month_def)
  have "list_all (\<lambda>l. l \<le> 31) (month_lengths y)" by (simp add: month_lengths_def)
  then have "days_in y m \<le> 31" using * len by (simp add: days_in_def list_all_length)
  with * y show ?thesis by (auto simp: day_of_date_def)
qed

lemma year_range:
  assumes "year_of_day day = (y, yd)" and "0 \<le> day" and "day < 3652059"
  shows "1 \<le> y \<and> y \<le> 9999"
proof (rule ccontr)
  note b = year_of_day_bounds[OF assms(1)]
  assume "\<not> (1 \<le> y \<and> y \<le> 9999)"
  then consider "y \<le> 0" | "10000 \<le> y" by linarith
  then show False
  proof cases
    case 1
    let ?k = "y - 1"
    have "?k div 4 div 25 = ?k div 100" by (simp add: zdiv_zmult2_eq[symmetric])
    moreover have "?k div 4 \<le> ?k div 4 div 25" "?k div 400 \<le> -1" using 1 by linarith+
    moreover have "365 * k + p - q + r \<le> -366" if "k \<le> -1" "p \<le> q" "r \<le> -1" for k p q r :: int
      using that by linarith
    ultimately have "days_before_year y \<le> -366" unfolding days_before_year_def using 1 by simp
    with b assms(2) show False by (auto split: if_splits)
  next
    case 2
    let ?k = "y - 1"
    have "?k div 4 div 25 = ?k div 100" by (simp add: zdiv_zmult2_eq[symmetric])
    moreover have "2400 \<le> p - p div 25" if "2499 \<le> p" for p :: int using that by linarith
    moreover have "2499 \<le> ?k div 4" "24 \<le> ?k div 400" using 2 by linarith+
    moreover have "3652059 \<le> 365 * k + p - q + r" if "9999 \<le> k" "2400 \<le> p - q" "24 \<le> r" for k p q r :: int
      using that by linarith
    ultimately have "3652059 \<le> days_before_year y" unfolding days_before_year_def using 2 by simp
    with b assms(3) show False by linarith
  qed
qed

section \<open>Times round trip\<close>

lemma div_less_bound:
  fixes a b k :: int
  assumes "a < b * k" and "0 < k"
  shows "a div k < b"
proof (rule ccontr)
  assume "\<not> a div k < b"
  then have "b * k \<le> a div k * k" using assms(2) by simp
  also have "\<dots> \<le> a" using assms(2) div_mult_mod_eq[of a k] pos_mod_sign[of k a] by linarith
  finally show False using assms(1) by simp
qed

lemma format_nat_two: "0 \<le> n \<Longrightarrow> n < 100 \<Longrightarrow> two_digits n = [digit (n div 10), digit (n mod 10)]"
proof (cases "n < 10")
  case True
  moreover assume "0 \<le> n"
  moreover have "digit 0 = CHR ''0''" by code_simp
  ultimately show ?thesis by (subst two_digits_def, subst format_nat.simps) (simp add: pad_left_def)
next
  case False
  moreover assume "0 \<le> n" "n < 100"
  ultimately show ?thesis
    by (subst two_digits_def, subst format_nat.simps, subst format_nat.simps) (simp add: pad_left_def)
qed

lemma getnum_two: "0 \<le> n \<Longrightarrow> n < 100 \<Longrightarrow> getnum f (two_digits n @ r) = Some (n, r)"
  by (simp add: format_nat_two)

lemma nat_of_digits_zeros: "nat_of_digits (replicate k CHR ''0'' @ s) = nat_of_digits s"
proof (induction k)
  case (Suc k)
  have "digit_val CHR ''0'' = 0" by (simp add: digit_val_def)
  with Suc show ?case by (simp add: nat_of_digits_def)
qed simp

lemma format_nat_length: "0 \<le> n \<Longrightarrow> n < 10 ^ Suc k \<Longrightarrow> length (format_nat n) \<le> Suc k"
proof (induction k arbitrary: n)
  case 0
  then show ?case by (subst format_nat.simps) simp
next
  case (Suc k)
  show ?case
  proof (cases "n < 10")
    case True
    then show ?thesis by (subst format_nat.simps) simp
  next
    case False
    have "n div 10 < 10 ^ Suc k" using Suc.prems(2) by simp
    then have "length (format_nat (n div 10)) \<le> Suc k" using Suc.prems(1) by (intro Suc.IH) simp_all
    with False show ?thesis by (subst format_nat.simps) simp
  qed
qed

lemma parse_year_padded:
  assumes "0 \<le> y" and "y \<le> 9999"
  shows "parse_year (pad_left 4 (format_nat y) @ r) = Some (y, r)"
proof -
  have "length (format_nat y) \<le> 4" using format_nat_length[of y 3] assms by simp
  then have len: "length (pad_left 4 (format_nat y)) = 4" by (simp add: pad_left_def)
  have "list_all is_digit (pad_left 4 (format_nat y))"
    using format_nat_digits[OF assms(1)] by (auto simp: pad_left_def list_all_iff is_digit_def)
  moreover have "nat_of_digits (pad_left 4 (format_nat y)) = y"
    using assms by (simp add: pad_left_def nat_of_digits_zeros)
  ultimately show ?thesis using len by (simp add: parse_year_def)
qed

text \<open>The instants whose UTC date has a year from 1 to 9999.\<close>

definition printable :: "time \<Rightarrow> bool" where
  "printable t \<longleftrightarrow> 0 \<le> t \<and> t div Second < 3652059 * 86400"

lemma format_date_parses:
  assumes "0 \<le> day" and "day < 3652059" and "year_of_day day = (y, yd)"
    and "month_of_yday (month_lengths y) 1 yd = (m, d)"
  shows "parse_date (pad_left 4 (format_nat y) @ ''-'' @ two_digits m @ ''-'' @ two_digits d @ r) = Some (day, r)"
proof -
  have "parse_year (pad_left 4 (format_nat y) @ s) = Some (y, s)" for s
    using year_range[OF assms(3,1,2)] by (intro parse_year_padded) simp_all
  with day_of_date_of_day[OF assms(3,4)] show ?thesis by (simp add: parse_date_def getnum_two)
qed

lemma parse_clock_written:
  assumes "0 \<le> h" "h < 24" "0 \<le> m" "m < 60" "0 \<le> s" "s < 60"
  shows "parse_clock (two_digits h @ '':'' @ two_digits m @ '':'' @ two_digits s @ r) = Some (h * 3600 + m * 60 + s, r)"
  using assms by (simp add: parse_clock_def getnum_two)

lemma format_clock_parses:
  assumes "0 \<le> sod" and "sod < 86400"
  shows "parse_clock (two_digits (sod div 3600) @ '':'' @ two_digits (sod div 60 mod 60) @ '':'' @ two_digits (sod mod 60) @ r)
     = Some (sod, r)"
proof -
  have "sod div 3600 < 24" "0 \<le> sod div 3600" using assms by simp_all
  moreover have "sod div 3600 * 3600 + sod div 60 mod 60 * 60 + sod mod 60 = sod"
  proof -
    have "sod div 60 div 60 = sod div 3600" by (simp add: zdiv_zmult2_eq[symmetric])
    then show ?thesis
      using div_mult_mod_eq[of sod 60] div_mult_mod_eq[of "sod div 60" 60] by linarith
  qed
  ultimately show ?thesis
    using parse_clock_written[of "sod div 3600" "sod div 60 mod 60" "sod mod 60" r] by (simp only: pos_mod_sign pos_mod_bound)
qed

text \<open>The text up to the seconds reads back, whatever fraction follows.\<close>

lemma ParseRFC3339_head:
  assumes "printable t" and "parse_fraction (fr @ ''Z'') = (ns, ''Z'')"
  shows "ParseRFC3339 (butlast (FormatRFC3339 t) @ fr @ ''Z'') = Some (t div Second * Second + ns)"
proof -
  let ?s = "t div Second"
  obtain y yd where y: "year_of_day (?s div 86400) = (y, yd)" by (rule prod.exhaust)
  obtain m d where m: "month_of_yday (month_lengths y) 1 yd = (m, d)" by (rule prod.exhaust)
  have s: "0 \<le> ?s" "?s < 3652059 * 86400"
    using assms by (simp_all add: printable_def pos_imp_zdiv_nonneg_iff)
  then have day: "0 \<le> ?s div 86400" "?s div 86400 < 3652059"
    by (simp add: pos_imp_zdiv_nonneg_iff) (rule div_less_bound[OF s(2)], simp)
  have f: "FormatRFC3339 t = pad_left 4 (format_nat y) @ ''-'' @ two_digits m @ ''-'' @ two_digits d @ (''T'' @
      two_digits (?s mod 86400 div 3600) @ '':'' @ two_digits (?s mod 86400 div 60 mod 60) @ '':'' @
      two_digits (?s mod 86400 mod 60) @ ''Z'')"
    by (simp add: FormatRFC3339_def Let_def y m)
  let ?c = "two_digits (?s mod 86400 div 3600) @ '':'' @ two_digits (?s mod 86400 div 60 mod 60) @ '':'' @
      two_digits (?s mod 86400 mod 60)"
  let ?h = "butlast (FormatRFC3339 t)"
  have h: "?h = pad_left 4 (format_nat y) @ ''-'' @ two_digits m @ ''-'' @ two_digits d @ ''T'' @ ?c"
    unfolding f by (simp add: butlast_append)
  have z: "parse_zone ''Z'' = Some (0, [])" by (simp add: parse_zone_def)
  have "parse_date (?h @ fr @ ''Z'') = Some (?s div 86400, ''T'' @ ?c @ fr @ ''Z'')"
    unfolding h using format_date_parses[OF day y m, of "''T'' @ ?c @ fr @ ''Z''"] by simp
  moreover have "parse_clock (?c @ fr @ ''Z'') = Some (?s mod 86400, fr @ ''Z'')"
    using format_clock_parses[of "?s mod 86400" "fr @ ''Z''"] by simp
  ultimately show ?thesis using z assms(2) div_mult_mod_eq[of ?s 86400] by (simp add: ParseRFC3339_def)
qed

lemma FormatRFC3339_Z: "butlast (FormatRFC3339 t) @ ''Z'' = FormatRFC3339 t"
proof -
  have "last (FormatRFC3339 t) = CHR ''Z''" and ne: "FormatRFC3339 t \<noteq> []"
    by (simp_all add: FormatRFC3339_def Let_def split: prod.split)
  then show ?thesis using append_butlast_last_id[OF ne] by simp
qed

lemma ParseRFC3339_Format:
  assumes "printable t"
  shows "ParseRFC3339 (FormatRFC3339 t) = Some (t div Second * Second)"
  using ParseRFC3339_head[OF assms, of "[]" 0] by (simp add: parse_fraction_def FormatRFC3339_Z)

section \<open>Times with a fraction\<close>

text \<open>The form \<open>MarshalJSON\<close> writes: RFC 3339 with nanoseconds, trailing zeros dropped.\<close>

definition FormatRFC3339Nano :: "time \<Rightarrow> string" where
  "FormatRFC3339Nano t =
     butlast (FormatRFC3339 t) @ fmtFrac (t mod Second) 9 @ ''Z''"

lemma strip_zeros_split:
  obtains k where "s = replicate k CHR ''0'' @ strip_zeros s"
proof (induction s arbitrary: thesis)
  case (Cons c s)
  show ?case
  proof (cases "c = CHR ''0''")
    case True
    obtain k where "s = replicate k CHR ''0'' @ strip_zeros s" by (rule Cons.IH)
    with True show ?thesis by (intro Cons.prems[of "Suc k"]) simp
  next
    case False
    then show ?thesis by (intro Cons.prems[of 0]) simp
  qed
qed simp

lemma nat_of_digits_trailing: "nat_of_digits (s @ replicate k CHR ''0'') = nat_of_digits s * 10 ^ k"
proof (induction k)
  case (Suc k)
  have "nat_of_digits (s @ replicate (Suc k) CHR ''0'') = nat_of_digits ((s @ replicate k CHR ''0'') @ [CHR ''0''])"
    by (simp add: replicate_append_same)
  also have "\<dots> = 10 * nat_of_digits (s @ replicate k CHR ''0'')"
    unfolding nat_of_digits_snoc by (simp add: digit_val_def)
  finally show ?case using Suc by simp
qed simp

lemma parse_fraction_written:
  assumes "0 \<le> f" and "f < Second"
  shows "parse_fraction (fmtFrac f 9 @ ''Z'') = (f, ''Z'')"
proof (cases "f = 0")
  case True
  then show ?thesis by (simp add: fmtFrac_def parse_fraction_def)
next
  case False
  let ?p = "pad_left 9 (format_nat f)"
  let ?ds = "rev (strip_zeros (rev ?p))"
  have "length (format_nat f) \<le> 9" using format_nat_length[of f 8] assms by simp
  then have len: "length ?p = 9" by (simp add: pad_left_def)
  have dig: "list_all is_digit ?p"
    using format_nat_digits[OF assms(1)] by (auto simp: pad_left_def list_all_iff is_digit_def)
  obtain k where "rev ?p = replicate k CHR ''0'' @ strip_zeros (rev ?p)" by (rule strip_zeros_split)
  then have "rev (rev ?p) = ?ds @ rev (replicate k CHR ''0'')" by (metis rev_append)
  then have p: "?p = ?ds @ replicate k CHR ''0''" by simp
  have v: "f = nat_of_digits ?ds * 10 ^ k"
    using nat_of_digits_trailing[of ?ds k] p assms nat_of_digits_zeros
    by (metis nat_of_digits_format pad_left_def)
  have l: "length ?ds + k = 9" using p len by (metis length_append length_replicate)
  have d: "list_all is_digit ?ds" using dig p by (metis list_all_append)
  have "?ds \<noteq> []" using v False by (auto simp: nat_of_digits_def)
  then obtain c r where cr: "?ds = c # r" by (cases ?ds) auto
  then have c: "is_digit c" "list_all is_digit r" using d by simp_all
  have tw: "takeWhile is_digit (c # r @ ''Z'') = c # r" "dropWhile is_digit (c # r @ ''Z'') = ''Z''"
    using c by (auto simp: list_all_iff is_digit_def takeWhile_append dropWhile_append)
  have "length (c # r) \<le> 9" and k: "9 - length (c # r) = k" using l cr by simp_all
  then have "take 9 (c # r) = c # r" by simp
  moreover have "f mod 10 ^ 9 = f" using assms by simp
  then have "fmtFrac f 9 @ ''Z'' = CHR ''.'' # c # r @ ''Z''" using False cr by (simp add: fmtFrac_def Let_def)
  ultimately show ?thesis using c tw v k cr by (simp add: parse_fraction_def Let_def)
qed

lemma ParseRFC3339_Nano:
  assumes "printable t"
  shows "ParseRFC3339 (FormatRFC3339Nano t) = Some t"
proof -
  have "parse_fraction (fmtFrac (t mod Second) 9 @ ''Z'') = (t mod Second, ''Z'')"
    by (rule parse_fraction_written) simp_all
  from ParseRFC3339_head[OF assms this] show ?thesis
    using div_mult_mod_eq[of t Second] by (simp add: FormatRFC3339Nano_def)
qed

end
