(* ===== verification/Json.thy ===== *)
theory Json
  imports GoLib
begin

text \<open>
  The part of \<open>encoding/json\<close> the controller's memory goes through: the syntax of a JSON text,
  string literals, and the encoding of a map of strings. The syntax is Go's scanner (its
  limit of 10000 nested values aside); a string literal is kept raw in the tree, because a
  time is read from the raw literal and a string from the unquoted one. Strings are bytes;
  bytes outside ASCII are passed through, as Go does with valid UTF-8.
\<close>

section \<open>Values\<close>

datatype json = JNull | JBool bool | JNum string | JStr string | JArr "json list" | JObj "(string \<times> json) list"

definition json_space :: "char \<Rightarrow> bool" where
  "json_space c \<longleftrightarrow> c \<in> {CHR '' '', CHR 0x09, CHR 0x0A, CHR 0x0D}"

abbreviation (input) skip_space :: "string \<Rightarrow> string" where
  "skip_space s \<equiv> dropWhile json_space s"

definition is_hex :: "char \<Rightarrow> bool" where
  "is_hex c \<longleftrightarrow> is_digit c \<or> c \<in> set ''abcdefABCDEF''"

definition simple_escape :: "char \<Rightarrow> bool" where
  "simple_escape c \<longleftrightarrow> c \<in> {CHR 0x22, CHR 0x5C, CHR ''/'', CHR ''b'', CHR ''f'', CHR ''n'', CHR ''r'', CHR ''t''}"

text \<open>The raw content of a string literal after its opening quote, and what follows its closing one.\<close>

function raw_string :: "string \<Rightarrow> (string \<times> string) option" where
  "raw_string [] = None"
| "raw_string (c # s) =
     (if c = CHR 0x22 then Some ([], s)
      else if c = CHR 0x5C then
        (case s of
           [] \<Rightarrow> None
         | e # r \<Rightarrow>
           if simple_escape e then map_option (\<lambda>(a, b). (c # e # a, b)) (raw_string r)
           else if e = CHR ''u'' \<and> 4 \<le> length r \<and> list_all is_hex (take 4 r)
           then map_option (\<lambda>(a, b). (c # e # take 4 r @ a, b)) (raw_string (drop 4 r))
           else None)
      else if (of_char c :: int) < 32 then None
      else map_option (\<lambda>(a, b). (c # a, b)) (raw_string s))"
  by pat_completeness auto
termination
  by (relation "measure length") auto

text \<open>A number literal: sign, integer part without leading zeros, fraction, exponent.\<close>

definition scan_fraction :: "string \<Rightarrow> (string \<times> string) option" where
  "scan_fraction s =
     (if s \<noteq> [] \<and> hd s = CHR ''.''
      then (let ds = takeWhile is_digit (tl s)
            in if ds = [] then None else Some (CHR ''.'' # ds, dropWhile is_digit (tl s)))
      else Some ([], s))"

definition scan_exponent :: "string \<Rightarrow> (string \<times> string) option" where
  "scan_exponent s =
     (if s \<noteq> [] \<and> hd s \<in> {CHR ''e'', CHR ''E''}
      then (let sign = (if tl s \<noteq> [] \<and> hd (tl s) \<in> {CHR ''+'', CHR ''-''} then [hd (tl s)] else []);
                r = drop (length sign) (tl s);
                ds = takeWhile is_digit r
            in if ds = [] then None else Some (hd s # sign @ ds, dropWhile is_digit r))
      else Some ([], s))"

definition scan_integer :: "string \<Rightarrow> string" where
  "scan_integer s = (if s \<noteq> [] \<and> hd s = CHR ''0'' then ''0'' else takeWhile is_digit s)"

definition scan_number :: "string \<Rightarrow> (string \<times> string) option" where
  "scan_number s0 =
     (let sign = (if s0 \<noteq> [] \<and> hd s0 = CHR ''-'' then ''-'' else []);
          s1 = drop (length sign) s0;
          ds = scan_integer s1;
          s2 = drop (length ds) s1
      in if ds = [] then None
         else case scan_fraction s2 of None \<Rightarrow> None
         | Some (fr, s3) \<Rightarrow>
           (case scan_exponent s3 of None \<Rightarrow> None
            | Some (ex, s4) \<Rightarrow> Some (sign @ ds @ fr @ ex, s4)))"

definition literal :: "string \<Rightarrow> json \<Rightarrow> string \<Rightarrow> (json \<times> string) option" where
  "literal w v s = (if HasPrefix s w then Some (v, drop (length w) s) else None)"

text \<open>
  The recursive parser. Every call consumes at least one byte of the text, so its length is
  fuel enough.
\<close>

fun parse_value :: "nat \<Rightarrow> string \<Rightarrow> (json \<times> string) option"
  and parse_members :: "nat \<Rightarrow> string \<Rightarrow> ((string \<times> json) list \<times> string) option"
  and parse_elements :: "nat \<Rightarrow> string \<Rightarrow> (json list \<times> string) option" where
  "parse_value 0 s = None"
| "parse_value (Suc n) s =
     (case skip_space s of
        [] \<Rightarrow> None
      | c # r \<Rightarrow>
        if c = CHR ''{'' then
          (if skip_space r \<noteq> [] \<and> hd (skip_space r) = CHR ''}'' then Some (JObj [], tl (skip_space r))
           else map_option (\<lambda>(ms, t). (JObj ms, t)) (parse_members n r))
        else if c = CHR ''['' then
          (if skip_space r \<noteq> [] \<and> hd (skip_space r) = CHR '']'' then Some (JArr [], tl (skip_space r))
           else map_option (\<lambda>(vs, t). (JArr vs, t)) (parse_elements n r))
        else if c = CHR 0x22 then map_option (\<lambda>(raw, t). (JStr raw, t)) (raw_string r)
        else if c = CHR ''t'' then literal ''true'' (JBool True) (c # r)
        else if c = CHR ''f'' then literal ''false'' (JBool False) (c # r)
        else if c = CHR ''n'' then literal ''null'' JNull (c # r)
        else map_option (\<lambda>(l, t). (JNum l, t)) (scan_number (c # r)))"
| "parse_members 0 s = None"
| "parse_members (Suc n) s =
     (case skip_space s of
        [] \<Rightarrow> None
      | q # r \<Rightarrow>
        if q \<noteq> CHR 0x22 then None
        else case raw_string r of None \<Rightarrow> None
        | Some (key, t) \<Rightarrow>
          (case skip_space t of
             [] \<Rightarrow> None
           | c # t1 \<Rightarrow>
             if c \<noteq> CHR '':'' then None
             else case parse_value n t1 of None \<Rightarrow> None
             | Some (v, t2) \<Rightarrow>
               (case skip_space t2 of
                  [] \<Rightarrow> None
                | d # t3 \<Rightarrow>
                  if d = CHR ''}'' then Some ([(key, v)], t3)
                  else if d = CHR '','' then map_option (\<lambda>(ms, t4). ((key, v) # ms, t4)) (parse_members n t3)
                  else None)))"
| "parse_elements 0 s = None"
| "parse_elements (Suc n) s =
     (case parse_value n s of None \<Rightarrow> None
      | Some (v, t) \<Rightarrow>
        (case skip_space t of
           [] \<Rightarrow> None
         | d # t1 \<Rightarrow>
           if d = CHR '']'' then Some ([v], t1)
           else if d = CHR '','' then map_option (\<lambda>(vs, t2). (v # vs, t2)) (parse_elements n t1)
           else None))"

definition json_parse :: "string \<Rightarrow> json option" where
  "json_parse s =
     (case parse_value (Suc (length s)) s of
        None \<Rightarrow> None
      | Some (v, r) \<Rightarrow> if skip_space r = [] then Some v else None)"

section \<open>String literals\<close>

definition hex_val :: "char \<Rightarrow> int" where
  "hex_val c =
     (let n = of_char c :: int
      in if n \<le> 57 then n - 48 else if n \<le> 70 then n - 55 else n - 87)"

definition hex4 :: "string \<Rightarrow> int" where
  "hex4 ds = foldl (\<lambda>n c. 16 * n + hex_val c) 0 (take 4 ds)"

definition utf8 :: "int \<Rightarrow> string" where
  "utf8 n =
     map char_of
       (if n < 128 then [n]
        else if n < 2048 then [192 + n div 64, 128 + n mod 64]
        else if n < 65536 then [224 + n div 4096, 128 + n div 64 mod 64, 128 + n mod 64]
        else [240 + n div 262144, 128 + n div 4096 mod 64, 128 + n div 64 mod 64, 128 + n mod 64])"

definition unescape :: "char \<Rightarrow> char" where
  "unescape e =
     (if e = CHR ''b'' then CHR 0x08 else if e = CHR ''f'' then CHR 0x0C else if e = CHR ''n'' then CHR 0x0A
      else if e = CHR ''r'' then CHR 0x0D else if e = CHR ''t'' then CHR 0x09 else e)"

text \<open>
  \<open>unquote\<close>: escapes resolved; a pair of surrogates is one code point, half a pair the
  replacement character.
\<close>

function unquote :: "string \<Rightarrow> string" where
  "unquote [] = []"
| "unquote (c # s) =
     (if c \<noteq> CHR 0x5C then c # unquote s
      else case s of
        [] \<Rightarrow> []
      | e # r \<Rightarrow>
        if e \<noteq> CHR ''u'' then unescape e # unquote r
        else let u = hex4 r; r1 = drop 4 r
             in if 55296 \<le> u \<and> u < 57344
                then (let v = (if HasPrefix r1 [CHR 0x5C, CHR ''u''] then hex4 (drop 2 r1) else 0)
                      in if u < 56320 \<and> 56320 \<le> v \<and> v < 57344
                         then utf8 (65536 + (u - 55296) * 1024 + (v - 56320)) @ unquote (drop 6 r1)
                         else utf8 65533 @ unquote r1)
                else utf8 u @ unquote r1)"
  by pat_completeness auto
termination
  by (relation "measure length") auto

definition hex_digit :: "int \<Rightarrow> char" where
  "hex_digit n = (if n < 10 then char_of (48 + n) else char_of (87 + n))"

text \<open>What the encoder writes for one byte, HTML-escaping included.\<close>

definition escape :: "char \<Rightarrow> string" where
  "escape c =
     (let n = of_char c :: int
      in if c = CHR 0x22 \<or> c = CHR 0x5C then [CHR 0x5C, c]
         else if n = 8 then [CHR 0x5C, CHR ''b''] else if n = 9 then [CHR 0x5C, CHR ''t'']
         else if n = 10 then [CHR 0x5C, CHR ''n''] else if n = 12 then [CHR 0x5C, CHR ''f'']
         else if n = 13 then [CHR 0x5C, CHR ''r'']
         else if n < 32 \<or> c \<in> {CHR ''<'', CHR ''>'', CHR ''&''}
         then [CHR 0x5C, CHR ''u'', CHR ''0'', CHR ''0'', hex_digit (n div 16), hex_digit (n mod 16)]
         else [c])"

definition quote :: "string \<Rightarrow> string" where
  "quote s = [CHR 0x22] @ concat (map escape s) @ [CHR 0x22]"

section \<open>Maps of strings\<close>

text \<open>
  Marshal sorts the keys. A nil map would be written as null; memory holds none: \<open>Initial\<close>,
  \<open>FromData\<close> and every successful observation give it a map.
\<close>

definition marshal_map :: "(string, string) gomap \<Rightarrow> string" where
  "marshal_map m =
     ''{'' @ Join (map (\<lambda>k. quote k @ '':'' @ quote (get_str m k)) (sorted_keys m)) '','' @ ''}''"

text \<open>
  Unmarshal into a map of strings: a member whose value is neither a string nor null is an
  error; null leaves the map empty.
\<close>

fun string_members :: "(string \<times> json) list \<Rightarrow> (string, string) gomap \<Rightarrow> (string, string) gomap option" where
  "string_members [] m = Some m"
| "string_members ((key, JStr raw) # ms) m = string_members ms (map_put (unquote key) (unquote raw) m)"
| "string_members ((key, JNull) # ms) m = string_members ms (map_put (unquote key) [] m)"
| "string_members (_ # ms) m = None"

definition unmarshal_map :: "string \<Rightarrow> (string, string) gomap option" where
  "unmarshal_map s =
     (case json_parse s of
        Some (JObj ms) \<Rightarrow> string_members ms []
      | Some JNull \<Rightarrow> Some []
      | _ \<Rightarrow> None)"

section \<open>Literals round trip\<close>

lemma of_char_range: "0 \<le> (of_char c :: int)" "(of_char c :: int) < 256"
  using of_char_mod_256[of c, where 'a = int] pos_mod_sign[of 256 "of_char c :: int"]
    pos_mod_bound[of 256 "of_char c :: int"] by simp_all

lemma of_hex_digit:
  assumes "0 \<le> n" and "n < 16"
  shows "(of_char (hex_digit n) :: int) = (if n < 10 then 48 + n else 87 + n)"
  using assms by (simp add: hex_digit_def)

lemma hex_digit_facts:
  assumes "0 \<le> n" and "n < 16"
  shows "is_hex (hex_digit n)" and "hex_val (hex_digit n) = n"
proof -
  show "hex_val (hex_digit n) = n" using assms by (simp add: hex_val_def Let_def of_hex_digit)
  show "is_hex (hex_digit n)"
  proof (cases "n < 10")
    case True
    with assms show ?thesis by (simp add: is_hex_def is_digit_def of_hex_digit)
  next
    case False
    with assms consider "n = 10" | "n = 11" | "n = 12" | "n = 13" | "n = 14" | "n = 15" by linarith
    then show ?thesis by cases (simp_all add: hex_digit_def is_hex_def char_of_def)
  qed
qed

text \<open>The three shapes of an escaped byte.\<close>

lemma escape_cases:
  obtains (plain) "escape c = [c]" "c \<noteq> CHR 0x22" "c \<noteq> CHR 0x5C" "32 \<le> (of_char c :: int)"
  | (simple) e where "escape c = [CHR 0x5C, e]" "simple_escape e" "e \<noteq> CHR ''u''" "unescape e = c"
  | (hex) n where "escape c = [CHR 0x5C, CHR ''u'', CHR ''0'', CHR ''0'', hex_digit (n div 16), hex_digit (n mod 16)]"
      "n = (of_char c :: int)" "n < 128"
proof -
  let ?n = "of_char c :: int"
  have c: "c = char_of ?n" by simp
  consider "c = CHR 0x22 \<or> c = CHR 0x5C" | "?n \<in> {8, 9, 10, 12, 13}"
    | "c \<noteq> CHR 0x22" "c \<noteq> CHR 0x5C" "?n \<notin> {8, 9, 10, 12, 13}" "?n < 32 \<or> c \<in> {CHR ''<'', CHR ''>'', CHR ''&''}"
    | "c \<noteq> CHR 0x22" "c \<noteq> CHR 0x5C" "32 \<le> ?n" "c \<notin> {CHR ''<'', CHR ''>'', CHR ''&''}" by fastforce
  then show ?thesis
  proof cases
    case 1
    then show ?thesis by (intro that(2)[of c]) (auto simp: escape_def simple_escape_def unescape_def)
  next
    case 2
    then consider "c = CHR 0x08" | "c = CHR 0x09" | "c = CHR 0x0A" | "c = CHR 0x0C" | "c = CHR 0x0D"
      using c by (auto simp: char_of_def)
    then show ?thesis
    proof cases
      case 1 then show ?thesis by (intro that(2)[of "CHR ''b''"]) (simp_all add: escape_def simple_escape_def unescape_def)
    next
      case 2 then show ?thesis by (intro that(2)[of "CHR ''t''"]) (simp_all add: escape_def simple_escape_def unescape_def)
    next
      case 3 then show ?thesis by (intro that(2)[of "CHR ''n''"]) (simp_all add: escape_def simple_escape_def unescape_def)
    next
      case 4 then show ?thesis by (intro that(2)[of "CHR ''f''"]) (simp_all add: escape_def simple_escape_def unescape_def)
    next
      case 5 then show ?thesis by (intro that(2)[of "CHR ''r''"]) (simp_all add: escape_def simple_escape_def unescape_def)
    qed
  next
    case 3
    then show ?thesis by (intro that(3)[of ?n]) (auto simp: escape_def Let_def)
  next
    case 4
    then show ?thesis by (intro that(1)) (auto simp: escape_def Let_def)
  qed
qed

lemma raw_string_escape:
  "raw_string (escape c @ t) = map_option (\<lambda>(a, b). (escape c @ a, b)) (raw_string t)"
proof (cases c rule: escape_cases)
  case plain
  then show ?thesis by simp
next
  case (simple e)
  then show ?thesis by simp
next
  case (hex n)
  have n: "0 \<le> n div 16" "n div 16 < 16" "0 \<le> n mod 16" "n mod 16 < 16"
    using hex of_char_range[of c] by auto
  let ?r = "[CHR ''0'', CHR ''0'', hex_digit (n div 16), hex_digit (n mod 16)]"
  have "is_hex CHR ''0''" by (simp add: is_hex_def is_digit_def)
  then have "list_all is_hex ?r" using n hex_digit_facts(1) by simp
  moreover have "take 4 (?r @ t) = ?r" "drop 4 (?r @ t) = t" "4 \<le> length (?r @ t)" by simp_all
  moreover have "\<not> simple_escape CHR ''u''" by (simp add: simple_escape_def)
  ultimately have "raw_string (CHR 0x5C # CHR ''u'' # (?r @ t)) =
      map_option (\<lambda>(a, b). (CHR 0x5C # CHR ''u'' # ?r @ a, b)) (raw_string t)"
    by (subst raw_string.simps(2)) (simp only: list.case simp_thms if_True if_False, simp)
  then show ?thesis using hex(1) by simp
qed

lemma raw_string_quoted: "raw_string (concat (map escape s) @ CHR 0x22 # t) = Some (concat (map escape s), t)"
  by (induction s) (simp_all add: raw_string_escape)

lemma unquote_escape: "unquote (escape c @ t) = c # unquote t"
proof (cases c rule: escape_cases)
  case plain
  then show ?thesis by simp
next
  case (simple e)
  then show ?thesis by simp
next
  case (hex n)
  have n: "0 \<le> n div 16" "n div 16 < 16" "0 \<le> n mod 16" "n mod 16 < 16"
    using hex of_char_range[of c] by auto
  have z: "hex_val CHR ''0'' = 0" by (simp add: hex_val_def)
  let ?r = "[CHR ''0'', CHR ''0'', hex_digit (n div 16), hex_digit (n mod 16)]"
  have u: "hex4 (?r @ t) = n"
    using hex_digit_facts(2)[OF n(1,2)] hex_digit_facts(2)[OF n(3,4)] z by (simp add: hex4_def)
  have "unquote (escape c @ t) = utf8 n @ unquote t"
    using hex u by (simp add: Let_def)
  also have "utf8 n = [c]" using hex by (simp add: utf8_def)
  finally show ?thesis by simp
qed

lemma unquote_quoted: "unquote (concat (map escape s)) = s"
  by (induction s) (simp_all add: unquote_escape)

section \<open>Objects round trip\<close>

declare parse_value.simps(2) [simp del] parse_members.simps(2) [simp del] parse_elements.simps(2) [simp del]

abbreviation (input) raw :: "string \<Rightarrow> string" where "raw s \<equiv> concat (map escape s)"

text \<open>A text that reads as a value wherever an object's member ends after it.\<close>

definition reads_as :: "string \<Rightarrow> json \<Rightarrow> bool" where
  "reads_as vt v \<longleftrightarrow>
     (\<forall>n c t. c \<in> {CHR '','', CHR ''}''} \<longrightarrow> parse_value (Suc n) (vt @ c # t) = Some (v, c # t))"

definition member_text :: "string \<times> string \<Rightarrow> string" where
  "member_text kv = quote (fst kv) @ '':'' @ snd kv"

lemma quote_reads: "reads_as (quote s) (JStr (raw s))"
  by (simp add: reads_as_def parse_value.simps(2) quote_def json_space_def raw_string_quoted)

lemma parse_member_step:
  assumes "reads_as vt v" and "c \<in> {CHR '','', CHR ''}''}"
  shows "parse_members (Suc (Suc n)) (member_text (k, vt) @ c # t) =
     (if c = CHR ''}'' then Some ([(raw k, v)], t)
      else map_option (\<lambda>(ms, t4). ((raw k, v) # ms, t4)) (parse_members (Suc n) t))"
proof -
  have pv: "parse_value (Suc n) (vt @ c # t) = Some (v, c # t)" using assms by (auto simp: reads_as_def)
  have sp: "json_space CHR 0x22 = False" "json_space CHR '':'' = False" "json_space c = False"
    using assms(2) by (auto simp: json_space_def)
  have mt: "member_text (k, vt) @ c # t = CHR 0x22 # raw k @ CHR 0x22 # (CHR '':'' # vt @ c # t)"
    by (simp add: member_text_def quote_def)
  have c: "(if c = CHR ''}'' then a else if c = CHR '','' then b else d) = (if c = CHR ''}'' then a else b)" for a b d :: 'x
    using assms(2) by auto
  show ?thesis
    unfolding mt
    by (subst parse_members.simps(2)) (simp add: sp raw_string_quoted pv c)
qed

lemma parse_members_written:
  assumes "kvs \<noteq> []" and "length kvs < n" and "list_all2 (\<lambda>kv v. reads_as (snd kv) v) kvs vs"
  shows "parse_members n (Join (map member_text kvs) '','' @ CHR ''}'' # t) =
     Some (zip (map (\<lambda>kv. raw (fst kv)) kvs) vs, t)"
  using assms
proof (induction kvs arbitrary: vs n)
  case (Cons kv kvs)
  obtain v vs' where v: "vs = v # vs'" "reads_as (snd kv) v" "list_all2 (\<lambda>kv v. reads_as (snd kv) v) kvs vs'"
    using Cons.prems(3) by (auto simp: list_all2_Cons1)
  obtain m where n: "n = Suc (Suc m)" using less_imp_Suc_add[OF Cons.prems(2)] by auto
  have kv: "member_text kv = member_text (fst kv, snd kv)" by simp
  show ?case
  proof (cases kvs)
    case Nil
    with v have "Join (map member_text (kv # kvs)) '','' @ CHR ''}'' # t = member_text (fst kv, snd kv) @ CHR ''}'' # t"
      by simp
    then show ?thesis
      using parse_member_step[OF v(2), of "CHR ''}''" m "fst kv" t] n v(1,3) Nil by simp
  next
    case (Cons kv2 kvs2)
    let ?rest = "Join (map member_text kvs) '','' @ CHR ''}'' # t"
    have "Join (map member_text (kv # kvs)) '','' @ CHR ''}'' # t = member_text (fst kv, snd kv) @ CHR '','' # ?rest"
      using Cons by simp
    moreover have "parse_members (Suc m) ?rest = Some (zip (map (\<lambda>kv. raw (fst kv)) kvs) vs', t)"
      using Cons.IH[of "Suc m" vs'] Cons.prems(2) v(3) n Cons by simp
    ultimately show ?thesis
      using parse_member_step[OF v(2), of "CHR '',''" m "fst kv" ?rest] n v(1) by simp
  qed
qed simp

lemma json_parse_object:
  assumes "list_all2 (\<lambda>kv v. reads_as (snd kv) v) kvs vs"
  shows "json_parse (''{'' @ Join (map member_text kvs) '','' @ ''}'') =
     Some (JObj (zip (map (\<lambda>kv. raw (fst kv)) kvs) vs))"
proof (cases "kvs = []")
  case True
  with assms show ?thesis by (simp add: json_parse_def json_space_def parse_value.simps(2))
next
  case False
  let ?b = "Join (map member_text kvs) '','' @ CHR ''}'' # []"
  have "length kvs \<le> length (Join (map member_text kvs) '','')"
  proof (induction kvs)
    case (Cons kv kvs)
    then show ?case by (cases kvs) (simp_all add: member_text_def quote_def)
  qed simp
  then have p: "parse_members (length (CHR ''{'' # ?b)) ?b = Some (zip (map (\<lambda>kv. raw (fst kv)) kvs) vs, [])"
    using False assms by (intro parse_members_written) simp_all
  obtain kv kvs' where "kvs = kv # kvs'" using False by (cases kvs) auto
  then obtain b where b: "?b = CHR 0x22 # b" by (cases kvs') (auto simp: member_text_def quote_def)
  then have "parse_value (Suc (length (CHR ''{'' # ?b))) (CHR ''{'' # ?b) = Some (JObj (zip (map (\<lambda>kv. raw (fst kv)) kvs) vs), [])"
    using p by (subst parse_value.simps(2)) (simp add: json_space_def)
  then show ?thesis by (simp add: json_parse_def)
qed

end
