(* ===== verification/Codec.thy ===== *)
theory Codec
  imports State GoTimeParse Json
begin

text \<open>
  Memory as it is persisted (\<open>Data\<close> and \<open>FromData\<close> of \<open>src/internal/state/state.go\<close>): the
  ConfigMap's keys and values, the JSON form of the restart budget, and the round trip.
\<close>

section \<open>The restart budget as JSON\<close>

text \<open>\<open>time.Time\<close> marshals as RFC 3339 with nanoseconds, and not at all outside the years 0 to 9999.\<close>

definition time_jsonable :: "time \<Rightarrow> bool" where
  "time_jsonable t \<longleftrightarrow> - (366 * 86400) \<le> t div Second \<and> t div Second < 3652059 * 86400"

definition time_literal :: "time \<Rightarrow> string" where
  "time_literal t = [CHR 0x22] @ FormatRFC3339Nano t @ [CHR 0x22]"

definition budget_members :: "RestartBudget \<Rightarrow> (string \<times> string) list" where
  "budget_members b =
     [(''count'', FormatInt (b_Count b))] @
     (if IsZero (b_WindowStart b) then [] else [(''windowStart'', time_literal (b_WindowStart b))]) @
     (if IsZero (b_NextAfter b) then [] else [(''nextAfter'', time_literal (b_NextAfter b))]) @
     (if b_LastNonce b = 0 then [] else [(''lastNonce'', FormatInt (b_LastNonce b))])"

text \<open>On an error \<open>json.Marshal\<close> returns no bytes, and the caller ignores the error.\<close>

definition marshal_budget :: "RestartBudget \<Rightarrow> string" where
  "marshal_budget b =
     (if time_jsonable (b_WindowStart b) \<and> time_jsonable (b_NextAfter b)
      then ''{'' @ Join (map member_text (budget_members b)) '','' @ ''}'' else [])"

text \<open>A field's new value, or None for an error; null keeps the old one.\<close>

fun decode_int :: "int \<Rightarrow> json \<Rightarrow> int option" where
  "decode_int old (JNum l) = (case ParseInt l of (n, ok) \<Rightarrow> if ok then Some n else None)"
| "decode_int old JNull = Some old"
| "decode_int old _ = None"

fun decode_time :: "time \<Rightarrow> json \<Rightarrow> time option" where
  "decode_time old (JStr l) = ParseRFC3339 l"
| "decode_time old JNull = Some old"
| "decode_time old _ = None"

definition decode_member :: "string \<Rightarrow> json \<Rightarrow> RestartBudget \<Rightarrow> RestartBudget option" where
  "decode_member key v b =
     (if EqualFold key ''count'' then map_option (\<lambda>n. b\<lparr>b_Count := n\<rparr>) (decode_int (b_Count b) v)
      else if EqualFold key ''windowStart'' then map_option (\<lambda>t. b\<lparr>b_WindowStart := t\<rparr>) (decode_time (b_WindowStart b) v)
      else if EqualFold key ''nextAfter'' then map_option (\<lambda>t. b\<lparr>b_NextAfter := t\<rparr>) (decode_time (b_NextAfter b) v)
      else if EqualFold key ''lastNonce'' then map_option (\<lambda>n. b\<lparr>b_LastNonce := n\<rparr>) (decode_int (b_LastNonce b) v)
      else Some b)"

fun decode_members :: "(string \<times> json) list \<Rightarrow> RestartBudget \<Rightarrow> RestartBudget option" where
  "decode_members [] b = Some b"
| "decode_members ((key, v) # ms) b =
     (case decode_member (unquote key) v b of None \<Rightarrow> None | Some b' \<Rightarrow> decode_members ms b')"

definition unmarshal_budget :: "string \<Rightarrow> RestartBudget option" where
  "unmarshal_budget s =
     (case json_parse s of
        Some (JObj ms) \<Rightarrow> decode_members ms zero_budget
      | Some JNull \<Rightarrow> Some zero_budget
      | _ \<Rightarrow> None)"

section \<open>The ConfigMap\<close>

definition formatTime :: "time \<Rightarrow> string" where
  "formatTime t = (if IsZero t then [] else FormatRFC3339 t)"

definition parseTime :: "string \<Rightarrow> time option" where
  "parseTime s = (if s = [] then Some zero_time else ParseRFC3339 s)"

definition Data :: "State \<Rightarrow> (string, string) gomap" where
  "Data s =
     [(''state'', s_Phase s),
      (''reason'', s_Reason s),
      (''offsets'', marshal_map (s_Snapshot s)),
      (''restarts'', marshal_budget (s_Restarts s)),
      (''last-activity-at'', formatTime (s_LastActivityAt s)),
      (''suspended-at'', formatTime (s_SuspendedAt s)),
      (''awake-since'', formatTime (s_AwakeSince s)),
      (''resumed-at'', formatTime (s_ResumedAt s)),
      (''generation'', FormatInt (s_Generation s)),
      (''pending'', FormatInt (s_Pending s)),
      (''source-down'', FormatBool (o_Down (s_Outage s))),
      (''source-down-since'', formatTime (o_Since (s_Outage s))),
      (''suspend-checked'', FormatBool (r_SuspendChecked (s_Reported s))),
      (''resume-stalled'', FormatBool (r_ResumeStalled (s_Reported s))),
      (''suspend-stalled'', FormatBool (r_SuspendStalled (s_Reported s))),
      (''sources-checked'', r_SourcesChecked (s_Reported s)),
      (''sources'', Join (s_Sources s) '',''),
      (''refresh-wake'', FormatBool (s_RefreshWake s)),
      (''restarting-since'', formatTime (s_RestartingSince s))]"

text \<open>The six clocks, in the order they are read; None if one of them does not parse.\<close>

definition read_clocks :: "(string, string) gomap \<Rightarrow> State \<Rightarrow> State option" where
  "read_clocks d s =
     (case parseTime (get_str d ''last-activity-at'') of None \<Rightarrow> None | Some t1 \<Rightarrow>
      case parseTime (get_str d ''suspended-at'') of None \<Rightarrow> None | Some t2 \<Rightarrow>
      case parseTime (get_str d ''awake-since'') of None \<Rightarrow> None | Some t3 \<Rightarrow>
      case parseTime (get_str d ''resumed-at'') of None \<Rightarrow> None | Some t4 \<Rightarrow>
      case parseTime (get_str d ''source-down-since'') of None \<Rightarrow> None | Some t5 \<Rightarrow>
      case parseTime (get_str d ''restarting-since'') of None \<Rightarrow> None | Some t6 \<Rightarrow>
      Some (s\<lparr>s_LastActivityAt := t1, s_SuspendedAt := t2, s_AwakeSince := t3, s_ResumedAt := t4,
              s_Outage := (s_Outage s)\<lparr>o_Since := t5\<rparr>, s_RestartingSince := t6\<rparr>))"

definition FromData :: "(string, string) gomap \<Rightarrow> State option" where
  "FromData d =
     (case map_of d ''state'' of None \<Rightarrow> None | Some phase \<Rightarrow>
      let s0 = zero_state\<lparr>s_Phase := phase, s_Reason := get_str d ''reason''\<rparr>;
          offsets = get_str d ''offsets''; restarts = get_str d ''restarts''
      in case (if offsets = [] then Some [] else unmarshal_map offsets) of None \<Rightarrow> None | Some snap \<Rightarrow>
         case (if restarts = [] then Some zero_budget else unmarshal_budget restarts) of None \<Rightarrow> None | Some b \<Rightarrow>
         case read_clocks d (s0\<lparr>s_Snapshot := snap, s_Restarts := b\<rparr>) of None \<Rightarrow> None | Some s \<Rightarrow>
         Some (s\<lparr>s_Generation := fst (ParseInt (get_str d ''generation'')),
                 s_Pending := fst (ParseInt (get_str d ''pending'')),
                 s_Outage := (s_Outage s)\<lparr>o_Down := ParseBool (get_str d ''source-down'')\<rparr>,
                 s_Reported := \<lparr>r_SuspendChecked = ParseBool (get_str d ''suspend-checked''),
                    r_ResumeStalled = ParseBool (get_str d ''resume-stalled''),
                    r_SuspendStalled = ParseBool (get_str d ''suspend-stalled''),
                    r_SourcesChecked = get_str d ''sources-checked''\<rparr>,
                 s_RefreshWake := ParseBool (get_str d ''refresh-wake''),
                 s_Sources := filter (\<lambda>t. t \<noteq> []) (Split CHR '','' (get_str d ''sources''))\<rparr>))"

section \<open>Offsets round trip\<close>

lemma string_members_written:
  "string_members (zip (map raw ks) (map (\<lambda>k. JStr (raw (f k))) ks)) m = Some (fold (\<lambda>k. map_put k (f k)) ks m)"
  by (induction ks arbitrary: m) (simp_all add: unquote_quoted)

lemma map_of_fold_put:
  "map_of (fold (\<lambda>k. map_put k (f k)) ks m) x = (if x \<in> set ks then Some (f x) else map_of m x)"
  by (induction ks arbitrary: m) auto

lemma unmarshal_marshal_map:
  obtains m' where "unmarshal_map (marshal_map m) = Some m'" "map_of m' = map_of m"
proof -
  let ?ks = "sorted_keys m" let ?kvs = "map (\<lambda>k. (k, quote (get_str m k))) ?ks"
  let ?vs = "map (\<lambda>k. JStr (raw (get_str m k))) ?ks"
  have "marshal_map m = ''{'' @ Join (map member_text ?kvs) '','' @ ''}''"
    by (simp add: marshal_map_def member_text_def comp_def)
  moreover have "list_all2 (\<lambda>kv v. reads_as (snd kv) v) ?kvs ?vs"
    by (simp add: list_all2_map1 list_all2_map2 list_all2_same quote_reads)
  ultimately have "json_parse (marshal_map m) = Some (JObj (zip (map raw ?ks) ?vs))"
    using json_parse_object[of ?kvs ?vs] by (simp add: comp_def)
  then have "unmarshal_map (marshal_map m) = Some (fold (\<lambda>k. map_put k (get_str m k)) ?ks [])"
    using string_members_written[of ?ks "get_str m" "[]"] by (simp add: unmarshal_map_def)
  moreover have "map_of (fold (\<lambda>k. map_put k (get_str m k)) ?ks []) x = map_of m x" for x
    by (cases "map_of m x") (auto simp: map_of_fold_put get_str_def dom_map_of_conv_image_fst[symmetric] dom_def)
  ultimately show ?thesis by (intro that) (auto simp: fun_eq_iff)
qed

section \<open>The budget round trips\<close>

lemma format_nat_hd:
  assumes "0 < n"
  shows "hd (format_nat n) \<noteq> CHR ''0''"
  using assms
proof (induction n rule: format_nat.induct)
  case (1 n)
  show ?case
  proof (cases "n < 10")
    case True
    then have "(of_char (digit n) :: int) = 48 + n" using "1.prems" by (intro of_char_digit) simp_all
    then have "digit n \<noteq> CHR ''0''" using "1.prems" by auto
    with True show ?thesis by (subst format_nat.simps) simp
  next
    case False
    moreover from this have "hd (format_nat (n div 10)) \<noteq> CHR ''0''" by (intro "1.IH") simp_all
    ultimately show ?thesis by (subst format_nat.simps) simp
  qed
qed

text \<open>A run of digits ends at a comma or a brace.\<close>

lemma digits_end:
  assumes "list_all is_digit ds" and "c \<in> {CHR '','', CHR ''}''}"
  shows "takeWhile is_digit (ds @ c # t) = ds"
    "scan_fraction (c # t) = Some ([], c # t)" "scan_exponent (c # t) = Some ([], c # t)"
proof -
  have c: "\<not> is_digit c" using assms(2) by (auto simp: is_digit_def)
  show "takeWhile is_digit (ds @ c # t) = ds" using assms(1) c by (induction ds) simp_all
  show "scan_fraction (c # t) = Some ([], c # t)" "scan_exponent (c # t) = Some ([], c # t)"
    using assms(2) by (auto simp: scan_fraction_def scan_exponent_def)
qed

lemma scan_format_nat:
  assumes "0 \<le> n" and "c \<in> {CHR '','', CHR ''}''}"
  shows "scan_integer (format_nat n @ c # t) = format_nat n"
proof (cases "n = 0")
  case True
  have "format_nat 0 = ''0''" by code_simp
  with True show ?thesis by (simp add: scan_integer_def)
next
  case False
  then have "hd (format_nat n) \<noteq> CHR ''0''" using assms(1) by (intro format_nat_hd) simp
  moreover have "hd (format_nat n @ c # t) = hd (format_nat n)" by (simp add: hd_append)
  ultimately show ?thesis
    using digits_end(1)[OF format_nat_digits[OF assms(1)] assms(2)] by (simp add: scan_integer_def)
qed

lemma scan_FormatInt:
  assumes "c \<in> {CHR '','', CHR ''}''}"
  shows "scan_number (FormatInt i @ c # t) = Some (FormatInt i, c # t)"
proof -
  define n where "n = \<bar>i\<bar>"
  have n: "0 \<le> n" by (simp add: n_def)
  let ?s = "format_nat n @ c # t"
  have ds: "scan_integer ?s = format_nat n" by (rule scan_format_nat[OF n assms])
  have hd: "hd ?s \<noteq> CHR ''-''"
    using format_nat_digits[OF n] is_digit_not_sign by (cases "format_nat n") (auto simp: list_all_iff)
  note ends = digits_end(2,3)[OF format_nat_digits[OF n] assms, of t]
  show ?thesis
  proof (cases "i < 0")
    case True
    then have "FormatInt i = CHR ''-'' # format_nat n" by (simp add: FormatInt_def n_def)
    then show ?thesis using ds ends unfolding scan_number_def Let_def by simp
  next
    case False
    then have "FormatInt i = format_nat n" by (simp add: FormatInt_def n_def)
    then show ?thesis using ds ends hd unfolding scan_number_def Let_def by simp
  qed
qed

lemma FormatInt_hd: "hd (FormatInt i) = CHR ''-'' \<or> is_digit (hd (FormatInt i))"
  using format_nat_digits[of i] by (cases "format_nat i") (auto simp: FormatInt_def)

lemma FormatInt_reads: "reads_as (FormatInt i) (JNum (FormatInt i))"
proof -
  obtain h s where hs: "FormatInt i = h # s" by (cases "FormatInt i") simp_all
  have h: "h = CHR ''-'' \<or> is_digit h" using FormatInt_hd[of i] hs by simp
  then have "h \<noteq> CHR ''{''" "h \<noteq> CHR ''[''" "h \<noteq> CHR 0x22" "h \<noteq> CHR ''t''" "h \<noteq> CHR ''f''" "h \<noteq> CHR ''n''" "\<not> json_space h"
    by (auto simp: is_digit_def json_space_def)
  then show ?thesis
    using scan_FormatInt[of _ i] hs by (auto simp: reads_as_def parse_value.simps(2))
qed

text \<open>The text of a time holds nothing the encoder would have to escape.\<close>

definition time_char :: "char \<Rightarrow> bool" where
  "time_char c \<longleftrightarrow> is_digit c \<or> c \<in> {CHR ''-'', CHR '':'', CHR ''.'', CHR ''T'', CHR ''Z''}"

lemma time_char_plain: "time_char c \<Longrightarrow> escape c = [c]"
  by (auto simp: time_char_def is_digit_def escape_def Let_def)

lemma plain_escape: "list_all time_char s \<Longrightarrow> concat (map escape s) = s"
  by (induction s) (simp_all add: time_char_plain)

lemma pad_left_time: "list_all time_char s \<Longrightarrow> list_all time_char (pad_left k s)"
  by (auto simp: pad_left_def list_all_iff time_char_def is_digit_def)

lemma format_nat_time: "0 \<le> n \<Longrightarrow> list_all time_char (format_nat n)"
  using format_nat_digits[of n] by (auto simp: list_all_iff time_char_def)

lemma two_digits_time: "0 \<le> n \<Longrightarrow> list_all time_char (two_digits n)"
  by (simp add: two_digits_def pad_left_time format_nat_time)

lemma strip_zeros_set: "set (strip_zeros s) \<subseteq> set s"
  by (induction s) auto

lemma fmtFrac_time: "list_all time_char (fmtFrac v 9)"
proof -
  have "list_all time_char (pad_left 9 (format_nat (v mod 10 ^ 9)))"
    by (intro pad_left_time format_nat_time) simp
  then show ?thesis
    using strip_zeros_set[of "rev (pad_left 9 (format_nat (v mod 10 ^ 9)))"]
    by (auto simp: fmtFrac_def Let_def list_all_iff time_char_def)
qed

lemma list_all_butlast: "list_all P s \<Longrightarrow> list_all P (butlast s)"
  by (auto simp: list_all_iff dest: in_set_butlastD)

lemma FormatRFC3339_time:
  assumes "printable t"
  shows "list_all time_char (FormatRFC3339 t)"
proof -
  let ?s = "t div Second"
  obtain y yd where y: "year_of_day (?s div 86400) = (y, yd)" by (rule prod.exhaust)
  obtain m d where m: "month_of_yday (month_lengths y) 1 yd = (m, d)" by (rule prod.exhaust)
  have s: "0 \<le> ?s" "?s < 3652059 * 86400" using assms by (simp_all add: printable_def pos_imp_zdiv_nonneg_iff)
  then have "0 \<le> ?s div 86400" "?s div 86400 < 3652059"
    by (simp add: pos_imp_zdiv_nonneg_iff) (rule div_less_bound[OF s(2)], simp)
  then have "0 \<le> y" "0 \<le> m" "0 \<le> d" using year_range[OF y] day_of_date_of_day[OF y m] by auto
  then have "list_all time_char (pad_left 4 (format_nat y))" "list_all time_char (two_digits m)" "list_all time_char (two_digits d)"
    by (simp_all add: pad_left_time format_nat_time two_digits_time)
  moreover have "time_char CHR ''-''" "time_char CHR ''T''" "time_char CHR '':''" "time_char CHR ''Z''"
    by (simp_all add: time_char_def)
  ultimately show ?thesis
    by (simp add: FormatRFC3339_def Let_def y m two_digits_time pos_imp_zdiv_nonneg_iff)
qed

lemma time_literal_reads:
  assumes "printable t"
  shows "reads_as (time_literal t) (JStr (FormatRFC3339Nano t))"
proof -
  have "list_all time_char (FormatRFC3339Nano t)"
    using list_all_butlast[OF FormatRFC3339_time[OF assms]] fmtFrac_time
    by (simp add: FormatRFC3339Nano_def time_char_def)
  then have "concat (map escape (FormatRFC3339Nano t)) = FormatRFC3339Nano t"
    by (rule plain_escape)
  then show ?thesis using quote_reads[of "FormatRFC3339Nano t"] by (simp add: quote_def time_literal_def)
qed

text \<open>Decoding over keys that are already unquoted.\<close>

fun decode_named :: "(string \<times> json) list \<Rightarrow> RestartBudget \<Rightarrow> RestartBudget option" where
  "decode_named [] b = Some b"
| "decode_named ((key, v) # ms) b = (case decode_member key v b of None \<Rightarrow> None | Some b' \<Rightarrow> decode_named ms b')"

lemma decode_members_named:
  "decode_members (zip (map (\<lambda>kv. raw (fst kv)) kvs) vs) b = decode_named (zip (map fst kvs) vs) b"
proof (induction kvs arbitrary: vs b)
  case (Cons kv kvs)
  then show ?case by (cases vs) (simp_all add: unquote_quoted split: option.split)
qed simp

definition budget_storable :: "RestartBudget \<Rightarrow> bool" where
  "budget_storable b \<longleftrightarrow>
     minInt64 \<le> b_Count b \<and> b_Count b \<le> maxInt64 \<and> minInt64 \<le> b_LastNonce b \<and> b_LastNonce b \<le> maxInt64 \<and>
     printable (b_WindowStart b) \<and> printable (b_NextAfter b)"

lemma printable_jsonable: "printable t \<Longrightarrow> time_jsonable t"
proof -
  assume p: "printable t"
  then have "0 \<le> t div Second" by (simp add: printable_def pos_imp_zdiv_nonneg_iff)
  with p show ?thesis by (simp add: printable_def time_jsonable_def)
qed

definition budget_values :: "RestartBudget \<Rightarrow> json list" where
  "budget_values b =
     [JNum (FormatInt (b_Count b))] @
     (if IsZero (b_WindowStart b) then [] else [JStr (FormatRFC3339Nano (b_WindowStart b))]) @
     (if IsZero (b_NextAfter b) then [] else [JStr (FormatRFC3339Nano (b_NextAfter b))]) @
     (if b_LastNonce b = 0 then [] else [JNum (FormatInt (b_LastNonce b))])"

lemma decode_member_fields:
  "decode_member ''count'' v b = map_option (\<lambda>n. b\<lparr>b_Count := n\<rparr>) (decode_int (b_Count b) v)"
  "decode_member ''windowStart'' v b = map_option (\<lambda>t. b\<lparr>b_WindowStart := t\<rparr>) (decode_time (b_WindowStart b) v)"
  "decode_member ''nextAfter'' v b = map_option (\<lambda>t. b\<lparr>b_NextAfter := t\<rparr>) (decode_time (b_NextAfter b) v)"
  "decode_member ''lastNonce'' v b = map_option (\<lambda>n. b\<lparr>b_LastNonce := n\<rparr>) (decode_int (b_LastNonce b) v)"
  by (simp_all add: decode_member_def EqualFold_def lower_char_def)

lemma unmarshal_marshal_budget:
  assumes "budget_storable b"
  shows "unmarshal_budget (marshal_budget b) = Some b"
proof -
  have ok: "time_jsonable (b_WindowStart b)" "time_jsonable (b_NextAfter b)"
    using assms by (simp_all add: budget_storable_def printable_jsonable)
  have "list_all2 (\<lambda>kv v. reads_as (snd kv) v) (budget_members b) (budget_values b)"
    using assms by (simp add: budget_members_def budget_values_def FormatInt_reads time_literal_reads budget_storable_def)
  from json_parse_object[OF this]
  have "unmarshal_budget (marshal_budget b) = decode_named (zip (map fst (budget_members b)) (budget_values b)) zero_budget"
    using ok by (simp add: unmarshal_budget_def marshal_budget_def decode_members_named)
  moreover have "ParseInt (FormatInt (b_Count b)) = (b_Count b, True)"
    "ParseInt (FormatInt (b_LastNonce b)) = (b_LastNonce b, True)"
    "ParseRFC3339 (FormatRFC3339Nano (b_WindowStart b)) = Some (b_WindowStart b)"
    "ParseRFC3339 (FormatRFC3339Nano (b_NextAfter b)) = Some (b_NextAfter b)"
    using assms by (simp_all add: budget_storable_def ParseInt_FormatInt ParseRFC3339_Nano)
  ultimately show ?thesis
    by (cases b) (simp add: budget_members_def budget_values_def decode_member_fields zero_budget_def)
qed

section \<open>Memory round trips\<close>

definition whole_second :: "time \<Rightarrow> time" where
  "whole_second t = t div Second * Second"

text \<open>Memory as it comes back: every clock cut to the second, the budget's clocks exact.\<close>

definition stored :: "State \<Rightarrow> State" where
  "stored s =
     s\<lparr>s_LastActivityAt := whole_second (s_LastActivityAt s), s_SuspendedAt := whole_second (s_SuspendedAt s),
       s_AwakeSince := whole_second (s_AwakeSince s), s_ResumedAt := whole_second (s_ResumedAt s),
       s_Outage := (s_Outage s)\<lparr>o_Since := whole_second (o_Since (s_Outage s))\<rparr>,
       s_RestartingSince := whole_second (s_RestartingSince s)\<rparr>"

definition storable :: "State \<Rightarrow> bool" where
  "storable s \<longleftrightarrow>
     printable (s_LastActivityAt s) \<and> printable (s_SuspendedAt s) \<and> printable (s_AwakeSince s) \<and>
     printable (s_ResumedAt s) \<and> printable (o_Since (s_Outage s)) \<and> printable (s_RestartingSince s) \<and>
     budget_storable (s_Restarts s) \<and>
     minInt64 \<le> s_Generation s \<and> s_Generation s \<le> maxInt64 \<and> minInt64 \<le> s_Pending s \<and> s_Pending s \<le> maxInt64 \<and>
     list_all (\<lambda>t. t \<noteq> [] \<and> CHR '','' \<notin> set t) (s_Sources s)"

lemma parseTime_formatTime: "printable t \<Longrightarrow> parseTime (formatTime t) = Some (whole_second t)"
proof -
  assume "printable t"
  moreover have "FormatRFC3339 t \<noteq> []" by (simp add: FormatRFC3339_def Let_def split: prod.split)
  ultimately show ?thesis
    by (auto simp: parseTime_def formatTime_def whole_second_def ParseRFC3339_Format)
qed

lemma sources_roundtrip:
  assumes "list_all (\<lambda>t. t \<noteq> [] \<and> CHR '','' \<notin> set t) ts"
  shows "filter (\<lambda>t. t \<noteq> []) (Split CHR '','' (Join ts '','')) = ts"
proof (cases "ts = []")
  case True
  then show ?thesis by simp
next
  case False
  with assms have "Split CHR '','' (Join ts '','') = ts" by (intro Split_Join) (auto simp: list_all_iff)
  with assms show ?thesis by (auto simp: list_all_iff filter_id_conv)
qed

lemma marshal_nonempty: "marshal_map m \<noteq> []" "budget_storable b \<Longrightarrow> marshal_budget b \<noteq> []"
  by (simp_all add: marshal_map_def marshal_budget_def budget_storable_def printable_jsonable)

lemma Data_lookup:
  "map_of (Data s) ''state'' = Some (s_Phase s)" "get_str (Data s) ''reason'' = s_Reason s"
  "get_str (Data s) ''offsets'' = marshal_map (s_Snapshot s)" "get_str (Data s) ''restarts'' = marshal_budget (s_Restarts s)"
  "get_str (Data s) ''last-activity-at'' = formatTime (s_LastActivityAt s)"
  "get_str (Data s) ''suspended-at'' = formatTime (s_SuspendedAt s)"
  "get_str (Data s) ''awake-since'' = formatTime (s_AwakeSince s)" "get_str (Data s) ''resumed-at'' = formatTime (s_ResumedAt s)"
  "get_str (Data s) ''source-down-since'' = formatTime (o_Since (s_Outage s))"
  "get_str (Data s) ''restarting-since'' = formatTime (s_RestartingSince s)"
  "get_str (Data s) ''generation'' = FormatInt (s_Generation s)" "get_str (Data s) ''pending'' = FormatInt (s_Pending s)"
  "get_str (Data s) ''source-down'' = FormatBool (o_Down (s_Outage s))"
  "get_str (Data s) ''suspend-checked'' = FormatBool (r_SuspendChecked (s_Reported s))"
  "get_str (Data s) ''resume-stalled'' = FormatBool (r_ResumeStalled (s_Reported s))"
  "get_str (Data s) ''suspend-stalled'' = FormatBool (r_SuspendStalled (s_Reported s))"
  "get_str (Data s) ''sources-checked'' = r_SourcesChecked (s_Reported s)"
  "get_str (Data s) ''sources'' = Join (s_Sources s) '',''" "get_str (Data s) ''refresh-wake'' = FormatBool (s_RefreshWake s)"
  by (simp_all add: Data_def get_str_def)

lemma FromData_of_Data:
  assumes "storable s"
  obtains m where "FromData (Data s) = Some ((stored s)\<lparr>s_Snapshot := m\<rparr>)" "map_of m = map_of (s_Snapshot s)"
proof -
  obtain m where m: "unmarshal_map (marshal_map (s_Snapshot s)) = Some m" "map_of m = map_of (s_Snapshot s)"
    by (rule unmarshal_marshal_map)
  have t: "parseTime (formatTime (s_LastActivityAt s)) = Some (whole_second (s_LastActivityAt s))"
    "parseTime (formatTime (s_SuspendedAt s)) = Some (whole_second (s_SuspendedAt s))"
    "parseTime (formatTime (s_AwakeSince s)) = Some (whole_second (s_AwakeSince s))"
    "parseTime (formatTime (s_ResumedAt s)) = Some (whole_second (s_ResumedAt s))"
    "parseTime (formatTime (o_Since (s_Outage s))) = Some (whole_second (o_Since (s_Outage s)))"
    "parseTime (formatTime (s_RestartingSince s)) = Some (whole_second (s_RestartingSince s))"
    using assms by (simp_all add: storable_def parseTime_formatTime)
  have b: "unmarshal_budget (marshal_budget (s_Restarts s)) = Some (s_Restarts s)" "marshal_budget (s_Restarts s) \<noteq> []"
    using assms by (simp_all add: storable_def unmarshal_marshal_budget marshal_nonempty)
  have n: "ParseInt (FormatInt (s_Generation s)) = (s_Generation s, True)" "ParseInt (FormatInt (s_Pending s)) = (s_Pending s, True)"
    using assms by (simp_all add: storable_def ParseInt_FormatInt)
  have src: "filter (\<lambda>t. t \<noteq> []) (Split CHR '','' (Join (s_Sources s) '','')) = s_Sources s"
    using assms by (intro sources_roundtrip) (simp add: storable_def)
  have "FromData (Data s) = Some ((stored s)\<lparr>s_Snapshot := m\<rparr>)"
    unfolding FromData_def read_clocks_def Data_lookup Let_def
    by (cases s, cases "s_Outage s", cases "s_Reported s")
       (use t b n src m marshal_nonempty(1) in \<open>simp add: stored_def zero_state_def zero_outage_def\<close>)
  with m(2) show ?thesis by (intro that)
qed

text \<open>
  Memory survives the store. Writing memory to the ConfigMap and reading it back gives the
  same memory: phase, reason, offsets, sources, flags, generation and the whole restart budget
  exactly, and the six clocks cut to the second, never later and less than a second earlier.
\<close>

theorem FromData_Data:
  assumes "storable s"
  shows "\<exists>s'. FromData (Data s) = Some s' \<and> maps_equal (s_Snapshot s') (s_Snapshot s) \<and>
     s'\<lparr>s_Snapshot := s_Snapshot s\<rparr> = stored s \<and>
     whole_second (s_LastActivityAt s) \<in> {s_LastActivityAt s - Second <.. s_LastActivityAt s}"
proof -
  obtain m where m: "FromData (Data s) = Some ((stored s)\<lparr>s_Snapshot := m\<rparr>)" "map_of m = map_of (s_Snapshot s)"
    using assms by (rule FromData_of_Data)
  moreover have "whole_second t \<in> {t - Second <.. t}" for t
    unfolding whole_second_def greaterThanAtMost_iff
    using div_mult_mod_eq[of t Second] pos_mod_sign[of Second t] pos_mod_bound[of Second t] by linarith
  ultimately show ?thesis by (auto simp: maps_equal_iff stored_def)
qed

definition stored_ex :: State where
  "stored_ex = (Initial (63900000000 * Second + 500))\<lparr>s_Snapshot := [(''orders'', ''8812,8790''), (''a<b'', ''1'')],
     s_Sources := [''orders'', ''payments''], s_RefreshWake := True,
     s_Restarts := \<lparr>b_Count = 2, b_WindowStart = 63899999000 * Second + 7, b_NextAfter = 63900000060 * Second, b_LastNonce = 1764403200000\<rparr>\<rparr>"

definition clock_keys :: "string list" where
  "clock_keys = [''last-activity-at'', ''suspended-at'', ''awake-since'', ''resumed-at'', ''source-down-since'', ''restarting-since'']"

text \<open>
  C34. Memory that cannot be read is not used. A ConfigMap gives memory exactly if it has the
  state key, its offsets and its restarts are absent or valid, and all six timestamps are
  absent or valid: a damaged clock makes the whole memory unusable instead of reading as zero.
\<close>

theorem FromData_usable_iff:
  "(\<exists>s. FromData d = Some s) \<longleftrightarrow>
     has_key d ''state'' \<and>
     (get_str d ''offsets'' = [] \<or> (\<exists>m. unmarshal_map (get_str d ''offsets'') = Some m)) \<and>
     (get_str d ''restarts'' = [] \<or> (\<exists>b. unmarshal_budget (get_str d ''restarts'') = Some b)) \<and>
     list_all (\<lambda>k. \<exists>t. parseTime (get_str d k) = Some t) clock_keys"
proof -
  let ?ok = "list_all (\<lambda>k. \<exists>t. parseTime (get_str d k) = Some t) clock_keys"
  have clocks: "(read_clocks d s = None) = (\<not> ?ok)" for s
    by (auto simp: read_clocks_def clock_keys_def split: option.split)
  then have "\<not> ?ok" if "read_clocks d s = None" for s using that by blast
  moreover have "?ok" if "read_clocks d s = Some s'" for s s'
    using clocks[of s] unfolding that by simp
  ultimately show ?thesis
    by (auto simp: FromData_def has_key_def Let_def split: option.splits if_splits)
qed

end
