(* ===== verification/Kube.thy ===== *)
theory Kube
  imports Flink Codec Probe
begin

text \<open>
  The Kubernetes API as the controller uses it. The client libraries and the API server are not
  part of the repository: their calls are the fields of a record over an abstract world, each
  given the world and returning the world after it, so that anything may happen between two
  calls. What a property relies on of them is a hypothesis of that property.
\<close>

section \<open>Objects other than the deployment\<close>

type_synonym key = "string \<times> string"

abbreviation object_key :: "Object \<Rightarrow> key" where
  "object_key fd \<equiv> (u_Namespace fd, u_Name fd)"

record OwnerReference =
  ow_APIVersion :: string
  ow_Kind :: string
  ow_Name :: string
  ow_UID :: string
  ow_Controller :: bool
  ow_BlockOwnerDeletion :: bool

record ConfigMap =
  cm_Namespace :: string
  cm_Name :: string
  cm_Labels :: "(string, string) gomap"
  cm_Owners :: "OwnerReference list"
  cm_Data :: "(string, string) gomap"

abbreviation cm_key :: "ConfigMap \<Rightarrow> key" where
  "cm_key cm \<equiv> (cm_Namespace cm, cm_Name cm)"

text \<open>The body of a merge patch on a deployment; None is JSON null, which removes the key.\<close>

datatype SpecPatch = JobState string | RestartNonce int

record MergePatch =
  mp_Annotations :: "(string, string option) gomap"
  mp_ResourceVersion :: string
  mp_Spec :: "SpecPatch option"

section \<open>The calls\<close>

text \<open>
  \<open>k_Get\<close> is the cached client, \<open>k_Read\<close> the uncached reader; \<open>k_PatchCM\<close> gets the object the
  merge patch is computed from and the one it leads to; create and patch return what the
  server answered, which the client writes back into the caller's object.
\<close>

record 'w Kube =
  k_Get :: "'w \<Rightarrow> key \<Rightarrow> 'w \<times> (goerr + Object)"
  k_Read :: "'w \<Rightarrow> key \<Rightarrow> 'w \<times> (goerr + Object)"
  k_Patch :: "'w \<Rightarrow> Object \<Rightarrow> MergePatch \<Rightarrow> 'w \<times> goerr option"
  k_ReadCM :: "'w \<Rightarrow> key \<Rightarrow> 'w \<times> (goerr + ConfigMap)"
  k_CreateCM :: "'w \<Rightarrow> ConfigMap \<Rightarrow> 'w \<times> (goerr + ConfigMap)"
  k_PatchCM :: "'w \<Rightarrow> ConfigMap \<Rightarrow> ConfigMap \<Rightarrow> 'w \<times> (goerr + ConfigMap)"
  k_DeleteCM :: "'w \<Rightarrow> key \<Rightarrow> 'w \<times> goerr option"

section \<open>Caches\<close>

text \<open>
  The interface of the process' caches (\<open>store.Seen\<close> and the two maps of the reconciler's
  \<open>memo\<close>): what a lookup finds after a write and after a removal.
\<close>

locale cache =
  fixes get :: "'k \<Rightarrow> 'c \<Rightarrow> 'v option"
    and put :: "'k \<Rightarrow> 'v \<Rightarrow> 'c \<Rightarrow> 'c"
    and remove :: "'k \<Rightarrow> 'c \<Rightarrow> 'c"
  assumes get_put: "get k' (put k v c) = (if k' = k then Some v else get k' c)"
    and get_remove: "get k' (remove k c) = (if k' = k then None else get k' c)"
begin

text \<open>The caches are used through sequences of writes and removals; the last one on a key decides.\<close>

lemma get_put_same: "get k (put k v c) = Some v"
  by (simp add: get_put)

lemma get_after:
  "get k (fold (\<lambda>(k', v). case v of None \<Rightarrow> remove k' | Some x \<Rightarrow> put k' x) ops c) =
     (case map_of (rev ops) k of None \<Rightarrow> get k c | Some v \<Rightarrow> v)"
proof (induction ops arbitrary: c)
  case (Cons op ops)
  obtain k' v where "op = (k', v)" by (rule prod.exhaust)
  then show ?case
    using Cons by (cases v) (auto simp: get_put get_remove map_add_def split: option.split)
qed simp

end

interpretation gm: cache "\<lambda>k m. map_of m k" map_put map_delete
  by unfold_locales auto

end
