(* ===== verification/Store.thy ===== *)
theory Store
  imports Kube
begin

text \<open>
  The store of memory (\<open>src/internal/store/store.go\<close>): one ConfigMap per deployment, owned by it,
  with a cache of the last version read or written.
\<close>

section \<open>The cache\<close>

text \<open>What the store works on: the world and the cache. \<open>on\<close> says whether there is a cache at all.\<close>

record 'w StoreState =
  ss_world :: 'w
  ss_seen :: "(key, ConfigMap) gomap"

definition seen_get :: "bool \<Rightarrow> key \<Rightarrow> ('w, 'm) StoreState_scheme \<Rightarrow> ConfigMap option" where
  "seen_get on k ss = (if \<not> on then None else map_of (ss_seen ss) k)"

definition seen_put :: "bool \<Rightarrow> ConfigMap \<Rightarrow> ('w, 'm) StoreState_scheme \<Rightarrow> ('w, 'm) StoreState_scheme" where
  "seen_put on cm ss = (if on then ss\<lparr>ss_seen := map_put (cm_key cm) cm (ss_seen ss)\<rparr> else ss)"

definition seen_drop :: "bool \<Rightarrow> key \<Rightarrow> ('w, 'm) StoreState_scheme \<Rightarrow> ('w, 'm) StoreState_scheme" where
  "seen_drop on k ss = (if on then ss\<lparr>ss_seen := map_delete k (ss_seen ss)\<rparr> else ss)"

section \<open>Names and owners\<close>

definition Name :: "string \<Rightarrow> string" where
  "Name deployment = ''siesta-'' @ deployment"

definition store_key :: "Object \<Rightarrow> key" where
  "store_key fd = (u_Namespace fd, Name (u_Name fd))"

definition Forget :: "bool \<Rightarrow> string \<Rightarrow> string \<Rightarrow> ('w, 'm) StoreState_scheme \<Rightarrow> ('w, 'm) StoreState_scheme" where
  "Forget on namespace deployment ss = seen_drop on (namespace, Name deployment) ss"

definition ownedBy :: "ConfigMap \<Rightarrow> Object \<Rightarrow> bool" where
  "ownedBy cm fd \<longleftrightarrow> list_ex (\<lambda>o'. ow_UID o' = u_UID fd) (cm_Owners cm)"

section \<open>Load and Delete\<close>

text \<open>The state, or None when none was found.\<close>

definition Load ::
  "'w Kube \<Rightarrow> bool \<Rightarrow> Object \<Rightarrow> ('w, 'm) StoreState_scheme \<Rightarrow> ('w, 'm) StoreState_scheme \<times> (goerr + State option)" where
  "Load kube on fd ss =
     (case k_ReadCM kube (ss_world ss) (store_key fd) of (w, r) \<Rightarrow>
        let ss1 = ss\<lparr>ss_world := w\<rparr>
        in case r of
             Inr cm \<Rightarrow>
               let ss2 = seen_put on cm ss1
               in if \<not> ownedBy cm fd then (ss2, Inr None) else (ss2, Inr (FromData (cm_Data cm)))
           | Inl e \<Rightarrow>
               if e_NotFound e then (seen_drop on (store_key fd) ss1, Inr None)
               else (ss1, Inl (wrap_error ''load state'' e)))"

definition IgnoreNotFound :: "goerr option \<Rightarrow> goerr option" where
  "IgnoreNotFound err = (case err of None \<Rightarrow> None | Some e \<Rightarrow> if e_NotFound e then None else Some e)"

definition Delete ::
  "'w Kube \<Rightarrow> bool \<Rightarrow> Object \<Rightarrow> ('w, 'm) StoreState_scheme \<Rightarrow> ('w, 'm) StoreState_scheme \<times> goerr option" where
  "Delete kube on fd ss =
     (let ss1 = seen_drop on (store_key fd) ss
      in case k_DeleteCM kube (ss_world ss1) (store_key fd) of (w, err) \<Rightarrow>
           (ss1\<lparr>ss_world := w\<rparr>, IgnoreNotFound err))"

section \<open>Save\<close>

text \<open>
  The first part of \<open>Save\<close>, from the cached version: the returned error, or None when the call
  goes on to read the ConfigMap.
\<close>

definition save_seen ::
  "'w Kube \<Rightarrow> bool \<Rightarrow> Object \<Rightarrow> (string, string) gomap \<Rightarrow> ('w, 'm) StoreState_scheme \<Rightarrow>
     ('w, 'm) StoreState_scheme \<times> goerr option option" where
  "save_seen kube on fd data ss =
     (case seen_get on (store_key fd) ss of
        None \<Rightarrow> (ss, None)
      | Some cached \<Rightarrow>
        if \<not> ownedBy cached fd then (ss, None)
        else if maps_equal (cm_Data cached) data then (ss, Some None)
        else case k_PatchCM kube (ss_world ss) cached (cached\<lparr>cm_Data := data\<rparr>) of (w, r) \<Rightarrow>
          let ss1 = ss\<lparr>ss_world := w\<rparr>
          in case r of
               Inr cm \<Rightarrow> (seen_put on cm ss1, Some None)
             | Inl e \<Rightarrow> if \<not> e_NotFound e then (ss1, Some (Some (wrap_error ''save state'' e)))
                       else (seen_drop on (store_key fd) ss1, None))"

definition new_configmap :: "Object \<Rightarrow> (string, string) gomap \<Rightarrow> ConfigMap" where
  "new_configmap fd data =
     \<lparr>cm_Namespace = u_Namespace fd, cm_Name = Name (u_Name fd),
      cm_Labels = [(''app.kubernetes.io/managed-by'', ''flink-siesta'')],
      cm_Owners = [\<lparr>ow_APIVersion = u_APIVersion fd, ow_Kind = u_Kind fd, ow_Name = u_Name fd, ow_UID = u_UID fd,
                    ow_Controller = True, ow_BlockOwnerDeletion = True\<rparr>],
      cm_Data = data\<rparr>"

datatype save_next = Returned "goerr option" | SaveAgain

text \<open>The rest: read, then create, replace a dead deployment's ConfigMap, or patch.\<close>

definition save_read ::
  "'w Kube \<Rightarrow> bool \<Rightarrow> Object \<Rightarrow> (string, string) gomap \<Rightarrow> ('w, 'm) StoreState_scheme \<Rightarrow>
     ('w, 'm) StoreState_scheme \<times> save_next" where
  "save_read kube on fd data ss =
     (case k_ReadCM kube (ss_world ss) (store_key fd) of (w, r) \<Rightarrow>
        let ss1 = ss\<lparr>ss_world := w\<rparr>
        in case r of
             Inl e \<Rightarrow>
               if \<not> e_NotFound e then (ss1, Returned (Some (wrap_error ''save state'' e)))
               else (case k_CreateCM kube (ss_world ss1) (new_configmap fd data) of (w2, r2) \<Rightarrow>
                       (case r2 of
                          Inl e2 \<Rightarrow> (ss1\<lparr>ss_world := w2\<rparr>, Returned (Some e2))
                        | Inr cm \<Rightarrow> (seen_put on cm (ss1\<lparr>ss_world := w2\<rparr>), Returned None)))
           | Inr cm \<Rightarrow>
               if \<not> ownedBy cm fd then
                 (case k_DeleteCM kube (ss_world ss1) (cm_key cm) of (w2, err) \<Rightarrow>
                    (case IgnoreNotFound err of
                       Some e \<Rightarrow> (ss1\<lparr>ss_world := w2\<rparr>, Returned (Some (wrap_error ''replace stale state'' e)))
                     | None \<Rightarrow> (ss1\<lparr>ss_world := w2\<rparr>, SaveAgain)))
               else if maps_equal (cm_Data cm) data then (ss1, Returned None)
               else (case k_PatchCM kube (ss_world ss1) cm (cm\<lparr>cm_Data := data\<rparr>) of (w2, r2) \<Rightarrow>
                       (case r2 of
                          Inl e2 \<Rightarrow> (ss1\<lparr>ss_world := w2\<rparr>, Returned (Some e2))
                        | Inr cm2 \<Rightarrow> (seen_put on cm2 (ss1\<lparr>ss_world := w2\<rparr>), Returned None))))"

text \<open>
  \<open>Save\<close> calls itself after it deleted a stale ConfigMap; a server that keeps answering with
  stale ones would keep it running, so the result is an option.
\<close>

partial_function (option) Save ::
  "'w Kube \<Rightarrow> bool \<Rightarrow> Object \<Rightarrow> State \<Rightarrow> ('w, 'm) StoreState_scheme \<Rightarrow>
     (('w, 'm) StoreState_scheme \<times> goerr option) option" where
  "Save kube on fd st ss =
     (case save_seen kube on fd (Data st) ss of (ss1, early) \<Rightarrow>
        (case early of
           Some err \<Rightarrow> Some (ss1, err)
         | None \<Rightarrow>
           (case save_read kube on fd (Data st) ss1 of (ss2, then_what) \<Rightarrow>
              (case then_what of
                 Returned err \<Rightarrow> Some (ss2, err)
               | SaveAgain \<Rightarrow> Save kube on fd st ss2))))"

declare Save.simps [code]

end
