(* ===== verification/Proc.thy ===== *)
theory Proc
  imports Store
begin

text \<open>
  The process around a tick: what it keeps between ticks besides the store's cache (the
  reconciler's \<open>memo\<close>), and what it says to the outside without being answered, which is the
  events on the deployment, the metrics and the log, kept in the order they are said. The memo's
  key is the request's text \<open>namespace/name\<close>; a namespace has no slash, so the pair stands for it.
\<close>

section \<open>What is said\<close>

datatype LogValue = LStr string | LBool bool | LInt int

text \<open>
  One constructor per metric of \<open>src/internal/metrics/metrics.go\<close> that a tick sets. Durations
  are kept as such, the division into seconds belongs to the rendering; \<open>Released\<close> says whether
  the two gauges of released resources are set from the deployment's footprint or to zero.
\<close>

datatype Effect =
    Event string string string string
  | LogDecided "(string \<times> LogValue) list"
  | LogCouldNotAsk string string
  | ProbeErrors string
  | ProbeDuration string
  | SetState key string
  | SetHeld key string
  | SetWouldAct key string
  | Transitions key string
  | ResumeLatency duration
  | SuspendedSeconds key duration
  | Released key bool
  | SuspendedSince key int
  | IdleSeconds key duration
  | ForgetMetrics key

section \<open>What is kept\<close>

record Sources =
  sr_Topics :: "string list"
  sr_Vertices :: "string list"

definition zero_sources :: Sources where
  "zero_sources = \<lparr>sr_Topics = [], sr_Vertices = []\<rparr>"

record cachedJob =
  cj_id :: string
  cj_src :: Sources
  cj_attempts :: int
  cj_since :: time
  cj_last :: time

definition zero_cachedJob :: cachedJob where
  "zero_cachedJob = \<lparr>cj_id = [], cj_src = zero_sources, cj_attempts = 0, cj_since = zero_time, cj_last = zero_time\<rparr>"

record 'w Proc = "'w StoreState" +
  pr_log :: "Effect list"
  pr_jobs :: "(key, cachedJob) gomap"
  pr_ticks :: "(key, time) gomap"

definition say :: "Effect \<Rightarrow> 'w Proc \<Rightarrow> 'w Proc" where
  "say e s = s\<lparr>pr_log := pr_log s @ [e]\<rparr>"

definition memo_job :: "key \<Rightarrow> 'w Proc \<Rightarrow> cachedJob option" where
  "memo_job k s = map_of (pr_jobs s) k"

definition setJob :: "key \<Rightarrow> cachedJob \<Rightarrow> 'w Proc \<Rightarrow> 'w Proc" where
  "setJob k c s = s\<lparr>pr_jobs := map_put k c (pr_jobs s)\<rparr>"

text \<open>The time of the last tick, now recorded as this one, and the previous value.\<close>

definition memo_tick :: "key \<Rightarrow> time \<Rightarrow> 'w Proc \<Rightarrow> 'w Proc \<times> time option" where
  "memo_tick k now s = (s\<lparr>pr_ticks := map_put k now (pr_ticks s)\<rparr>, map_of (pr_ticks s) k)"

definition memo_forget :: "key \<Rightarrow> 'w Proc \<Rightarrow> 'w Proc" where
  "memo_forget k s = s\<lparr>pr_jobs := map_delete k (pr_jobs s), pr_ticks := map_delete k (pr_ticks s)\<rparr>"

lemma say_sel [simp]:
  "ss_world (say e s) = ss_world s" "ss_seen (say e s) = ss_seen s" "pr_log (say e s) = pr_log s @ [e]"
  "pr_jobs (say e s) = pr_jobs s" "pr_ticks (say e s) = pr_ticks s"
  by (simp_all add: say_def)

end
