(* ===== verification/Patcher.thy ===== *)
theory Patcher
  imports Proc
begin

text \<open>
  The writes on the deployment (\<open>src/internal/controller/patcher.go\<close>): one merge patch with the
  two annotations and, for an action, the spec field; conditional on the resource version,
  retried once after a conflict unless the job's desired state changed. The object that is
  patched is refreshed in place by the client; only its identity is used afterwards, which a
  patch does not change.
\<close>

record 'w patcher =
  pt_Client :: "'w Kube"
  pt_Reader :: bool
  pt_Prefix :: string
  pt_Recorder :: bool

section \<open>Quoted strings\<close>

text \<open>\<open>%q\<close> of a string; bytes beyond ASCII are taken as parts of printable characters.\<close>

definition go_escape :: "char \<Rightarrow> string" where
  "go_escape c =
     (let n = of_char c :: int in
      if c = CHR 0x22 \<or> c = CHR 0x5C then [CHR 0x5C, c]
      else if n = 7 then [CHR 0x5C, CHR ''a'']
      else if n = 8 then [CHR 0x5C, CHR ''b'']
      else if n = 12 then [CHR 0x5C, CHR ''f'']
      else if n = 10 then [CHR 0x5C, CHR ''n'']
      else if n = 13 then [CHR 0x5C, CHR ''r'']
      else if n = 9 then [CHR 0x5C, CHR ''t'']
      else if n = 11 then [CHR 0x5C, CHR ''v'']
      else if n < 32 \<or> n = 127 then [CHR 0x5C, CHR ''x'', hex_digit (n div 16), hex_digit (n mod 16)]
      else [c])"

definition go_quote :: "string \<Rightarrow> string" where
  "go_quote s = [CHR 0x22] @ concat (map go_escape s) @ [CHR 0x22]"

section \<open>The merge\<close>

definition patch_body :: "'w patcher \<Rightarrow> State \<Rightarrow> string \<Rightarrow> SpecPatch option \<Rightarrow> MergePatch" where
  "patch_body p s rv spec =
     \<lparr>mp_Annotations = map (\<lambda>(k, v). (k, if v = [] then None else Some v)) (Annotations s (pt_Prefix p)),
      mp_ResourceVersion = rv, mp_Spec = spec\<rparr>"

definition merge :: "'w patcher \<Rightarrow> Object \<Rightarrow> State \<Rightarrow> SpecPatch option \<Rightarrow> 'w Proc \<Rightarrow> 'w Proc \<times> goerr option" where
  "merge p fd s spec ps =
     (case k_Patch (pt_Client p) (ss_world ps) fd (patch_body p s (u_ResourceVersion fd) spec) of (w1, err) \<Rightarrow>
        let ps1 = ps\<lparr>ss_world := w1\<rparr>
        in case err of
             None \<Rightarrow> (ps1, None)
           | Some e \<Rightarrow>
             if \<not> e_Conflict e \<or> \<not> pt_Reader p then (ps1, Some e)
             else (case k_Read (pt_Client p) w1 (object_key fd) of (w2, r) \<Rightarrow>
               let ps2 = ps1\<lparr>ss_world := w2\<rparr>
               in case r of
                    Inl e2 \<Rightarrow> (ps2, Some e2)
                  | Inr fresh \<Rightarrow>
                    let was = u_NestedString fd spec_job_state;
                        is' = u_NestedString fresh spec_job_state
                    in if was \<noteq> is'
                       then (ps2, Some (wrap_error (''spec.job.state changed from '' @ go_quote was @ '' to '' @ go_quote is' @
                                          '' while deciding'') e))
                       else (case k_Patch (pt_Client p) w2 fresh (patch_body p s (u_ResourceVersion fresh) spec) of
                               (w3, err3) \<Rightarrow> (ps2\<lparr>ss_world := w3\<rparr>, err3))))"

text \<open>Does every annotation already have its value? An absent one reads as empty.\<close>

definition annotate :: "'w patcher \<Rightarrow> Object \<Rightarrow> State \<Rightarrow> 'w Proc \<Rightarrow> 'w Proc \<times> goerr option" where
  "annotate p fd s ps =
     (if list_all (\<lambda>(k, v). get_str (u_Annotations fd) k = v) (Annotations s (pt_Prefix p)) then (ps, None)
      else merge p fd s None ps)"

section \<open>Events and actions\<close>

definition recorded :: "'w patcher \<Rightarrow> Effect \<Rightarrow> 'w Proc \<Rightarrow> 'w Proc" where
  "recorded p e ps = (if pt_Recorder p then say e ps else ps)"

definition patch_event :: "'w patcher \<Rightarrow> goerr option \<Rightarrow> string \<Rightarrow> string \<Rightarrow> 'w Proc \<Rightarrow> 'w Proc" where
  "patch_event p err action note ps =
     (case err of
        Some e \<Rightarrow> recorded p (Event ''Warning'' (action @ ''Failed'') action (e_Msg e)) ps
      | None \<Rightarrow> recorded p (Event ''Normal'' action action note) ps)"

definition suspend :: "'w patcher \<Rightarrow> Object \<Rightarrow> State \<Rightarrow> string \<Rightarrow> 'w Proc \<Rightarrow> 'w Proc \<times> goerr option" where
  "suspend p fd s reason ps =
     (case merge p fd s (Some (JobState ''suspended'')) ps of (ps1, err) \<Rightarrow> (patch_event p err ''Suspended'' reason ps1, err))"

definition resume :: "'w patcher \<Rightarrow> Object \<Rightarrow> State \<Rightarrow> string \<Rightarrow> 'w Proc \<Rightarrow> 'w Proc \<times> goerr option" where
  "resume p fd s reason ps =
     (case merge p fd s (Some (JobState ''running'')) ps of (ps1, err) \<Rightarrow> (patch_event p err ''Resumed'' reason ps1, err))"

definition restart :: "'w patcher \<Rightarrow> Object \<Rightarrow> State \<Rightarrow> string \<Rightarrow> 'w Proc \<Rightarrow> 'w Proc \<times> goerr option" where
  "restart p fd s reason ps =
     (case merge p fd s (Some (RestartNonce (b_LastNonce (s_Restarts s)))) ps of (ps1, err) \<Rightarrow>
        (patch_event p err ''Restarted'' reason ps1, err))"

definition refuse :: "'w patcher \<Rightarrow> Object \<Rightarrow> State \<Rightarrow> string \<Rightarrow> 'w Proc \<Rightarrow> 'w Proc \<times> goerr option" where
  "refuse p fd s reason ps =
     (case annotate p fd s ps of (ps1, err) \<Rightarrow> (recorded p (Event ''Warning'' ''Refused'' ''Suspend'' reason) ps1, err))"

definition markUnrecoverable :: "'w patcher \<Rightarrow> Object \<Rightarrow> State \<Rightarrow> string \<Rightarrow> 'w Proc \<Rightarrow> 'w Proc \<times> goerr option" where
  "markUnrecoverable p fd s reason ps =
     (case annotate p fd s ps of (ps1, err) \<Rightarrow>
        (recorded p (Event ''Warning'' ''Unrecoverable'' ''MarkUnrecoverable'' reason) ps1, err))"

definition clear :: "'w patcher \<Rightarrow> Object \<Rightarrow> 'w Proc \<Rightarrow> 'w Proc \<times> goerr option" where
  "clear p fd ps = merge p fd zero_state None ps"

end
