(* ===== verification/Reconciler.thy ===== *)
theory Reconciler
  imports Patcher
begin

text \<open>
  One tick for one deployment (\<open>src/internal/controller/reconciler.go\<close>): load memory, observe
  the broker and the job, decide, report, act. The probes are the interfaces of the source;
  each call takes the world and returns it, like the calls of the API server. The bounds in
  time that contexts put on the calls are part of what a call may return.
\<close>

section \<open>The reconciler\<close>

record 'w JobProbe =
  jp_Sources :: "'w \<Rightarrow> string \<Rightarrow> string \<Rightarrow> string \<Rightarrow> 'w \<times> Sources \<times> goerr option"
  jp_Read :: "'w \<Rightarrow> string \<Rightarrow> string \<Rightarrow> string \<Rightarrow> Sources \<Rightarrow> 'w \<times> JobReading \<times> goerr option"

record 'w Reconciler =
  rc_Client :: "'w Kube"
  rc_Prefix :: string
  rc_DryRun :: bool
  rc_Probe :: "'w \<Rightarrow> string list \<Rightarrow> 'w \<times> Offsets \<times> goerr option"
  rc_Lag :: "('w \<Rightarrow> string \<Rightarrow> (string, int list) gomap \<Rightarrow> 'w \<times> int \<times> goerr option) option"
  rc_Flink :: "'w JobProbe option"
  rc_Gaps :: "('w \<Rightarrow> string \<Rightarrow> int \<Rightarrow> int \<Rightarrow> int \<Rightarrow> 'w \<times> bool \<times> goerr option) option"
  rc_Decider :: Decider
  rc_Recorder :: bool
  rc_Now :: "'w \<Rightarrow> time"
  rc_Reader :: bool
  rc_Seen :: bool
  rc_PollInterval :: duration
  rc_ProbeTimeout :: duration
  rc_ResumeStallAfter :: duration
  rc_Concurrency :: int

record Result =
  rs_RequeueAfter :: duration
  rs_Error :: "goerr option"

definition result_error :: "goerr \<Rightarrow> Result" where
  "result_error e = \<lparr>rs_RequeueAfter = 0, rs_Error = Some e\<rparr>"

definition result_done :: "duration \<Rightarrow> Result" where
  "result_done d = \<lparr>rs_RequeueAfter = d, rs_Error = None\<rparr>"

definition requeue :: "'w Reconciler \<Rightarrow> duration" where
  "requeue r = (if 0 < rc_PollInterval r then rc_PollInterval r else Minute)"

definition stallAfter :: "'w Reconciler \<Rightarrow> duration" where
  "stallAfter r = (if 0 < rc_ResumeStallAfter r then rc_ResumeStallAfter r else 10 * Minute)"

definition probeTimeout :: "'w Reconciler \<Rightarrow> duration" where
  "probeTimeout r = (if 0 < rc_ProbeTimeout r then rc_ProbeTimeout r else 10 * Second)"

text \<open>The number of workers, and whether the priority queue is used.\<close>

definition controllerOptions :: "'w Reconciler \<Rightarrow> int \<times> bool" where
  "controllerOptions r = (max 1 (rc_Concurrency r), False)"

definition the_patcher :: "'w Reconciler \<Rightarrow> 'w patcher" where
  "the_patcher r =
     \<lparr>pt_Client = rc_Client r, pt_Reader = rc_Reader r, pt_Prefix = rc_Prefix r, pt_Recorder = rc_Recorder r\<rparr>"

definition emit :: "'w Reconciler \<Rightarrow> string \<Rightarrow> string \<Rightarrow> string \<Rightarrow> string \<Rightarrow> 'w Proc \<Rightarrow> 'w Proc" where
  "emit r kind reason action note ps = (if rc_Recorder r then say (Event kind reason action note) ps else ps)"

section \<open>Memory and the object\<close>

definition repair :: "State \<Rightarrow> string \<Rightarrow> string \<Rightarrow> time \<Rightarrow> State" where
  "repair prev objectState objectReason now =
     (if objectState = Suspended \<and> s_Phase prev = Active
      then prev\<lparr>s_Phase := Suspended, s_SuspendedAt := now, s_Reason := ''memory repaired from object''\<rparr>
      else if objectState = Active \<and> s_Phase prev = Suspended
      then prev\<lparr>s_Phase := Active, s_SuspendedAt := zero_time, s_AwakeSince := now, s_ResumedAt := now,
                s_Reason := ''memory repaired from object''\<rparr>
      else if objectState = Unrecoverable \<and> s_Phase prev \<noteq> Unrecoverable
      then prev\<lparr>s_Phase := Unrecoverable, s_Reason := objectReason\<rparr>
      else prev)"

text \<open>Memory and whether there was any.\<close>

definition load_memory ::
  "'w Reconciler \<Rightarrow> Object \<Rightarrow> Live \<Rightarrow> time \<Rightarrow> 'w Proc \<Rightarrow> 'w Proc \<times> (goerr + State \<times> bool)" where
  "load_memory r fd live now ps =
     (case Load (rc_Client r) (rc_Seen r) fd ps of (ps1, res) \<Rightarrow>
        (case res of
           Inl e \<Rightarrow> (ps1, Inl e)
         | Inr found \<Rightarrow>
           let prev = (case found of
                         Some st \<Rightarrow> st
                       | None \<Rightarrow> let s = Initial now in s\<lparr>s_Restarts := (s_Restarts s)\<lparr>b_LastNonce := l_RestartNonce live\<rparr>\<rparr>);
               ann = u_Annotations fd
           in (ps1, Inr (repair prev (get_str ann (rc_Prefix r @ ''/state'')) (get_str ann (rc_Prefix r @ ''/reason'')) now,
                         found \<noteq> None))))"

definition shadow :: "State \<Rightarrow> Decision \<Rightarrow> Decision" where
  "shadow prev d =
     (let reason = ''dry-run: would '' @ ActionString (d_Action d) @ '': '' @ d_Reason d;
          next = (d_Next d)\<lparr>s_Phase := s_Phase prev, s_SuspendedAt := s_SuspendedAt prev, s_AwakeSince := s_AwakeSince prev,
                            s_Restarts := s_Restarts prev, s_ResumedAt := s_ResumedAt prev,
                            s_RefreshWake := s_RefreshWake prev, s_Reason := reason\<rparr>
      in decision ActNone next reason)"

definition acted :: "State \<Rightarrow> Decision \<Rightarrow> bool" where
  "acted prev d \<longleftrightarrow>
     (if d_Action d = ActNone then False
      else if d_Action d = Refuse \<and> s_Reason prev = s_Reason (d_Next d) then False
      else True)"

section \<open>What the job reads\<close>

definition timed :: "string \<Rightarrow> 'w Proc \<Rightarrow> 'w \<Rightarrow> 'w Proc" where
  "timed kind ps w = say (ProbeDuration kind) (ps\<lparr>ss_world := w\<rparr>)"

definition known :: "string \<Rightarrow> goerr option \<Rightarrow> 'w Proc \<Rightarrow> 'w Proc \<times> bool" where
  "known kind err ps =
     (case err of
        None \<Rightarrow> (ps, True)
      | Some e \<Rightarrow> (say (ProbeErrors kind) (say (LogCouldNotAsk kind (e_Msg e)) ps), False))"

definition sourceAttempts :: int where "sourceAttempts = 3"
definition sourceSettle :: duration where "sourceSettle = 30 * Second"

definition stable :: "cachedJob \<Rightarrow> bool" where
  "stable c \<longleftrightarrow> sr_Topics (cj_src c) \<noteq> [] \<and> sourceSettle \<le> Sub (cj_last c) (cj_since c)"

text \<open>What is cached for this job instance, and the cache after another answer.\<close>

definition cached_job :: "key \<Rightarrow> string \<Rightarrow> 'w Proc \<Rightarrow> cachedJob" where
  "cached_job req job ps =
     (let c0 = (case memo_job req ps of None \<Rightarrow> zero_cachedJob | Some c \<Rightarrow> c)
      in if cj_id c0 \<noteq> job then zero_cachedJob\<lparr>cj_id := job\<rparr> else c0)"

definition note_answer :: "cachedJob \<Rightarrow> Sources \<Rightarrow> time \<Rightarrow> cachedJob" where
  "note_answer cached src now =
     (if cj_attempts cached = 0 \<or> sr_Topics src \<noteq> sr_Topics (cj_src cached) then cached\<lparr>cj_since := now\<rparr> else cached)
       \<lparr>cj_src := src, cj_attempts := i64 (cj_attempts cached + 1), cj_last := now\<rparr>"

text \<open>The sources, whether they are known, and whether they are settled.\<close>

definition jobSources :: "'w Reconciler \<Rightarrow> key \<Rightarrow> Live \<Rightarrow> 'w Proc \<Rightarrow> 'w Proc \<times> Sources \<times> bool \<times> bool" where
  "jobSources r req live ps =
     (case rc_Flink r of
        None \<Rightarrow> (ps, zero_sources, False, False)
      | Some rest \<Rightarrow>
        if l_JobID live = [] \<or> l_JobState live \<noteq> ''RUNNING'' then (ps, zero_sources, False, False)
        else
          let cached = cached_job req (l_JobID live) ps
          in if stable cached \<or> (sr_Topics (cj_src cached) = [] \<and> sourceAttempts \<le> cj_attempts cached)
             then (ps, cj_src cached, True, True)
             else (case jp_Sources rest (ss_world ps) (fst req) (snd req) (l_JobID live) of (w, src, err) \<Rightarrow>
               (case known ''flink-rest'' err (timed ''flink-rest'' ps w) of (ps1, ok) \<Rightarrow>
                  if \<not> ok then (ps1, zero_sources, False, False)
                  else
                    let c2 = note_answer cached src (rc_Now r (ss_world ps1))
                    in (setJob req c2 ps1, src, True,
                        stable c2 \<or> (sr_Topics src = [] \<and> sourceAttempts \<le> cj_attempts c2)))))"

definition sameSet :: "string list \<Rightarrow> string list \<Rightarrow> bool" where
  "sameSet a b \<longleftrightarrow> (if length a \<noteq> length b then False else list_all (\<lambda>s. s \<in> set a) b)"

definition learnSources :: "'w Reconciler \<Rightarrow> State \<Rightarrow> Sources \<Rightarrow> 'w Proc \<Rightarrow> 'w Proc \<times> State" where
  "learnSources r prev job ps =
     (if sr_Topics job = []
      then (emit r ''Warning'' ''SourcesUnverified'' ''Learn''
              ''job exposes no Kafka source metrics; sources: auto has nothing to learn from it'' ps, prev)
      else if \<not> sameSet (s_Sources prev) (sr_Topics job)
      then (emit r ''Normal'' ''SourcesLearned'' ''Learn''
              (''job reads '' @ Join (sr_Topics job) '','' @ ''; remembered as the sources to watch'') ps,
            prev\<lparr>s_Sources := sr_Topics job\<rparr>)
      else (ps, prev))"

definition verifySources :: "'w Reconciler \<Rightarrow> string list \<Rightarrow> Sources \<Rightarrow> 'w Proc \<Rightarrow> 'w Proc" where
  "verifySources r declared job ps =
     (if sr_Topics job = []
      then emit r ''Warning'' ''SourcesUnverified'' ''Verify''
             (''job exposes no Kafka source metrics; sources '' @ Join declared '','' @ '' could not be checked against it'') ps
      else if sameSet declared (sr_Topics job)
      then emit r ''Normal'' ''SourcesVerified'' ''Verify''
             (''job reads exactly the annotated sources: '' @ Join (sr_Topics job) '','') ps
      else emit r ''Warning'' ''SourcesDrift'' ''Verify''
             (''job reads '' @ Join (sr_Topics job) '','' @ '' but the annotation lists '' @ Join declared '','') ps)"

section \<open>The observation\<close>

definition drainedChecks :: int where "drainedChecks = 16"

text \<open>
  The inner loop of \<open>drained\<close> from partition \<open>p\<close> on: the number of questions asked so far, the
  answers so far, and whether the bound stopped the loop.
\<close>

fun drained_partitions ::
  "('w \<Rightarrow> string \<Rightarrow> int \<Rightarrow> int \<Rightarrow> int \<Rightarrow> 'w \<times> bool \<times> goerr option) \<Rightarrow> (int, int) gomap \<Rightarrow> string \<Rightarrow> int \<Rightarrow> int list \<Rightarrow>
     int \<Rightarrow> (string, (int, bool) gomap) gomap \<Rightarrow> 'w Proc \<Rightarrow> 'w Proc \<times> int \<times> (string, (int, bool) gomap) gomap \<times> bool" where
  "drained_partitions gaps cur topic p [] asked out ps = (ps, asked, out, False)"
| "drained_partitions gaps cur topic p (e # es) asked out ps =
     (let emitted = (case map_of cur p of None \<Rightarrow> -1 | Some n \<Rightarrow> n)
      in if emitted < 0 \<or> e \<le> i64 (emitted + 1) then drained_partitions gaps cur topic (p + 1) es asked out ps
         else if drainedChecks < asked + 1 then (ps, asked + 1, out, True)
         else (case gaps (ss_world ps) topic p (i64 (emitted + 1)) e of (w, records, err) \<Rightarrow>
           (case known ''gap'' err (timed ''gap'' ps w) of (ps1, ok) \<Rightarrow>
              drained_partitions gaps cur topic (p + 1) es (asked + 1)
                (if ok \<and> \<not> records
                 then map_put topic (map_put p True (case map_of out topic of None \<Rightarrow> [] | Some m \<Rightarrow> m)) out else out) ps1)))"

fun drained_topics ::
  "('w \<Rightarrow> string \<Rightarrow> int \<Rightarrow> int \<Rightarrow> int \<Rightarrow> 'w \<times> bool \<times> goerr option) \<Rightarrow> (string, int list) gomap \<Rightarrow> JobReading \<Rightarrow> string list \<Rightarrow>
     int \<Rightarrow> (string, (int, bool) gomap) gomap \<Rightarrow> 'w Proc \<Rightarrow> 'w Proc \<times> (string, (int, bool) gomap) gomap" where
  "drained_topics gaps ends reading [] asked out ps = (ps, out)"
| "drained_topics gaps ends reading (topic # topics) asked out ps =
     (case drained_partitions gaps (case map_of (jr_Offsets reading) topic of None \<Rightarrow> [] | Some m \<Rightarrow> m) topic 0
             (case map_of ends topic of None \<Rightarrow> [] | Some es \<Rightarrow> es) asked out ps of (ps1, asked1, out1, stop) \<Rightarrow>
        if stop then (ps1, out1) else drained_topics gaps ends reading topics asked1 out1 ps1)"

definition drained ::
  "'w Reconciler \<Rightarrow> string list \<Rightarrow> (string, int list) gomap \<Rightarrow> JobReading \<Rightarrow> 'w Proc \<Rightarrow> 'w Proc \<times> (string, (int, bool) gomap) gomap" where
  "drained r sources ends reading ps =
     (case rc_Gaps r of
        None \<Rightarrow> (ps, [])
      | Some gaps \<Rightarrow> if jr_IdleFor reading < quiet (rc_Decider r) then (ps, [])
                    else drained_topics gaps ends reading sources 0 [] ps)"

text \<open>The parts of \<open>observe\<close>: the job's sources, the lag, and the job's reading.\<close>

definition observe_sources :: "'w Reconciler \<Rightarrow> Policy \<Rightarrow> State \<Rightarrow> Live \<Rightarrow> Sources \<Rightarrow> bool \<Rightarrow> 'w Proc \<Rightarrow> 'w Proc \<times> State" where
  "observe_sources r pol prev live job settled ps =
     (if settled \<and> r_SourcesChecked (s_Reported prev) \<noteq> l_JobID live
      then (case (if p_SourcesAuto pol then learnSources r prev job ps else (verifySources r (p_Sources pol) job ps, prev)) of
              (ps1, prev1) \<Rightarrow> (ps1, prev1\<lparr>s_Reported := (s_Reported prev1)\<lparr>r_SourcesChecked := l_JobID live\<rparr>\<rparr>))
      else (ps, prev))"

definition observe_lag :: "'w Reconciler \<Rightarrow> Policy \<Rightarrow> Observation \<Rightarrow> 'w Proc \<Rightarrow> 'w Proc \<times> Observation" where
  "observe_lag r pol obs ps =
     (case rc_Lag r of
        None \<Rightarrow> (ps, obs)
      | Some lag \<Rightarrow>
        if p_ConsumerGroup pol \<noteq> [] \<and> ob_Known obs then
          (case lag (ss_world ps) (p_ConsumerGroup pol) (ob_Ends obs) of (w, pending, err) \<Rightarrow>
             (case known ''lag'' err (timed ''lag'' ps w) of (ps1, ok) \<Rightarrow>
                (ps1, obs\<lparr>ob_Pending := pending, ob_LagKnown := ok,
                          ob_Uncommitted := (case err of Some e \<Rightarrow> if e_NoCommit e then e_Msg e else ob_Uncommitted obs
                                                       | None \<Rightarrow> ob_Uncommitted obs)\<rparr>)))
        else (ps, obs))"

definition observe_reading ::
  "'w Reconciler \<Rightarrow> key \<Rightarrow> Policy \<Rightarrow> Live \<Rightarrow> Sources \<Rightarrow> bool \<Rightarrow> Observation \<Rightarrow> 'w Proc \<Rightarrow> 'w Proc \<times> Observation" where
  "observe_reading r req pol live job jobKnown obs ps =
     (if \<not> (p_IdleFromJob pol \<and> ob_Known obs) then (ps, obs)
      else
        let obs1 = obs\<lparr>ob_ReadingNote := ''job not running or its REST API not reachable''\<rparr>
        in case rc_Flink r of
             None \<Rightarrow> (ps, obs1)
           | Some rest \<Rightarrow>
             if \<not> jobKnown then (ps, obs1)
             else (case jp_Read rest (ss_world ps) (fst req) (snd req) (l_JobID live) job of (w, reading, err) \<Rightarrow>
               (case known ''flink-rest'' err (timed ''flink-rest'' ps w) of (ps1, ok) \<Rightarrow>
                  (case err of
                     Some e \<Rightarrow> (ps1, obs1\<lparr>ob_ReadingKnown := ok, ob_ReadingNote := e_Msg e\<rparr>)
                   | None \<Rightarrow>
                     (case drained r (p_Sources pol) (ob_Ends obs1) reading ps1 of (ps2, dr) \<Rightarrow>
                        (ps2, obs1\<lparr>ob_ReadingKnown := ok, ob_Reading := reading\<lparr>jr_Drained := dr\<rparr>\<rparr>))))))"

text \<open>The observation, the policy with the effective sources, and memory with what was learned.\<close>

definition observe ::
  "'w Reconciler \<Rightarrow> key \<Rightarrow> Policy \<Rightarrow> State \<Rightarrow> Live \<Rightarrow> 'w Proc \<Rightarrow> 'w Proc \<times> Observation \<times> Policy \<times> State" where
  "observe r req pol prev live ps =
     (case jobSources r req live ps of (ps1, job, jobKnown, settled) \<Rightarrow>
      (case observe_sources r pol prev live job settled ps1 of (ps2, prev1) \<Rightarrow>
        let pol1 = (if p_SourcesAuto pol then pol\<lparr>p_Sources := s_Sources prev1\<rparr> else pol)
        in if p_SourcesAuto pol \<and> p_Sources pol1 = []
           then (ps2, zero_observation\<lparr>ob_Why := ''sources: auto, waiting for the job to run once so its topics can be learned'',
                                       ob_Unlearned := True\<rparr>, pol1, prev1)
           else (case rc_Probe r (ss_world ps2) (p_Sources pol1) of (w, offsets, err) \<Rightarrow>
             (case known ''offsets'' err (timed ''offsets'' ps2 w) of (ps3, ok) \<Rightarrow>
               let obs = zero_observation\<lparr>ob_Snapshot := of_Snapshot offsets, ob_Ends := of_Ends offsets, ob_Known := ok\<rparr>
               in case observe_lag r pol1 obs ps3 of (ps4, obs1) \<Rightarrow>
                  (case observe_reading r req pol1 live job jobKnown obs1 ps4 of (ps5, obs2) \<Rightarrow> (ps5, obs2, pol1, prev1))))))"

section \<open>The report\<close>

definition report_outage ::
  "'w Reconciler \<Rightarrow> Policy \<Rightarrow> State \<Rightarrow> Observation \<Rightarrow> time \<Rightarrow> State \<Rightarrow> 'w Proc \<Rightarrow> 'w Proc \<times> State" where
  "report_outage r pol prev obs now next ps =
     (let (ps1, next1) =
        (if ob_Unlearned obs then (ps, next)
         else if \<not> ob_Known obs \<and> \<not> o_Down (s_Outage prev)
         then (emit r ''Warning'' ''SourceUnreachable'' ''Probe''
                 (''could not read offsets for '' @ Join (p_Sources pol) '','' @ ''; down since '' @ FormatRFC3339 now) ps,
               next\<lparr>s_Outage := (s_Outage next)\<lparr>o_Since := now\<rparr>\<rparr>)
         else if ob_Known obs \<and> o_Down (s_Outage prev)
         then (emit r ''Normal'' ''SourceReachable'' ''Probe''
                 (''offsets readable again after '' @ DurationString (DurationRound (Sub now (o_Since (s_Outage prev))) Second) @
                  ''; down since '' @ FormatRFC3339 (o_Since (s_Outage prev))) ps, next)
         else (ps, next))
      in (ps1, next1\<lparr>s_Outage := (s_Outage next1)\<lparr>o_Down := (\<not> ob_Known obs \<and> \<not> ob_Unlearned obs)\<rparr>\<rparr>))"

definition report_held :: "'w Reconciler \<Rightarrow> Policy \<Rightarrow> State \<Rightarrow> Observation \<Rightarrow> string \<Rightarrow> State \<Rightarrow> 'w Proc \<Rightarrow> 'w Proc" where
  "report_held r pol prev obs held next ps =
     (if held = ''offsets-missing'' \<and> s_Reason prev \<noteq> s_Reason next
      then emit r ''Warning'' ''ResumeHeld'' ''Resume''
             (''group '' @ p_ConsumerGroup pol @ '' has no committed offsets, expired or never written: '' @ ob_Uncommitted obs @
              ''. Resuming would start the source from its reset strategy. Restore the offsets, or set spec.job.state: running to accept that'') ps
      else ps)"

definition report_savepoint :: "'w Reconciler \<Rightarrow> State \<Rightarrow> Live \<Rightarrow> State \<Rightarrow> 'w Proc \<Rightarrow> 'w Proc \<times> State" where
  "report_savepoint r prev live next ps =
     (let (ps1, next1) =
        (if s_Phase next = Suspended \<and> \<not> r_SuspendChecked (s_Reported prev) \<and> l_LifecycleState live = ''SUSPENDED''
         then (if l_SavepointPath live = [] \<and> l_UpgradeMode live = ''savepoint''
               then emit r ''Warning'' ''SuspendedWithoutSavepoint'' ''Suspend''
                      ''operator completed the suspend without a savepoint; resume will use the last checkpoint'' ps
               else ps,
               next\<lparr>s_Reported := (s_Reported next)\<lparr>r_SuspendChecked := True\<rparr>\<rparr>)
         else (ps, next))
      in (ps1, if s_Phase next1 \<noteq> Suspended then next1\<lparr>s_Reported := (s_Reported next1)\<lparr>r_SuspendChecked := False\<rparr>\<rparr> else next1))"

definition report_resume_stall :: "'w Reconciler \<Rightarrow> time \<Rightarrow> State \<Rightarrow> 'w Proc \<Rightarrow> 'w Proc \<times> State" where
  "report_resume_stall r now next ps =
     (let (ps1, next1) =
        (if \<not> IsZero (s_ResumedAt next) \<and> \<not> r_ResumeStalled (s_Reported next) \<and> stallAfter r < Sub now (s_ResumedAt next)
         then (emit r ''Warning'' ''ResumeStalled'' ''Resume''
                 (''job not RUNNING '' @ DurationString (stallAfter r) @ '' after resume; check pods, image and savepoint'') ps,
               next\<lparr>s_Reported := (s_Reported next)\<lparr>r_ResumeStalled := True\<rparr>\<rparr>)
         else (ps, next))
      in (ps1, if IsZero (s_ResumedAt next1) then next1\<lparr>s_Reported := (s_Reported next1)\<lparr>r_ResumeStalled := False\<rparr>\<rparr> else next1))"

definition report_suspend_stall :: "'w Reconciler \<Rightarrow> Live \<Rightarrow> time \<Rightarrow> State \<Rightarrow> 'w Proc \<Rightarrow> 'w Proc \<times> State" where
  "report_suspend_stall r live now next ps =
     (let suspending = (s_Phase next = Suspended \<and> l_LifecycleState live \<noteq> ''SUSPENDED'');
          (ps1, next1) =
            (if suspending \<and> \<not> r_SuspendStalled (s_Reported next) \<and> stallAfter r < Sub now (s_SuspendedAt next)
             then (emit r ''Warning'' ''SuspendStalled'' ''Suspend''
                     (''operator has not completed the suspend '' @ DurationString (stallAfter r) @
                      '' after it was requested; check the operator and the savepoint'') ps,
                   next\<lparr>s_Reported := (s_Reported next)\<lparr>r_SuspendStalled := True\<rparr>\<rparr>)
             else (ps, next))
      in (ps1, if \<not> suspending then next1\<lparr>s_Reported := (s_Reported next1)\<lparr>r_SuspendStalled := False\<rparr>\<rparr> else next1))"

definition report ::
  "'w Reconciler \<Rightarrow> Policy \<Rightarrow> State \<Rightarrow> Live \<Rightarrow> Observation \<Rightarrow> Decision \<Rightarrow> time \<Rightarrow> 'w Proc \<Rightarrow> 'w Proc \<times> Decision" where
  "report r pol prev live obs d now ps =
     (case report_outage r pol prev obs now (d_Next d) ps of (ps1, n1) \<Rightarrow>
      case report_savepoint r prev live n1 (report_held r pol prev obs (d_Held d) n1 ps1) of (ps2, n2) \<Rightarrow>
      case report_resume_stall r now n2 ps2 of (ps3, n3) \<Rightarrow>
      case report_suspend_stall r live now n3 ps3 of (ps4, n4) \<Rightarrow> (ps4, d\<lparr>d_Next := n4\<rparr>))"

definition gateTrace :: "Policy \<Rightarrow> State \<Rightarrow> Live \<Rightarrow> Observation \<Rightarrow> Decision \<Rightarrow> time \<Rightarrow> (string \<times> LogValue) list" where
  "gateTrace pol prev live obs d now =
     [(''action'', LStr (ActionString (d_Action d))), (''reason'', LStr (d_Reason d)), (''held'', LStr (d_Held d)),
      (''lifecycle'', LStr (l_LifecycleState live)), (''job'', LStr (l_JobState live)),
      (''specState'', LStr (l_SpecJobState live)), (''upgradeMode'', LStr (l_UpgradeMode live)),
      (''offsetsKnown'', LBool (ob_Known obs)),
      (''idleFor'', LStr (DurationString (DurationRound (Sub now (s_LastActivityAt prev)) Second))),
      (''idleAfter'', LStr (DurationString (p_IdleAfter pol))),
      (''awakeFor'', LStr (DurationString (DurationRound (Sub now (s_AwakeSince prev)) Second))),
      (''minAwake'', LStr (DurationString (p_MinAwake pol)))] @
     (if p_ConsumerGroup pol \<noteq> []
      then [(''group'', LStr (p_ConsumerGroup pol)), (''lagKnown'', LBool (ob_LagKnown obs)), (''pending'', LInt (ob_Pending obs))] @
           (if ob_Uncommitted obs \<noteq> [] then [(''uncommitted'', LStr (ob_Uncommitted obs))] else [])
      else []) @
     (if p_IdleFromJob pol
      then [(''jobGate'', LStr (JobGateString (d_Gate d))), (''jobNote'', LStr (d_GateNote d))] else [])"

section \<open>The metrics of a tick\<close>

definition account :: "key \<Rightarrow> State \<Rightarrow> State \<Rightarrow> time \<Rightarrow> 'w Proc \<Rightarrow> 'w Proc" where
  "account req prev next now ps =
     (case memo_tick req now ps of (ps1, before) \<Rightarrow>
        let ps2 = (case before of
                     None \<Rightarrow> ps1
                   | Some t \<Rightarrow>
                     if s_Phase prev = Suspended \<and> s_Phase next = Suspended \<and> 0 < Sub now t
                     then say (SuspendedSeconds req (Sub now t)) ps1 else ps1);
            asleep = (s_Phase next = Suspended);
            since = (if asleep then s_SuspendedAt next div Second - unix_epoch else 0)
        in say (IdleSeconds req (Sub now (s_LastActivityAt next)))
             (say (SuspendedSince req since) (say (Released req asleep) ps2)))"

definition record_tick :: "key \<Rightarrow> State \<Rightarrow> Decision \<Rightarrow> time \<Rightarrow> 'w Proc \<Rightarrow> 'w Proc" where
  "record_tick req prev d now ps =
     (let ps1 = account req prev (d_Next d) now (say (SetHeld req (d_Held d)) (say (SetState req (s_Phase (d_Next d))) ps));
          ps2 = (if acted prev d then say (Transitions req (ActionString (d_Action d))) ps1 else ps1)
      in if 0 < d_ResumedAfter d then say (ResumeLatency (d_ResumedAfter d)) ps2 else ps2)"

section \<open>Acting\<close>

definition write_object :: "'w Reconciler \<Rightarrow> Object \<Rightarrow> Decision \<Rightarrow> 'w Proc \<Rightarrow> 'w Proc \<times> goerr option" where
  "write_object r fd d ps =
     (case d_Action d of
        Suspend \<Rightarrow> suspend (the_patcher r) fd (d_Next d) (d_Reason d) ps
      | Resume \<Rightarrow> resume (the_patcher r) fd (d_Next d) (d_Reason d) ps
      | Restart \<Rightarrow> restart (the_patcher r) fd (d_Next d) (d_Reason d) ps
      | Refuse \<Rightarrow> refuse (the_patcher r) fd (d_Next d) (d_Reason d) ps
      | MarkUnrecoverable \<Rightarrow> markUnrecoverable (the_patcher r) fd (d_Next d) (d_Reason d) ps
      | ActNone \<Rightarrow> annotate (the_patcher r) fd (d_Next d) ps)"

definition humanVisible :: "State \<Rightarrow> bool \<Rightarrow> Decision \<Rightarrow> bool" where
  "humanVisible prev found d \<longleftrightarrow>
     \<not> found \<or> acted prev d \<or> s_Phase prev \<noteq> s_Phase (d_Next d) \<or> s_Reason prev \<noteq> s_Reason (d_Next d)"

text \<open>None stands for a save that never returns.\<close>

definition act :: "'w Reconciler \<Rightarrow> Object \<Rightarrow> State \<Rightarrow> bool \<Rightarrow> Decision \<Rightarrow> 'w Proc \<Rightarrow> ('w Proc \<times> Result) option" where
  "act r fd prev found d ps =
     (case (if humanVisible prev found d then write_object r fd d ps else (ps, None)) of (ps1, err) \<Rightarrow>
        (case err of
           Some e \<Rightarrow> Some (ps1, result_error e)
         | None \<Rightarrow>
           (case Save (rc_Client r) (rc_Seen r) fd (d_Next d) ps1 of
              None \<Rightarrow> None
            | Some (ps2, Some e) \<Rightarrow>
                Some (emit r ''Warning'' ''SaveFailed'' ''Save'' (''could not write the controller's memory: '' @ e_Msg e) ps2, result_error e)
            | Some (ps2, None) \<Rightarrow> Some (ps2, result_done (requeue r)))))"

section \<open>Release, refusal and the tick\<close>

definition forget :: "'w Reconciler \<Rightarrow> key \<Rightarrow> 'w Proc \<Rightarrow> 'w Proc" where
  "forget r req ps = Forget (rc_Seen r) (fst req) (snd req) (memo_forget req (say (ForgetMetrics req) ps))"

definition release :: "'w Reconciler \<Rightarrow> key \<Rightarrow> Object \<Rightarrow> 'w Proc \<Rightarrow> 'w Proc \<times> Result" where
  "release r req fd ps =
     (case map_of (u_Annotations fd) (rc_Prefix r @ ''/state'') of
        None \<Rightarrow> (ps, result_done 0)
      | Some phase \<Rightarrow>
        let live = Live fd;
            mine = (phase = Suspended \<and> l_SpecJobState live = ''suspended'' \<and> \<not> rc_DryRun r)
        in if mine \<and> l_LifecycleState live \<noteq> ''SUSPENDED'' then (ps, result_done (requeue r))
           else (case (if mine then resume (the_patcher r) fd zero_state ''policy removed; resuming the job siesta suspended'' ps
                       else clear (the_patcher r) fd ps) of (ps1, err) \<Rightarrow>
             (case err of
                Some e \<Rightarrow> (ps1, result_error e)
              | None \<Rightarrow>
                (case Delete (rc_Client r) (rc_Seen r) fd ps1 of (ps2, derr) \<Rightarrow>
                   (case derr of
                      Some e \<Rightarrow> (ps2, result_error e)
                    | None \<Rightarrow> (emit r ''Normal'' ''Released'' ''Release'' ''policy removed; state and memory cleared''
                                (forget r req ps2), result_done 0))))))"

definition refuseInvalidPolicy :: "'w Reconciler \<Rightarrow> Object \<Rightarrow> Policy \<Rightarrow> State \<Rightarrow> 'w Proc \<Rightarrow> ('w Proc \<times> Result) option" where
  "refuseInvalidPolicy r fd pol prev ps =
     (let reason = ''invalid policy: '' @ Join (p_Problems pol) ''; ''
      in if s_Reason prev = reason then Some (ps, result_done (requeue r))
         else
           let next = prev\<lparr>s_Reason := reason\<rparr>
           in case annotate (the_patcher r) fd next (emit r ''Warning'' ''InvalidPolicy'' ''Validate'' reason ps) of (ps1, err) \<Rightarrow>
                (case err of
                   Some e \<Rightarrow> Some (ps1, result_error e)
                 | None \<Rightarrow>
                   (case Save (rc_Client r) (rc_Seen r) fd next ps1 of
                      None \<Rightarrow> None
                    | Some (ps2, Some e) \<Rightarrow> Some (ps2, result_error e)
                    | Some (ps2, None) \<Rightarrow> Some (ps2, result_done (requeue r)))))"

text \<open>From the decision on.\<close>

definition finish ::
  "'w Reconciler \<Rightarrow> key \<Rightarrow> Object \<Rightarrow> Policy \<Rightarrow> State \<Rightarrow> bool \<Rightarrow> Live \<Rightarrow> Observation \<Rightarrow> time \<Rightarrow> 'w Proc \<Rightarrow> ('w Proc \<times> Result) option" where
  "finish r req fd pol prev found live obs now ps =
     (let d0 = Decide (rc_Decider r) pol prev live obs now
      in case report r pol prev live obs d0 now (say (LogDecided (gateTrace pol prev live obs d0 now)) ps) of (ps1, d1) \<Rightarrow>
         let dry = (rc_DryRun r \<or> p_DryRun pol);
             would = (if d_Action d1 \<noteq> ActNone then ActionString (d_Action d1) else []);
             d2 = (if dry \<and> d_Action d1 \<noteq> ActNone then shadow prev d1 else d1);
             ps2 = (if dry then say (SetWouldAct req would) ps1 else ps1)
         in act r fd prev found d2 (record_tick req prev d2 now ps2))"

definition Reconcile :: "'w Reconciler \<Rightarrow> key \<Rightarrow> 'w Proc \<Rightarrow> ('w Proc \<times> Result) option" where
  "Reconcile r req ps =
     (case k_Get (rc_Client r) (ss_world ps) req of (w, res) \<Rightarrow>
        let ps0 = ps\<lparr>ss_world := w\<rparr>
        in case res of
             Inl e \<Rightarrow> Some (if e_NotFound e then (forget r req ps0, result_done 0) else (ps0, result_error e))
           | Inr fd \<Rightarrow>
             (case Read (rc_Prefix r) (u_Annotations fd) of
                None \<Rightarrow> Some (release r req fd ps0)
              | Some pol0 \<Rightarrow>
                let now = rc_Now r (ss_world ps0); live = Live fd
                in case load_memory r fd live now ps0 of (ps1, loaded') \<Rightarrow>
                   (case loaded' of
                      Inl e \<Rightarrow> Some (ps1, result_error e)
                    | Inr (prev, found) \<Rightarrow>
                      let pol = (if p_SourcesAuto pol0 \<and> Option.is_none (rc_Flink r)
                                 then problem (rc_Prefix r @ ''/sources: auto needs the job's REST API, which --flink-rest=false switched off'') pol0
                                 else pol0)
                      in if p_Problems pol \<noteq> [] then refuseInvalidPolicy r fd pol prev ps1
                         else (case observe r req pol prev live ps1 of (ps2, obs, pol1, prev1) \<Rightarrow>
                                 finish r req fd pol1 prev1 found live obs now ps2))))"

end
