(* ===== verification/Metrics.thy ===== *)
theory Metrics
  imports Reconciler Scenario
begin

text \<open>
  The metrics (\<open>src/internal/metrics/metrics.go\<close>): the registry of series and what each effect of a
  tick does to it. A gauge or counter vector is a map from its labels to a value; the first two
  labels are the namespace and the name of a deployment. Times stay durations; the one flag of the
  two released gauges says whether they hold the footprint or zero.
\<close>

section \<open>The registry\<close>

record Registry =
  m_State :: "(key \<times> string, int) gomap"
  m_Transitions :: "(key \<times> string, int) gomap"
  m_ResumeLatency :: "duration list"
  m_ProbeErrors :: "(string, int) gomap"
  m_SuspendedSeconds :: "(key, duration) gomap"
  m_SuspendedSince :: "(key, int) gomap"
  m_Released :: "(key, bool) gomap"
  m_IdleSeconds :: "(key, duration) gomap"
  m_WouldAct :: "(key \<times> string, int) gomap"
  m_HeldAwake :: "(key \<times> string, int) gomap"
  m_ProbeDuration :: "(string, int) gomap"

definition empty_registry :: Registry where
  "empty_registry =
     \<lparr>m_State = [], m_Transitions = [], m_ResumeLatency = [], m_ProbeErrors = [], m_SuspendedSeconds = [],
      m_SuspendedSince = [], m_Released = [], m_IdleSeconds = [], m_WouldAct = [], m_HeldAwake = [], m_ProbeDuration = []\<rparr>"

definition dryRunActions :: "string list" where
  "dryRunActions = [''suspend'', ''resume'', ''restart'', ''refuse'', ''mark-unrecoverable'']"

definition held_gates :: "string list" where
  "held_gates = [''min-awake'', ''lag-unknown'', ''lag-pending'', ''job-unknown'', ''job-busy'', ''offsets-missing'', ''sources-unknown'']"

definition phase_states :: "string list" where
  "phase_states = [''active'', ''suspended'', ''unrecoverable'']"

text \<open>The loop the three setters share: one for the current label, zero for the others.\<close>

definition set_labels :: "string list \<Rightarrow> key \<Rightarrow> string \<Rightarrow> (key \<times> string, int) gomap \<Rightarrow> (key \<times> string, int) gomap" where
  "set_labels labels k current vec = fold (\<lambda>l. map_put (k, l) (if l = current then 1 else 0)) labels vec"

definition set_state :: "key \<Rightarrow> string \<Rightarrow> Registry \<Rightarrow> Registry" where
  "set_state k current m = m\<lparr>m_State := set_labels phase_states k current (m_State m)\<rparr>"

definition set_held :: "key \<Rightarrow> string \<Rightarrow> Registry \<Rightarrow> Registry" where
  "set_held k gate m = m\<lparr>m_HeldAwake := set_labels held_gates k gate (m_HeldAwake m)\<rparr>"

definition set_would_act :: "key \<Rightarrow> string \<Rightarrow> Registry \<Rightarrow> Registry" where
  "set_would_act k action m = m\<lparr>m_WouldAct := set_labels dryRunActions k action (m_WouldAct m)\<rparr>"

text \<open>\<open>DeletePartialMatch\<close> with the labels of one deployment.\<close>

definition drop_labels :: "key \<Rightarrow> (key \<times> string, 'v) gomap \<Rightarrow> (key \<times> string, 'v) gomap" where
  "drop_labels k vec = filter (\<lambda>((k', l), v). k' \<noteq> k) vec"

definition forget_metrics :: "key \<Rightarrow> Registry \<Rightarrow> Registry" where
  "forget_metrics k m =
     m\<lparr>m_State := drop_labels k (m_State m), m_SuspendedSince := map_delete k (m_SuspendedSince m),
       m_Released := map_delete k (m_Released m), m_IdleSeconds := map_delete k (m_IdleSeconds m),
       m_WouldAct := drop_labels k (m_WouldAct m), m_HeldAwake := drop_labels k (m_HeldAwake m),
       m_Transitions := drop_labels k (m_Transitions m), m_SuspendedSeconds := map_delete k (m_SuspendedSeconds m)\<rparr>"

definition count :: "'k \<Rightarrow> ('k, int) gomap \<Rightarrow> int" where
  "count k m = (case map_of m k of None \<Rightarrow> 0 | Some n \<Rightarrow> n)"

text \<open>One timer of \<open>Timed\<close> counts as one observation of its kind.\<close>

fun apply_effect :: "Effect \<Rightarrow> Registry \<Rightarrow> Registry" where
  "apply_effect (SetState k s) m = set_state k s m"
| "apply_effect (SetHeld k g) m = set_held k g m"
| "apply_effect (SetWouldAct k a) m = set_would_act k a m"
| "apply_effect (Transitions k a) m = m\<lparr>m_Transitions := map_put (k, a) (count (k, a) (m_Transitions m) + 1) (m_Transitions m)\<rparr>"
| "apply_effect (ResumeLatency d) m = m\<lparr>m_ResumeLatency := m_ResumeLatency m @ [d]\<rparr>"
| "apply_effect (ProbeErrors kind) m = m\<lparr>m_ProbeErrors := map_put kind (count kind (m_ProbeErrors m) + 1) (m_ProbeErrors m)\<rparr>"
| "apply_effect (ProbeDuration kind) m = m\<lparr>m_ProbeDuration := map_put kind (count kind (m_ProbeDuration m) + 1) (m_ProbeDuration m)\<rparr>"
| "apply_effect (SuspendedSeconds k d) m = m\<lparr>m_SuspendedSeconds := map_put k (count k (m_SuspendedSeconds m) + d) (m_SuspendedSeconds m)\<rparr>"
| "apply_effect (Released k b) m = m\<lparr>m_Released := map_put k b (m_Released m)\<rparr>"
| "apply_effect (SuspendedSince k t) m = m\<lparr>m_SuspendedSince := map_put k t (m_SuspendedSince m)\<rparr>"
| "apply_effect (IdleSeconds k d) m = m\<lparr>m_IdleSeconds := map_put k d (m_IdleSeconds m)\<rparr>"
| "apply_effect (ForgetMetrics k) m = forget_metrics k m"
| "apply_effect (Event t r a n) m = m"
| "apply_effect (LogDecided xs) m = m"
| "apply_effect (LogCouldNotAsk a b) m = m"

definition registry :: "Effect list \<Rightarrow> Registry" where
  "registry log = fold apply_effect log empty_registry"

lemma registry_snoc [simp]: "registry (log @ [e]) = apply_effect e (registry log)"
  by (simp add: registry_def)

section \<open>One series at a time\<close>

definition shows_only :: "string list \<Rightarrow> (key \<times> string, int) gomap \<Rightarrow> key \<Rightarrow> string \<Rightarrow> bool" where
  "shows_only labels vec k current \<longleftrightarrow>
     (\<forall>l. map_of vec (k, l) = (if l \<in> set labels then Some (if l = current then 1 else 0) else None))"

definition one_hot :: "string list \<Rightarrow> (key \<times> string, int) gomap \<Rightarrow> bool" where
  "one_hot labels vec \<longleftrightarrow> (\<forall>k. (\<forall>l. map_of vec (k, l) = None) \<or> (\<exists>current. shows_only labels vec k current))"

lemma map_of_set_labels:
  "map_of (set_labels labels k current vec) (k', l) =
     (if k' = k \<and> l \<in> set labels then Some (if l = current then 1 else 0) else map_of vec (k', l))"
  unfolding set_labels_def
proof (induction labels arbitrary: vec)
  case (Cons a labels)
  then show ?case by auto
qed simp

lemma map_of_drop_labels: "map_of (drop_labels k vec) (k', l) = (if k' = k then None else map_of vec (k', l))"
  by (induction vec) (auto simp: drop_labels_def)

lemma one_hot_set_labels:
  assumes "one_hot labels vec"
  shows "one_hot labels (set_labels labels k current vec) \<and> shows_only labels (set_labels labels k current vec) k current"
proof -
  have here: "shows_only labels (set_labels labels k current vec) k current"
    using assms unfolding one_hot_def shows_only_def map_of_set_labels by (metis (no_types, opaque_lifting))
  have "(\<forall>l. map_of (set_labels labels k current vec) (k', l) = None) \<or> (\<exists>c. shows_only labels (set_labels labels k current vec) k' c)" for k'
  proof (cases "k' = k")
    case True
    with here show ?thesis by blast
  next
    case False
    then have "map_of (set_labels labels k current vec) (k', l) = map_of vec (k', l)" for l by (simp add: map_of_set_labels)
    then have "shows_only labels (set_labels labels k current vec) k' c \<longleftrightarrow> shows_only labels vec k' c"
      and "map_of (set_labels labels k current vec) (k', l) = map_of vec (k', l)" for c l by (simp_all add: shows_only_def)
    with assms[unfolded one_hot_def, rule_format, of k'] show ?thesis by simp
  qed
  with here show ?thesis by (auto simp: one_hot_def)
qed

lemma one_hot_drop_labels: "one_hot labels vec \<Longrightarrow> one_hot labels (drop_labels k vec)"
  by (auto simp: one_hot_def shows_only_def map_of_drop_labels)

lemma one_hot_labels:
  "one_hot phase_states (m_State (registry log)) \<and> one_hot held_gates (m_HeldAwake (registry log)) \<and>
   one_hot dryRunActions (m_WouldAct (registry log))"
proof (induction log rule: rev_induct)
  case Nil
  show ?case by (simp add: registry_def empty_registry_def one_hot_def)
next
  case (snoc e log)
  then show ?case
    by (cases e) (auto simp: set_state_def set_held_def set_would_act_def forget_metrics_def one_hot_set_labels one_hot_drop_labels)
qed

section \<open>The decision on the gauges\<close>

text \<open>The gate a decision names is one the gauge has a series for.\<close>

lemma decision_held [simp]: "d_Held (decision a n r) = []"
  by (simp add: decision_def)

lemma decide_suspended_held: "d_Held (decide_suspended p prev cur live obs now mv) \<in> insert [] (set held_gates)"
  by (simp add: decide_suspended_def held_gates_def Let_def)

lemma decide_job_gate_held: "d_Held (decide_job_gate d p cur obs now) \<in> insert [] (set held_gates)"
  by (simp add: decide_job_gate_def held_gates_def suspend_now_def Let_def split: prod.split JobGate.split)

lemma decide_idle_held: "d_Held (decide_idle d p cur live obs now after) \<in> insert [] (set held_gates)"
  using decide_job_gate_held by (auto simp: decide_idle_def held_gates_def Let_def)

lemma decide_active_held: "d_Held (decide_active d p cur live obs now) \<in> insert [] (set held_gates)"
proof -
  have "d_Held (decide_failing d live c now) = []" for c by (simp add: decide_failing_def Let_def)
  with decide_idle_held show ?thesis by (auto simp: decide_active_def Let_def split: prod.split)
qed

lemma Decide_held: "d_Held (Decide d p prev live obs now) \<in> insert [] (set held_gates)"
proof -
  have "d_Held (decide_unrecoverable prev cur) = []" for prev cur by (simp add: decide_unrecoverable_def Let_def)
  moreover have "d_Held (relearn p prev live now) \<in> insert [] (set held_gates)" for prev
    by (simp add: relearn_def held_gates_def)
  ultimately show ?thesis
    using decide_suspended_held decide_active_held by (auto simp: Decide_def decide_phase_def Let_def)
qed

lemma ActionString_dry_run: "a \<noteq> ActNone \<Longrightarrow> ActionString a \<in> set dryRunActions"
  by (cases a) (simp_all add: dryRunActions_def)


definition empty_proc :: "unit Proc" where
  "empty_proc = \<lparr>ss_world = (), ss_seen = [], pr_log = [], pr_jobs = [], pr_ticks = []\<rparr>"


end
