(* ===== verification/GoFloat.thy ===== *)
theory GoFloat
  imports GoLib Complex_Main
begin

text \<open>
  Go's \<open>float64\<close> as far as the program computes with it: a finite value is a rational number, and an
  operation rounds the exact result to the nearest value with 53 significant bits, ties to even.
  Infinities, subnormal numbers and not-a-number do not come up: the values are core counts, offsets
  and milliseconds.
\<close>

type_synonym float64 = rat

text \<open>The power of two at or below a positive number.\<close>

definition pow2 :: "int \<Rightarrow> float64" where
  "pow2 e = (if 0 \<le> e then 2 ^ nat e else 1 / 2 ^ nat (- e))"

definition f64_exp :: "float64 \<Rightarrow> int" where
  "f64_exp x = (if 1 \<le> x then int (bitlen \<lfloor>x\<rfloor>) - 1 else - int (bitlen (\<lceil>1 / x\<rceil> - 1)))"

definition half_even :: "rat \<Rightarrow> int" where
  "half_even q =
     (let n = \<lfloor>q\<rfloor>; r = q - of_int n
      in if r < 1 / 2 \<or> (r = 1 / 2 \<and> even n) then n else n + 1)"

definition f64_round :: "rat \<Rightarrow> float64" where
  "f64_round x =
     (if x = 0 then 0
      else let ulp = pow2 (f64_exp \<bar>x\<bar> - 52) in sgn x * (of_int (half_even (\<bar>x\<bar> / ulp)) * ulp))"

text \<open>\<open>int64(f)\<close>: towards zero.\<close>

definition float_to_int64 :: "float64 \<Rightarrow> int" where
  "float_to_int64 x = f64_to_i64 (if 0 \<le> x then \<lfloor>x\<rfloor> else \<lceil>x\<rceil>)"

section \<open>Bounds of the rounding\<close>

lemma bitlen_bounds:
  assumes "0 < n"
  shows "0 < bitlen n \<and> 2 ^ (bitlen n - 1) \<le> n \<and> n < 2 ^ bitlen n"
  using assms
proof (induction n rule: bitlen.induct)
  case (1 n)
  then have b: "bitlen n = Suc (bitlen (n div 2))" by (subst bitlen.simps) simp
  show ?case
  proof (cases "n = 1")
    case True
    then have "bitlen n = 1" unfolding b by (subst bitlen.simps) simp
    with True show ?thesis by simp
  next
    case False
    with 1 have "0 < n div 2" by (simp add: pos_imp_zdiv_pos_iff)
    with 1 have ih: "0 < bitlen (n div 2)" "2 ^ (bitlen (n div 2) - 1) \<le> n div 2" "n div 2 < 2 ^ bitlen (n div 2)" by auto
    from ih(2) have "2 * 2 ^ (bitlen (n div 2) - 1) \<le> n" by linarith
    moreover have "2 * 2 ^ (bitlen (n div 2) - 1) = (2 :: int) ^ bitlen (n div 2)" using ih(1) by (cases "bitlen (n div 2)") auto
    moreover have "n < 2 * 2 ^ bitlen (n div 2)" using ih(3) by linarith
    ultimately show ?thesis by (simp add: b)
  qed
qed

lemma pow2_pos [simp]: "0 < pow2 e"
  by (simp add: pow2_def)

lemma pow2_diff: "pow2 (a - int n) = pow2 a / 2 ^ n"
proof (cases "int n \<le> a")
  case True
  then have "nat a = nat (a - int n) + n" by simp
  with True show ?thesis by (simp add: pow2_def power_add)
next
  case False
  then show ?thesis
  proof (cases "0 \<le> a")
    case True
    then have "n = nat (- (a - int n)) + nat a" using False by simp
    then have "(2 :: rat) ^ n = 2 ^ nat (- (a - int n)) * 2 ^ nat a" by (metis power_add)
    with True False show ?thesis by (simp add: pow2_def field_simps)
  next
    case neg: False
    then have "nat (- (a - int n)) = nat (- a) + n" by simp
    with neg False show ?thesis by (simp add: pow2_def power_add field_simps)
  qed
qed

lemma pow2_f64_exp:
  assumes "0 < x"
  shows "pow2 (f64_exp x) \<le> x"
proof (cases "1 \<le> x")
  case True
  then have "0 < \<lfloor>x\<rfloor>" by simp
  note b = bitlen_bounds[OF this]
  then have "pow2 (f64_exp x) = 2 ^ (bitlen \<lfloor>x\<rfloor> - 1)" using True by (simp add: f64_exp_def pow2_def nat_diff_distrib)
  also have "\<dots> = of_int (2 ^ (bitlen \<lfloor>x\<rfloor> - 1))" by simp
  also have "\<dots> \<le> of_int \<lfloor>x\<rfloor>" using b by (simp only: of_int_le_iff)
  finally show ?thesis by linarith
next
  case False
  then have "1 < 1 / x" using assms by simp
  then have "2 \<le> \<lceil>1 / x\<rceil>" by linarith
  then have "0 < \<lceil>1 / x\<rceil> - 1" by simp
  note b = bitlen_bounds[OF this]
  let ?m = "bitlen (\<lceil>1 / x\<rceil> - 1)"
  have "1 / x \<le> of_int \<lceil>1 / x\<rceil>" by simp
  also have "\<dots> \<le> of_int (2 ^ ?m)" using b by (simp only: of_int_le_iff) linarith
  finally have "1 / x \<le> 2 ^ ?m" by simp
  then have "1 / 2 ^ ?m \<le> x" using assms by (simp add: field_simps)
  moreover have "pow2 (f64_exp x) = 1 / 2 ^ ?m" using False b by (simp add: f64_exp_def pow2_def)
  ultimately show ?thesis by simp
qed

lemma half_even_near: "\<bar>of_int (half_even q) - q\<bar> \<le> 1 / 2"
  and half_even_le: "q \<le> of_int m \<Longrightarrow> half_even q \<le> m"
  and half_even_ge: "of_int m \<le> q \<Longrightarrow> m \<le> half_even q"
proof -
  define n where "n = \<lfloor>q\<rfloor>"
  have n: "of_int n \<le> q" "q < of_int n + 1" unfolding n_def by linarith+
  have cases: "half_even q = n \<and> q - of_int n \<le> 1 / 2 \<or> half_even q = n + 1 \<and> 1 / 2 \<le> q - of_int n"
    unfolding half_even_def n_def[symmetric] by (auto simp: Let_def)
  with n show "\<bar>of_int (half_even q) - q\<bar> \<le> 1 / 2" by (auto simp: abs_le_iff)
  show "half_even q \<le> m" if "q \<le> of_int m"
  proof (cases "q = of_int n")
    case True
    with cases that show ?thesis by auto
  next
    case False
    with n(1) that have "of_int n < (of_int m :: rat)" by linarith
    then have "n + 1 \<le> m" by simp
    with cases show ?thesis by auto
  qed
  show "m \<le> half_even q" if "of_int m \<le> q"
  proof -
    from that n(2) have "of_int m < (of_int n + 1 :: rat)" by linarith
    then have "m \<le> n" by (metis of_int_1 of_int_add of_int_less_iff zle_add1_eq_le)
    with cases show ?thesis by auto
  qed
qed

text \<open>
  A positive number below 2 to the 53 is off by at most half a unit in the last place, and stays
  between the whole numbers around it.
\<close>

lemma f64_round_near:
  assumes "0 < x" and "x < 2 ^ 53"
  shows "\<bar>f64_round x - x\<bar> \<le> pow2 (f64_exp x) / 2 ^ 53"
    and "x \<le> of_int m \<Longrightarrow> f64_round x \<le> of_int m" and "of_int m \<le> x \<Longrightarrow> of_int m \<le> f64_round x"
proof -
  define ulp where "ulp = pow2 (f64_exp x - 52)"
  have ulp: "ulp = pow2 (f64_exp x) / 2 ^ 52" unfolding ulp_def using pow2_diff[of "f64_exp x" 52] by simp
  have pos: "0 < ulp" unfolding ulp_def by simp
  have r: "f64_round x = of_int (half_even (x / ulp)) * ulp" using assms(1) by (simp add: f64_round_def ulp_def Let_def)
  have "\<bar>of_int (half_even (x / ulp)) - x / ulp\<bar> * ulp \<le> 1 / 2 * ulp"
    using half_even_near[of "x / ulp"] pos by (intro mult_right_mono) auto
  moreover have "\<bar>of_int (half_even (x / ulp)) - x / ulp\<bar> * ulp = \<bar>f64_round x - x\<bar>"
  proof -
    have "(of_int (half_even (x / ulp)) - x / ulp) * ulp = f64_round x - x" unfolding r using pos by (simp add: left_diff_distrib)
    then show ?thesis using pos by (metis abs_mult abs_of_pos)
  qed
  ultimately have "\<bar>f64_round x - x\<bar> \<le> 1 / 2 * ulp" by linarith
  then show "\<bar>f64_round x - x\<bar> \<le> pow2 (f64_exp x) / 2 ^ 53" unfolding ulp by simp
  have "pow2 (f64_exp x) < 2 ^ 53" using pow2_f64_exp[OF assms(1)] assms(2) by linarith
  have e: "f64_exp x \<le> 52"
  proof (rule ccontr)
    assume "\<not> f64_exp x \<le> 52"
    then have "53 \<le> nat (f64_exp x)" "0 \<le> f64_exp x" by simp_all
    then have "(2 :: rat) ^ 53 \<le> pow2 (f64_exp x)" by (simp add: pow2_def power_increasing del: power_numeral)
    with \<open>pow2 (f64_exp x) < 2 ^ 53\<close> show False by simp
  qed
  define N :: int where "N = 2 ^ nat (52 - f64_exp x)"
  have N: "of_int N * ulp = 1"
  proof -
    have "of_int N = pow2 (52 - f64_exp x)" using e by (simp add: N_def pow2_def)
    moreover have "pow2 (52 - f64_exp x) * ulp = 1"
      unfolding ulp_def using e by (auto simp: pow2_def)
    ultimately show ?thesis by simp
  qed
  have whole: "of_int m / ulp = of_int (m * N)" for m :: int using N pos by (simp add: field_simps)
  show "f64_round x \<le> of_int m" if "x \<le> of_int m"
  proof -
    have "x / ulp \<le> of_int (m * N)" unfolding whole[symmetric] using that pos by (simp add: divide_right_mono)
    from half_even_le[OF this] have "of_int (half_even (x / ulp)) * ulp \<le> of_int (m * N) * ulp" using pos by (simp del: of_int_mult)
    also have "\<dots> = of_int m" using N by (simp add: mult.assoc)
    finally show ?thesis unfolding r .
  qed
  show "of_int m \<le> f64_round x" if "of_int m \<le> x"
  proof -
    have "of_int (m * N) \<le> x / ulp" unfolding whole[symmetric] using that pos by (simp add: divide_right_mono)
    from half_even_ge[OF this] have "of_int (m * N) * ulp \<le> of_int (half_even (x / ulp)) * ulp" using pos by (simp del: of_int_mult)
    moreover have "of_int (m * N) * ulp = of_int m" using N by (simp add: mult.assoc)
    ultimately show ?thesis unfolding r by (simp only:)
  qed
qed

end
