(* ===== verification/Footprint.thy ===== *)
theory Footprint
  imports GoFloat GoStrings
begin

text \<open>
  What a deployment occupies while it runs (\<open>src/internal/flink/footprint.go\<close>), which the metrics of
  released resources show. The unstructured object is what the API machinery's accessor returns for
  a path; Kubernetes quantities and the conversions between numbers with a fraction and text are
  parameters.
\<close>

section \<open>Values of an unstructured object\<close>

text \<open>A field of a type the code does not look at reads like a missing one.\<close>

datatype Any = AFloat float64 | AInt int | AStr string | ANone

type_synonym object = "string list \<Rightarrow> Any"

record 'q Numbers =
  nm_ParseQuantity :: "string \<Rightarrow> 'q option"
  nm_NewQuantity :: "int \<Rightarrow> 'q"
  nm_AsApproximateFloat64 :: "'q \<Rightarrow> float64"
  nm_Value :: "'q \<Rightarrow> int"
  nm_ParseFloat :: "string \<Rightarrow> float64"
  nm_FormatFloat :: "float64 \<Rightarrow> string"

fun NestedString :: "Any \<Rightarrow> string" where
  "NestedString (AStr s) = s"
| "NestedString v = []"

fun any_int64 :: "Any \<Rightarrow> int \<times> bool" where
  "any_int64 (AInt n) = (n, True)"
| "any_int64 (AFloat f) = (float_to_int64 f, True)"
| "any_int64 v = (0, False)"

definition nestedInt64 :: "object \<Rightarrow> string list \<Rightarrow> int \<times> bool" where
  "nestedInt64 u path = any_int64 (u path)"

definition int64Or :: "object \<Rightarrow> int \<Rightarrow> string list \<Rightarrow> int" where
  "int64Or u dflt path = (case nestedInt64 u path of (v, has) \<Rightarrow> if has \<and> 0 < v then v else dflt)"

fun quantity :: "'q Numbers \<Rightarrow> Any \<Rightarrow> 'q option" where
  "quantity nm (AStr x) = nm_ParseQuantity nm x"
| "quantity nm (AInt x) = Some (nm_NewQuantity nm x)"
| "quantity nm (AFloat x) = nm_ParseQuantity nm (nm_FormatFloat nm x)"
| "quantity nm ANone = None"

section \<open>Memory\<close>

definition memory_units :: "(string \<times> int) list" where
  "memory_units = [(''tb'', 2 ^ 40), (''t'', 2 ^ 40), (''gb'', 2 ^ 30), (''g'', 2 ^ 30),
     (''mb'', 2 ^ 20), (''m'', 2 ^ 20), (''kb'', 2 ^ 10), (''k'', 2 ^ 10), (''bytes'', 1), (''b'', 1)]"

text \<open>The loop over the units stops at the first that is a suffix, whether the number can be read or not.\<close>

fun with_unit :: "(string \<times> int) list \<Rightarrow> string \<Rightarrow> int option" where
  "with_unit [] t = None"
| "with_unit ((suf, mult) # units) t =
     (case CutSuffix t suf of (n, ok) \<Rightarrow>
        if ok then (case ParseInt n of (v, ok') \<Rightarrow> if ok' then Some (i64 (v * mult)) else None)
        else with_unit units t)"

definition ParseMemory :: "'q Numbers \<Rightarrow> string \<Rightarrow> int" where
  "ParseMemory nm s =
     (let t = ToLower (filter (\<lambda>c. c \<noteq> CHR '' '') (TrimSpace s))
      in case with_unit memory_units t of
           Some n \<Rightarrow> n
         | None \<Rightarrow>
           (case ParseInt t of (v, ok) \<Rightarrow>
              if ok then v
              else case nm_ParseQuantity nm (TrimSpace s) of Some q \<Rightarrow> nm_Value nm q | None \<Rightarrow> 0))"

section \<open>The footprint\<close>

record Footprint =
  fp_CPU :: float64
  fp_Memory :: int

text \<open>The loop over requests and limits: each fills in what is still zero.\<close>

definition fill_resource :: "'q Numbers \<Rightarrow> object \<Rightarrow> string \<Rightarrow> string \<Rightarrow> float64 \<times> int \<Rightarrow> float64 \<times> int" where
  "fill_resource nm u component kind cm =
     (case cm of (cpu, memory) \<Rightarrow>
        (if cpu = 0
         then (case quantity nm (u [''spec'', component, ''resources'', kind, ''cpu'']) of
                 Some q \<Rightarrow> nm_AsApproximateFloat64 nm q | None \<Rightarrow> cpu)
         else cpu,
         if memory = 0
         then (case quantity nm (u [''spec'', component, ''resources'', kind, ''memory'']) of
                 Some q \<Rightarrow> nm_Value nm q | None \<Rightarrow> memory)
         else memory))"

definition resourceOf :: "'q Numbers \<Rightarrow> object \<Rightarrow> string \<Rightarrow> float64 \<times> int" where
  "resourceOf nm u component =
     (let cpu = (case u [''spec'', component, ''resource'', ''cpu''] of
                   AFloat v \<Rightarrow> v | AInt v \<Rightarrow> f64_round (of_int v) | AStr v \<Rightarrow> nm_ParseFloat nm v | ANone \<Rightarrow> 0);
          m = NestedString (u [''spec'', component, ''resource'', ''memory'']);
          memory = (if m \<noteq> [] then ParseMemory nm m else 0)
      in fold (fill_resource nm u component) [''requests'', ''limits''] (cpu, memory))"

definition task_slots :: "object \<Rightarrow> int" where
  "task_slots u =
     (let s = NestedString (u [''spec'', ''flinkConfiguration'', ''taskmanager.numberOfTaskSlots''])
      in if s \<noteq> [] then (case ParseInt (TrimSpace s) of (n, ok) \<Rightarrow> if ok \<and> 0 < n then n else 1) else 1)"

text \<open>\<open>int64(math.Ceil(float64(parallelism) / float64(slots)))\<close>.\<close>

definition ceil_div :: "int \<Rightarrow> int \<Rightarrow> int" where
  "ceil_div parallelism slots =
     float_to_int64 (of_int \<lceil>f64_round (f64_round (of_int parallelism) / f64_round (of_int slots))\<rceil>)"

definition task_managers :: "object \<Rightarrow> int" where
  "task_managers u =
     (case nestedInt64 u [''spec'', ''taskManager'', ''replicas''] of (tmN, has) \<Rightarrow>
        if \<not> has \<or> tmN \<le> 0
        then ceil_div (int64Or u 1 [''spec'', ''job'', ''parallelism'']) (task_slots u)
        else tmN)"

definition FootprintOf :: "'q Numbers \<Rightarrow> object \<Rightarrow> Footprint" where
  "FootprintOf nm u =
     (case resourceOf nm u ''jobManager'' of (jmCPU, jmMem) \<Rightarrow>
      (case resourceOf nm u ''taskManager'' of (tmCPU, tmMem) \<Rightarrow>
         let jmN = int64Or u 1 [''spec'', ''jobManager'', ''replicas'']; tmN = task_managers u
         in \<lparr>fp_CPU = f64_round (f64_round (jmCPU * f64_round (of_int jmN)) + f64_round (tmCPU * f64_round (of_int tmN))),
             fp_Memory = i64 (i64 (jmMem * jmN) + i64 (tmMem * tmN))\<rparr>))"

section \<open>The count is exact\<close>

lemma f64_round_of_int:
  assumes "0 < n" "n < 2 ^ 53"
  shows "f64_round (of_int n) = of_int n"
proof -
  have "(of_int n :: rat) < of_int (2 ^ 53)" using assms(2) by (simp only: of_int_less_iff)
  then have "0 < (of_int n :: rat)" "(of_int n :: rat) < 2 ^ 53" using assms(1) by simp_all
  from f64_round_near(2)[OF this, of n] f64_round_near(3)[OF this, of n] show ?thesis by simp
qed

lemma ceil_div_exact:
  assumes p: "0 < p" "p < 2 ^ 53" and s: "0 < s" "s < 2 ^ 53"
  shows "ceil_div p s = (p + s - 1) div s"
proof -
  define x :: rat where "x = of_int p / of_int s"
  define k where "k = p div s"
  have pr: "(of_int p :: rat) < 2 ^ 53"
    using p(2) by (metis of_int_less_iff of_int_numeral of_int_power)
  have x: "0 < x" using p s by (simp add: x_def)
  have "x \<le> of_int p" using p s by (simp add: x_def field_simps)
  with pr have xb: "x < 2 ^ 53" by linarith
  note near = f64_round_near[OF x xb]
  have "\<lceil>f64_round x\<rceil> = (p + s - 1) div s"
  proof (cases "p mod s = 0")
    case True
    then have "x = of_int k" using s by (auto simp: x_def k_def)
    then have "f64_round x = of_int k" using near(2)[of k] near(3)[of k] by simp
    moreover have "(p + s - 1) div s = k"
    proof -
      have "p = k * s" using True by (auto simp: k_def)
      then show ?thesis using s by (simp add: div_plus_div_distrib_dvd_left add_diff_eq[symmetric])
    qed
    ultimately show ?thesis by simp
  next
    case False
    have ps: "p = k * s + p mod s" by (simp add: k_def)
    have m: "1 \<le> p mod s" "p mod s < s" using False s pos_mod_bound[of s p] pos_mod_sign[of s p] by linarith+
    have xk: "x = of_int k + of_int (p mod s) / of_int s"
      unfolding x_def by (subst ps) (use s in \<open>simp add: add_divide_distrib\<close>)
    have frac: "1 / of_int s \<le> (of_int (p mod s) / of_int s :: rat)" "of_int (p mod s) / of_int s < (1 :: rat)"
      using m s by (simp_all add: divide_right_mono)
    have "\<lceil>f64_round x\<rceil> \<le> k + 1"
      using near(2)[of "k + 1"] xk frac(2) by (simp add: ceiling_le_iff)
    moreover have "of_int k < f64_round x"
    proof -
      have "pow2 (f64_exp x) * of_int s \<le> of_int p"
        using pow2_f64_exp[OF x] s by (simp add: x_def field_simps)
      then have "pow2 (f64_exp x) / 2 ^ 53 < 1 / of_int s" using pr s by (simp add: field_simps)
      with near(1) xk frac(1) show ?thesis by linarith
    qed
    ultimately have "\<lceil>f64_round x\<rceil> = k + 1" by linarith
    moreover have "(p + s - 1) div s = k + 1"
    proof -
      have "p + s - 1 = (p mod s - 1) + s * (k + 1)" using ps by (simp add: algebra_simps)
      then have "(p + s - 1) div s = (p mod s - 1) div s + (k + 1)" using s by (simp only: div_mult_self2[OF less_imp_neq[symmetric]])
      moreover have "(p mod s - 1) div s = 0" using m by (intro div_pos_pos_trivial) auto
      ultimately show ?thesis by simp
    qed
    ultimately show ?thesis by simp
  qed
  moreover have "minInt64 \<le> (p + s - 1) div s \<and> (p + s - 1) div s \<le> maxInt64"
  proof -
    have "0 \<le> (p + s - 1) div s" using p s by (simp add: pos_imp_zdiv_nonneg_iff)
    moreover have "(p + s - 1) div s \<le> p + s - 1" using p s zdiv_mono2[of "p + s - 1" 1 s] by simp
    ultimately show ?thesis using p s by simp
  qed
  ultimately show ?thesis
    unfolding ceil_div_def using f64_round_of_int[OF p] f64_round_of_int[OF s]
    by (simp add: x_def[symmetric] float_to_int64_def f64_to_i64_def)
qed

text \<open>
  C38. The footprint counts the TaskManagers the operator starts. With a positive number of replicas
  in the spec that is the count; otherwise it is the parallelism divided by the slots, rounded up,
  although the code divides in \<open>float64\<close>: for every parallelism and slot count below 2 to the 53 the
  rounding of the quotient never reaches a whole number it should not.
\<close>

theorem task_managers_exact:
  assumes "int64Or u 1 [''spec'', ''job'', ''parallelism''] < 2 ^ 53" and "task_slots u < 2 ^ 53"
  shows "task_managers u =
     (case nestedInt64 u [''spec'', ''taskManager'', ''replicas''] of (n, has) \<Rightarrow>
        if has \<and> 0 < n then n
        else (int64Or u 1 [''spec'', ''job'', ''parallelism''] + task_slots u - 1) div task_slots u)"
proof -
  have "0 < int64Or u 1 [''spec'', ''job'', ''parallelism'']" by (simp add: int64Or_def split: prod.split)
  moreover have "0 < task_slots u" by (simp add: task_slots_def Let_def split: prod.split)
  ultimately show ?thesis
    using assms ceil_div_exact by (auto simp: task_managers_def split: prod.split)
qed

text \<open>A deployment with parallelism 6 and four slots to a TaskManager.\<close>

definition example_object :: object where
  "example_object path =
     (if path = [''spec'', ''job'', ''parallelism''] then AInt 6
      else if path = [''spec'', ''flinkConfiguration'', ''taskmanager.numberOfTaskSlots''] then AStr ''4'' else ANone)"

theorem task_managers_exact_witness: "task_managers example_object = 2"
proof -
  have "int64Or example_object 1 [''spec'', ''job'', ''parallelism''] = 6" "task_slots example_object = 4"
    "nestedInt64 example_object [''spec'', ''taskManager'', ''replicas''] = (0, False)" by code_simp+
  with task_managers_exact[of example_object] show ?thesis by simp
qed

end
