(* ===== verification/JobGate.thy ===== *)
theory JobGate
  imports Scenario
begin

text \<open>
  What the job gate answers (\<open>src/internal/decide/jobgate.go\<close>): it says idle exactly when
  every declared partition is read to its end and the source has been quiet long enough.
\<close>

section \<open>Caught up\<close>

definition drained_at :: "JobReading \<Rightarrow> string \<Rightarrow> int \<Rightarrow> bool" where
  "drained_at reading topic p \<longleftrightarrow>
     (case map_of (jr_Drained reading) topic of None \<Rightarrow> False | Some m \<Rightarrow> map_of m p = Some True)"

text \<open>
  A partition with nothing left for the job: its end is known, the job reports an offset for
  it, and either the reader has nothing to emit up to the end, or the broker confirmed that
  only markers lie in between, or the reader has never emitted from it but has been emitting
  from others.
\<close>

definition nothing_pending :: "JobReading \<Rightarrow> string \<Rightarrow> (int, int) gomap \<Rightarrow> int \<Rightarrow> int \<Rightarrow> bool" where
  "nothing_pending reading topic cur p e \<longleftrightarrow>
     0 \<le> e \<and>
     (case map_of cur p of
        None \<Rightarrow> False
      | Some em \<Rightarrow>
          if em = InitialOffset then e = 0 \<or> jr_IdleFor reading \<noteq> 0
          else drained_at reading topic p \<or> e \<le> em + 1)"

fun partitions_caught_up :: "JobReading \<Rightarrow> string \<Rightarrow> (int, int) gomap \<Rightarrow> int \<Rightarrow> int list \<Rightarrow> bool" where
  "partitions_caught_up reading topic cur p [] = True"
| "partitions_caught_up reading topic cur p (e # es) \<longleftrightarrow>
     nothing_pending reading topic cur p e \<and> partitions_caught_up reading topic cur (p + 1) es"

definition topic_caught_up :: "(string, int list) gomap \<Rightarrow> JobReading \<Rightarrow> string \<Rightarrow> bool" where
  "topic_caught_up ends reading topic \<longleftrightarrow>
     (case (map_of ends topic, map_of (jr_Offsets reading) topic) of
        (Some es, Some cur) \<Rightarrow> es \<noteq> [] \<and> partitions_caught_up reading topic cur 0 es
      | _ \<Rightarrow> False)"

text \<open>Offsets as Kafka has them: the records of all sources together are counted by an \<open>int64\<close>.\<close>

definition emitted_ok :: "(int, int) gomap \<Rightarrow> bool" where
  "emitted_ok cur \<longleftrightarrow> list_all (\<lambda>(p, em). -1 \<le> em \<and> em < maxInt64) cur"

definition end_sum :: "int list \<Rightarrow> int" where
  "end_sum es = sum_list (map (max 0) es)"

definition ends_of :: "(string, int list) gomap \<Rightarrow> string \<Rightarrow> int list" where
  "ends_of ends topic = (case map_of ends topic of None \<Rightarrow> [] | Some es \<Rightarrow> es)"

definition offsets_ok :: "string list \<Rightarrow> (string, int list) gomap \<Rightarrow> JobReading \<Rightarrow> bool" where
  "offsets_ok sources ends reading \<longleftrightarrow>
     list_all (\<lambda>(topic, cur). emitted_ok cur) (jr_Offsets reading) \<and>
     sum_list (map (\<lambda>t. end_sum (ends_of ends t)) sources) \<le> maxInt64"

lemma end_sum_nonneg [simp]: "0 \<le> end_sum es"
  by (induction es) (simp_all add: end_sum_def)

lemma end_sum_Cons: "end_sum (e # es) = max 0 e + end_sum es"
  by (simp add: end_sum_def)

section \<open>The count of a partition\<close>

lemma emitted_ok_lookup: "emitted_ok cur \<Longrightarrow> map_of cur p = Some em \<Longrightarrow> -1 \<le> em \<and> em < maxInt64"
  by (auto simp: emitted_ok_def list_all_iff dest!: map_of_SomeD)

lemma partition_pending_range:
  assumes "emitted_ok cur" and "e \<le> maxInt64" and "partition_pending topic cur reading p e = Inr n"
  shows "0 \<le> n \<and> n \<le> e"
proof (cases "map_of cur p")
  case None
  with assms show ?thesis by (simp add: partition_pending_def split: if_splits)
next
  case (Some em)
  have em: "-1 \<le> em" "em < maxInt64" using emitted_ok_lookup[OF assms(1) Some] by simp_all
  then have w: "i64 (em + 1) = em + 1" by (intro i64_id) simp_all
  have "0 \<le> e" using assms(3) by (auto simp: partition_pending_def split: if_splits)
  moreover from this em assms(2) have "i64 (e - (em + 1)) = e - (em + 1)" by (intro i64_id) simp_all
  ultimately show ?thesis
    using assms(3) Some w em by (auto simp: partition_pending_def split: if_splits)
qed

lemma partition_pending_zero:
  assumes "emitted_ok cur" and "e \<le> maxInt64"
  shows "partition_pending topic cur reading p e = Inr 0 \<longleftrightarrow> nothing_pending reading topic cur p e"
proof (cases "0 \<le> e \<and> map_of cur p \<noteq> None")
  case False
  then show ?thesis by (auto simp: partition_pending_def nothing_pending_def)
next
  case True
  then obtain em where em: "map_of cur p = Some em" by auto
  then have r: "-1 \<le> em" "em < maxInt64" using emitted_ok_lookup[OF assms(1)] by simp_all
  then have w: "i64 (em + 1) = em + 1" by (intro i64_id) simp_all
  have w2: "i64 (e - (em + 1)) = e - (em + 1)" using True assms(2) r by (intro i64_id) simp_all
  show ?thesis
    using True em w w2
    by (auto simp: partition_pending_def nothing_pending_def drained_at_def max_def split: option.split)
qed

section \<open>The loops\<close>

lemma gate_partitions_range:
  assumes "gate_partitions topic cur reading p es acc = Inr n"
    and "emitted_ok cur" and "0 \<le> acc" and "acc + end_sum es \<le> maxInt64"
  shows "acc \<le> n \<and> n \<le> acc + end_sum es"
  using assms
proof (induction es arbitrary: p acc)
  case (Cons e es)
  have le: "e \<le> maxInt64" using Cons.prems(3,4) end_sum_nonneg[of es] unfolding end_sum_Cons by linarith
  obtain m where m: "partition_pending topic cur reading p e = Inr m"
    and rest: "gate_partitions topic cur reading (p + 1) es (i64 (acc + m)) = Inr n"
    using Cons.prems(1) by (auto split: sum.splits)
  have r: "0 \<le> m" "m \<le> e" using partition_pending_range[OF Cons.prems(2) le m] by auto
  have "acc + m + end_sum es \<le> maxInt64" using Cons.prems(4) r by (simp add: end_sum_Cons)
  moreover from this have "i64 (acc + m) = acc + m"
    using r Cons.prems(3) end_sum_nonneg[of es] by (intro i64_id) linarith+
  ultimately have "acc + m \<le> n \<and> n \<le> acc + m + end_sum es"
    using Cons.IH[of "p + 1" "acc + m"] rest Cons.prems(2,3) r by simp
  with r show ?case by (simp add: end_sum_Cons)
qed (simp add: end_sum_def)

lemma gate_partitions_zero:
  assumes "emitted_ok cur" and "0 \<le> acc" and "acc + end_sum es \<le> maxInt64"
  shows "gate_partitions topic cur reading p es acc = Inr 0 \<longleftrightarrow>
     acc = 0 \<and> partitions_caught_up reading topic cur p es"
  using assms
proof (induction es arbitrary: p acc)
  case (Cons e es)
  have le: "e \<le> maxInt64" using Cons.prems(2,3) end_sum_nonneg[of es] unfolding end_sum_Cons by linarith
  note zero = partition_pending_zero[OF Cons.prems(1) le, of topic reading p, symmetric]
  show ?case
  proof (cases "partition_pending topic cur reading p e")
    case (Inl r)
    then show ?thesis using zero by simp
  next
    case (Inr m)
    have r: "0 \<le> m" "m \<le> e" using partition_pending_range[OF Cons.prems(1) le Inr] by auto
    have b: "acc + m + end_sum es \<le> maxInt64" using Cons.prems(3) r by (simp add: end_sum_Cons)
    then have "i64 (acc + m) = acc + m"
      using r Cons.prems(2) end_sum_nonneg[of es] by (intro i64_id) linarith+
    moreover have "acc + m = 0 \<longleftrightarrow> acc = 0 \<and> m = 0" using r Cons.prems(2) by linarith
    ultimately show ?thesis
      using Cons.IH[of "acc + m" "p + 1"] Cons.prems(1,2) b r Inr zero by auto
  qed
qed simp

lemma gate_topics_zero:
  assumes "list_all (\<lambda>(topic, cur). emitted_ok cur) (jr_Offsets reading)" and "0 \<le> acc"
    and "acc + sum_list (map (\<lambda>t. end_sum (ends_of ends t)) topics) \<le> maxInt64"
  shows "(\<exists>n. gate_topics ends reading topics acc = Inr n \<and> n \<le> 0) \<longleftrightarrow>
     acc = 0 \<and> list_all (topic_caught_up ends reading) topics"
  using assms
proof (induction topics arbitrary: acc)
  case (Cons topic topics)
  let ?rest = "sum_list (map (\<lambda>t. end_sum (ends_of ends t)) topics)"
  have rest: "0 \<le> ?rest" by (intro sum_list_nonneg) auto
  consider es cur where "map_of ends topic = Some es" "es \<noteq> []" "map_of (jr_Offsets reading) topic = Some cur"
    | "map_of ends topic = None \<or> map_of ends topic = Some [] \<or> map_of (jr_Offsets reading) topic = None"
    by (cases "map_of ends topic"; cases "map_of (jr_Offsets reading) topic") auto
  then show ?case
  proof cases
    case (1 es cur)
    have ok: "emitted_ok cur"
      using Cons.prems(1) 1(3) by (auto simp: list_all_iff dest!: map_of_SomeD)
    have sum: "acc + end_sum es + ?rest \<le> maxInt64"
      using Cons.prems(3) 1(1) by (simp add: ends_of_def)
    then have b: "acc + end_sum es \<le> maxInt64" using rest by linarith
    have t: "topic_caught_up ends reading topic \<longleftrightarrow> partitions_caught_up reading topic cur 0 es"
      using 1 by (simp add: topic_caught_up_def)
    have g: "gate_topics ends reading (topic # topics) acc =
        (case gate_partitions topic cur reading 0 es acc of Inl r \<Rightarrow> Inl r
         | Inr n \<Rightarrow> gate_topics ends reading topics n)"
      using 1 by (cases es) simp_all
    note zero = gate_partitions_zero[OF ok Cons.prems(2) b, of topic reading 0]
    show ?thesis
    proof (cases "gate_partitions topic cur reading 0 es acc")
      case (Inl r)
      then show ?thesis using zero t by (auto simp: g simp del: gate_topics.simps)
    next
      case (Inr n)
      note r = gate_partitions_range[OF Inr ok Cons.prems(2) b]
      then have "(\<exists>m. gate_topics ends reading topics n = Inr m \<and> m \<le> 0) \<longleftrightarrow>
          n = 0 \<and> list_all (topic_caught_up ends reading) topics"
        using Cons.prems(1,2) sum by (intro Cons.IH) auto
      then show ?thesis using Inr zero t by (auto simp: g simp del: gate_topics.simps)
    qed
  next
    case 2
    then show ?thesis by (auto simp: topic_caught_up_def split: option.split list.split)
  qed
qed simp

section \<open>The answer\<close>

lemma gate_topics_not_idle: "gate_topics ends reading sources acc = Inl r \<Longrightarrow> fst r \<noteq> JobIdle"
proof -
  have pending: "g \<noteq> JobIdle" if "partition_pending t cur reading p e = Inl (g, m)" for t cur p e g m
    using that by (auto simp: partition_pending_def split: if_splits option.splits)
  have part: "g \<noteq> JobIdle" if "gate_partitions t cur reading p es a = Inl (g, m)" for t cur p es a g m
    using that by (induction es arbitrary: p a) (auto split: sum.splits dest: pending)
  show "gate_topics ends reading sources acc = Inl r \<Longrightarrow> fst r \<noteq> JobIdle"
    by (induction sources arbitrary: acc)
       (auto split: option.splits list.splits sum.splits dest: part pending)
qed

lemma idle_caught_up:
  assumes "offsets_ok sources ends reading" and "fst (jobGate sources ends reading q) = JobIdle"
  shows "list_all (topic_caught_up ends reading) sources"
  using assms gate_topics_zero[of reading 0 ends sources] gate_topics_not_idle
  by (auto simp: jobGate_def offsets_ok_def split: sum.splits if_splits)

text \<open>
  C28. The job gate says idle only on evidence. As long as the offsets of all sources together
  fit an \<open>int64\<close>, the gate answers idle exactly when every partition of every
  declared topic has a known end and a reported offset with nothing left to emit, and the
  source has been quiet for at least the window. One missing topic, partition or end, or one
  record left, and the answer is unknown or busy.
\<close>

theorem jobGate_idle_iff:
  assumes "offsets_ok sources ends reading"
  shows "fst (jobGate sources ends reading q) = JobIdle \<longleftrightarrow>
     list_all (topic_caught_up ends reading) sources \<and> q \<le> jr_IdleFor reading"
proof -
  have "(\<exists>n. gate_topics ends reading sources 0 = Inr n \<and> n \<le> 0) \<longleftrightarrow>
      list_all (topic_caught_up ends reading) sources"
    using gate_topics_zero[of reading 0 ends sources] assms by (simp add: offsets_ok_def)
  then show ?thesis using gate_topics_not_idle by (auto simp: jobGate_def split: sum.split)
qed

definition orders_ends :: "(string, int list) gomap" where
  "orders_ends = [(''orders'', [8812, 0, 9001])]"

definition orders_reading :: JobReading where
  "orders_reading = \<lparr>jr_Offsets = [(''orders'', [(0, 8811), (1, -1), (2, 8990)])], jr_IdleFor = 2 * Minute,
     jr_Drained = [(''orders'', [(2, True)])]\<rparr>"

theorem jobGate_idle_iff_witness:
  "fst (jobGate [''orders''] orders_ends orders_reading Minute) = JobIdle \<and>
   fst (jobGate [''orders''] orders_ends (orders_reading\<lparr>jr_Drained := []\<rparr>) Minute) \<noteq> JobIdle"
proof -
  have ok: "offsets_ok [''orders''] orders_ends orders_reading"
    "offsets_ok [''orders''] orders_ends (orders_reading\<lparr>jr_Drained := []\<rparr>)" by code_simp+
  show ?thesis unfolding jobGate_idle_iff[OF ok(1)] jobGate_idle_iff[OF ok(2)] by code_simp
qed

end
