(* ===== verification/JobProps.thy ===== *)
theory JobProps
  imports Reconciler JobGate
begin

text \<open>
  What a tick asks about the running job: the bounded questions about what lies between a job's
  position and the end offsets, and when the topics a job shows are taken as its answer.
\<close>

section \<open>Questions about drained partitions\<close>

definition gap_questions :: "'w Proc \<Rightarrow> int" where
  "gap_questions ps = int (length (filter (\<lambda>e. e = ProbeDuration ''gap'') (pr_log ps)))"

lemma gap_asked:
  "known ''gap'' err (timed ''gap'' ps w) = (ps', ok) \<Longrightarrow> gap_questions ps' = gap_questions ps + 1 \<and> ss_world ps' = w \<and> (ok \<longleftrightarrow> err = None)"
  by (auto simp: known_def timed_def gap_questions_def split: option.splits)

text \<open>The partition is marked drained.\<close>

definition marked_drained :: "(string, (int, bool) gomap) gomap \<Rightarrow> string \<Rightarrow> int \<Rightarrow> bool" where
  "marked_drained out topic p \<longleftrightarrow> (case map_of out topic of None \<Rightarrow> False | Some m \<Rightarrow> map_of m p = Some True)"

lemma marked_drained_put:
  "marked_drained (map_put topic (map_put p True (case map_of out topic of None \<Rightarrow> [] | Some m \<Rightarrow> m)) out) t q \<longleftrightarrow>
     (t = topic \<and> q = p) \<or> marked_drained out t q"
  by (auto simp: marked_drained_def split: option.splits)

text \<open>
  The broker, in a world that is fine, said that nothing a consumer is given lies between the job's
  position and the end.
\<close>

definition nothing_between ::
  "('w \<Rightarrow> bool) \<Rightarrow> ('w \<Rightarrow> string \<Rightarrow> int \<Rightarrow> int \<Rightarrow> int \<Rightarrow> 'w \<times> bool \<times> goerr option) \<Rightarrow> (int, int) gomap \<Rightarrow> string \<Rightarrow> int \<Rightarrow> int \<Rightarrow> bool" where
  "nothing_between fine gaps cur topic p e \<longleftrightarrow>
     (\<exists>w w' emitted. fine w \<and> map_of cur p = Some emitted \<and> 0 \<le> emitted \<and> i64 (emitted + 1) < e \<and>
        gaps w topic p (i64 (emitted + 1)) e = (w', False, None))"

text \<open>
  The interface of the gap probe: in a world that is fine, a question leaves one that is. The loops
  of \<open>drained\<close> mark a partition only on what such a world said.
\<close>

locale gap_probe =
  fixes gaps :: "'w \<Rightarrow> string \<Rightarrow> int \<Rightarrow> int \<Rightarrow> int \<Rightarrow> 'w \<times> bool \<times> goerr option"
    and fine :: "'w \<Rightarrow> bool"
  assumes kept: "fine w \<Longrightarrow> gaps w topic p from to = (w', records, err) \<Longrightarrow> fine w'"
begin

lemma drained_partitions_ok:
  assumes "drained_partitions gaps cur topic p es asked out ps = (ps', asked', out', stop)" and "asked \<le> drainedChecks"
    and "fine (ss_world ps)"
  shows "fine (ss_world ps') \<and> gap_questions ps' + asked \<le> gap_questions ps + drainedChecks \<and>
     (\<not> stop \<longrightarrow> asked' \<le> drainedChecks \<and> gap_questions ps' + asked = gap_questions ps + asked') \<and>
     (\<forall>t q. marked_drained out' t q \<longrightarrow> marked_drained out t q \<or>
        t = topic \<and> (\<exists>i < length es. q = p + int i \<and> nothing_between fine gaps cur topic q (es ! i)))"
  using assms
proof (induction es arbitrary: p asked out ps)
  case (Cons e es)
  define emitted where "emitted = (case map_of cur p of None \<Rightarrow> -1 | Some n \<Rightarrow> n)"
  have shift: "\<exists>i < length (e # es). q = p + int i \<and> nothing_between fine gaps cur topic q ((e # es) ! i)"
    if "\<exists>i < length es. q = p + 1 + int i \<and> nothing_between fine gaps cur topic q (es ! i)" for q
    using that by (auto intro: exI[of _ "Suc i" for i])
  consider (skip) "emitted < 0 \<or> e \<le> i64 (emitted + 1)" | (full) "\<not> (emitted < 0 \<or> e \<le> i64 (emitted + 1))" "drainedChecks < asked + 1"
    | (ask) "\<not> (emitted < 0 \<or> e \<le> i64 (emitted + 1))" "asked + 1 \<le> drainedChecks" by linarith
  then show ?case
  proof cases
    case skip
    then have "drained_partitions gaps cur topic (p + 1) es asked out ps = (ps', asked', out', stop)"
      using Cons.prems(1) by (simp add: emitted_def[symmetric] Let_def)
    from Cons.IH[OF this Cons.prems(2,3)] shift show ?thesis by blast
  next
    case full
    then show ?thesis using Cons.prems by (auto simp: emitted_def[symmetric] Let_def)
  next
    case ask
    obtain w records err where g: "gaps (ss_world ps) topic p (i64 (emitted + 1)) e = (w, records, err)" by (metis prod_cases3)
    obtain ps1 ok where k: "known ''gap'' err (timed ''gap'' ps w) = (ps1, ok)" by (rule prod.exhaust)
    let ?out = "if ok \<and> \<not> records then map_put topic (map_put p True (case map_of out topic of None \<Rightarrow> [] | Some m \<Rightarrow> m)) out else out"
    have r: "drained_partitions gaps cur topic (p + 1) es (asked + 1) ?out ps1 = (ps', asked', out', stop)"
      using Cons.prems(1) ask by (simp add: emitted_def[symmetric] Let_def g k)
    note q = gap_asked[OF k]
    have "fine (ss_world ps1)" using kept[OF Cons.prems(3) g] q by simp
    note ih = Cons.IH[OF r ask(2) this]
    have "nothing_between fine gaps cur topic p e" if "ok" "\<not> records"
      using that q g ask(1) Cons.prems(3) by (auto simp: nothing_between_def emitted_def split: option.splits)
    then have new: "marked_drained ?out t q \<Longrightarrow> marked_drained out t q \<or> t = topic \<and> (\<exists>i < length (e # es). q = p + int i \<and> nothing_between fine gaps cur topic q ((e # es) ! i))" for t q
      by (auto simp: marked_drained_put split: if_splits intro: exI[of _ 0])
    have "marked_drained out' t q \<Longrightarrow> marked_drained out t q \<or> t = topic \<and> (\<exists>i < length (e # es). q = p + int i \<and> nothing_between fine gaps cur topic q ((e # es) ! i))" for t q
      using ih new shift by blast
    then show ?thesis using ih q by auto
  qed
qed auto

lemma drained_topics_ok:
  assumes "drained_topics gaps ends reading topics asked out ps = (ps', out')" and "asked \<le> drainedChecks" and "fine (ss_world ps)"
  shows "fine (ss_world ps') \<and> gap_questions ps' + asked \<le> gap_questions ps + drainedChecks \<and>
     (\<forall>t q. marked_drained out' t q \<longrightarrow> marked_drained out t q \<or>
        (\<exists>es cur. map_of ends t = Some es \<and> map_of (jr_Offsets reading) t = Some cur \<and>
           (\<exists>i < length es. q = int i \<and> nothing_between fine gaps cur t q (es ! i))))"
  using assms
proof (induction topics arbitrary: asked out ps)
  case (Cons topic topics)
  let ?cur = "case map_of (jr_Offsets reading) topic of None \<Rightarrow> [] | Some m \<Rightarrow> m"
  let ?es = "case map_of ends topic of None \<Rightarrow> [] | Some es \<Rightarrow> es"
  obtain ps1 asked1 out1 stop where p: "drained_partitions gaps ?cur topic 0 ?es asked out ps = (ps1, asked1, out1, stop)"
    by (metis prod_cases4)
  note part = drained_partitions_ok[OF p Cons.prems(2,3)]
  have here: "\<exists>es cur. map_of ends topic = Some es \<and> map_of (jr_Offsets reading) topic = Some cur \<and>
      (\<exists>i < length es. q = int i \<and> nothing_between fine gaps cur topic q (es ! i))"
    if "\<exists>i < length ?es. q = 0 + int i \<and> nothing_between fine gaps ?cur topic q (?es ! i)" for q
    using that by (auto simp: nothing_between_def split: option.splits)
  show ?case
  proof (cases stop)
    case True
    with Cons.prems(1) p have "ps' = ps1" "out' = out1" by auto
    with part here show ?thesis by blast
  next
    case False
    with Cons.prems(1) p have "drained_topics gaps ends reading topics asked1 out1 ps1 = (ps', out')" by simp
    from Cons.IH[OF this] part False have ih: "fine (ss_world ps')" "gap_questions ps' + asked1 \<le> gap_questions ps1 + drainedChecks"
      "\<forall>t q. marked_drained out' t q \<longrightarrow> marked_drained out1 t q \<or>
        (\<exists>es cur. map_of ends t = Some es \<and> map_of (jr_Offsets reading) t = Some cur \<and>
           (\<exists>i < length es. q = int i \<and> nothing_between fine gaps cur t q (es ! i)))" by blast+
    have "gap_questions ps' + asked \<le> gap_questions ps + drainedChecks" using ih(2) part False by linarith
    then show ?thesis using ih(1,3) part here by blast
  qed
qed auto

end

text \<open>Any probe will do where nothing is asked of the world.\<close>

interpretation any: gap_probe gaps "\<lambda>w. True" for gaps
  by unfold_locales simp

text \<open>
  C29. A tick asks the broker at most sixteen questions about a job's partitions, and a partition
  is marked drained only on a plain answer: the job reported a position in it, the end offset
  lies beyond, and the broker said without error that no record lies in between. A partition
  that was not asked about, or whose question failed, is never marked.
\<close>

theorem drained_bounded_and_sound:
  assumes "drained r sources ends reading ps = (ps', out)"
  shows "gap_questions ps' \<le> gap_questions ps + 16 \<and>
     (marked_drained out topic p \<longrightarrow>
        (\<exists>gaps es cur. rc_Gaps r = Some gaps \<and> map_of ends topic = Some es \<and> map_of (jr_Offsets reading) topic = Some cur \<and>
           0 \<le> p \<and> nat p < length es \<and> nothing_between (\<lambda>w. True) gaps cur topic p (es ! nat p)))"
proof (cases "rc_Gaps r")
  case None
  with assms show ?thesis by (auto simp: drained_def marked_drained_def)
next
  case (Some gaps)
  show ?thesis
  proof (cases "jr_IdleFor reading < quiet (rc_Decider r)")
    case True
    with assms Some show ?thesis by (auto simp: drained_def marked_drained_def)
  next
    case False
    with assms Some have d: "drained_topics gaps ends reading sources 0 [] ps = (ps', out)" by (simp add: drained_def)
    have "(0::int) \<le> drainedChecks" by (simp add: drainedChecks_def)
    note ok = any.drained_topics_ok[OF d this TrueI]
    have "\<not> marked_drained [] topic p" by (simp add: marked_drained_def)
    then have "\<exists>es cur. map_of ends topic = Some es \<and> map_of (jr_Offsets reading) topic = Some cur \<and> 0 \<le> p \<and> nat p < length es \<and>
        nothing_between (\<lambda>w. True) gaps cur topic p (es ! nat p)" if "marked_drained out topic p"
      using ok that by fastforce
    with ok Some show ?thesis by (auto simp: drainedChecks_def)
  qed
qed

section \<open>The topics a job shows\<close>

text \<open>
  The answers one job instance has given so far, each with its time, and the cached job they
  lead to.
\<close>

inductive shown :: "string \<Rightarrow> (time \<times> string list) list \<Rightarrow> cachedJob \<Rightarrow> bool" for job where
  started: "shown job [] (zero_cachedJob\<lparr>cj_id := job\<rparr>)"
| answered: "shown job answers c \<Longrightarrow> shown job (answers @ [(now, sr_Topics src)]) (note_answer c src now)"

inductive_cases shown_NilE: "shown job [] c"

text \<open>The last answers, from the one at \<open>cj_since\<close> on, are all the same.\<close>

definition holds_since :: "(time \<times> string list) list \<Rightarrow> cachedJob \<Rightarrow> bool" where
  "holds_since answers c \<longleftrightarrow>
     (\<exists>i < length answers. cj_since c = fst (answers ! i) \<and>
        (\<forall>n < length answers. i \<le> n \<longrightarrow> snd (answers ! n) = sr_Topics (cj_src c)))"

lemma i64_succ: "minInt64 \<le> a \<Longrightarrow> a \<le> maxInt64 \<Longrightarrow> i64 (a + 1) \<le> a + 1"
  by (cases "a = maxInt64") (simp_all add: i64_def)

lemma shown_inv:
  assumes "shown job answers c"
  shows "cj_id c = job \<and> minInt64 \<le> cj_attempts c \<and> cj_attempts c \<le> maxInt64 \<and> cj_attempts c \<le> int (length answers) \<and>
     (if answers = [] then cj_attempts c = 0 \<and> sr_Topics (cj_src c) = []
      else cj_last c = fst (last answers) \<and> snd (last answers) = sr_Topics (cj_src c) \<and> holds_since answers c)"
  using assms
proof induction
  case started
  then show ?case by (simp add: zero_cachedJob_def zero_sources_def)
next
  case (answered answers c now src)
  let ?h = "answers @ [(now, sr_Topics src)]" and ?c = "note_answer c src now"
  have n: "cj_id ?c = cj_id c" "cj_attempts ?c = i64 (cj_attempts c + 1)" "cj_last ?c = now" "cj_src ?c = src"
    "cj_since ?c = (if cj_attempts c = 0 \<or> sr_Topics src \<noteq> sr_Topics (cj_src c) then now else cj_since c)"
    by (simp_all add: note_answer_def)
  have "holds_since ?h ?c"
  proof (cases "cj_attempts c = 0 \<or> sr_Topics src \<noteq> sr_Topics (cj_src c)")
    case True
    then show ?thesis unfolding holds_since_def n by (intro exI[of _ "length answers"]) (auto simp: nth_append)
  next
    case False
    then have "answers \<noteq> []" using answered.IH by auto
    with answered.IH obtain i where i: "i < length answers" "cj_since c = fst (answers ! i)"
      "\<forall>n < length answers. i \<le> n \<longrightarrow> snd (answers ! n) = sr_Topics (cj_src c)" by (auto simp: holds_since_def)
    with False show ?thesis unfolding holds_since_def n by (intro exI[of _ i]) (auto simp: nth_append less_Suc_eq)
  qed
  moreover have "i64 (cj_attempts c + 1) \<le> cj_attempts c + 1" using answered.IH by (intro i64_succ) auto
  moreover have "cj_attempts c \<le> int (length answers)" using answered.IH by blast
  ultimately show ?case using answered.IH i64_range[of "cj_attempts c + 1"] by (auto simp: n)
qed

lemma shown_settled:
  assumes "shown job answers c" and "stable c \<or> (sr_Topics (cj_src c) = [] \<and> sourceAttempts \<le> cj_attempts c)"
  shows "if sr_Topics (cj_src c) = [] then 3 \<le> length answers \<and> snd (last answers) = []
     else \<exists>i < length answers. sourceSettle \<le> Sub (fst (last answers)) (fst (answers ! i)) \<and>
       (\<forall>n < length answers. i \<le> n \<longrightarrow> snd (answers ! n) = sr_Topics (cj_src c))"
proof (cases "sr_Topics (cj_src c) = []")
  case True
  then have "3 \<le> cj_attempts c" using assms(2) by (auto simp: stable_def sourceAttempts_def)
  then have "3 \<le> length answers" using shown_inv[OF assms(1)] by linarith
  moreover from this have "answers \<noteq> []" by auto
  ultimately show ?thesis using True shown_inv[OF assms(1)] by auto
next
  case False
  then have "stable c" using assms(2) by simp
  moreover have "answers \<noteq> []" using False shown_inv[OF assms(1)] by auto
  ultimately show ?thesis
    using False shown_inv[OF assms(1)] by (auto simp: stable_def holds_since_def)
qed


end
