(* ===== verification/Gap.thy ===== *)
theory Gap
  imports Probe "HOL-Library.Word"
begin

text \<open>
  The transaction gap probe (\<open>src/internal/probe/gap.go\<close>): whether a partition holds a record in a
  range of offsets that a reader of committed data would be given. The client library is not part
  of the repository: what the metadata and fetch calls answer, the decoder of a record batch and
  the meaning of an error code are a parameter. The bytes of a response are walked as the code
  walks them.
\<close>

unbundle bit_operations_syntax

section \<open>What the client library answers\<close>

type_synonym byte = "8 word"

record PartitionDetail =
  pd_Err :: "goerr option"
  pd_Leader :: int

record TopicDetail =
  td_ID :: string
  td_Err :: "goerr option"
  td_Partitions :: "(int, PartitionDetail) gomap"

record AbortedTransaction =
  at_ProducerID :: int
  at_FirstOffset :: int

record FetchPartition =
  fp_ErrorCode :: int
  fp_LastStableOffset :: int
  fp_AbortedTransactions :: "AbortedTransaction list"
  fp_RecordBatches :: "byte list"

record RecordBatch =
  rb_FirstOffset :: int
  rb_LastOffsetDelta :: int
  rb_Attributes :: "16 word"
  rb_ProducerID :: int

text \<open>The request for one partition of one topic, with every field the code sets.\<close>

record FetchRequest =
  fr_ReplicaID :: int
  fr_MaxWaitMillis :: int
  fr_MinBytes :: int
  fr_MaxBytes :: int
  fr_IsolationLevel :: int
  fr_SessionEpoch :: int
  fr_Topic :: string
  fr_TopicID :: string
  fr_Partition :: int
  fr_FetchOffset :: int
  fr_PartitionMaxBytes :: int
  fr_CurrentLeaderEpoch :: int
  fr_LogStartOffset :: int

text \<open>
  A response is kept as the partitions of each of its topics; the world \<open>'w\<close> is the cluster,
  which may answer every call differently.
\<close>

record 'w Client =
  cl_Metadata :: "'w \<Rightarrow> string \<Rightarrow> 'w \<times> (goerr + (string, TopicDetail) gomap)"
  cl_Fetch :: "'w \<Rightarrow> int \<Rightarrow> FetchRequest \<Rightarrow> 'w \<times> (goerr + FetchPartition list list)"
  cl_ReadFrom :: "byte list \<Rightarrow> goerr + RecordBatch"
  cl_ErrorForCode :: "int \<Rightarrow> goerr option"

section \<open>The ranges known to be empty\<close>

definition transactionalBatch :: "16 word" where "transactionalBatch = 0x10"

definition controlBatch :: "16 word" where "controlBatch = 0x20"

definition gapFetches :: nat where "gapFetches = 8"

record gapKey =
  gk_topic :: string
  gk_partition :: int
  gk_from :: int
  gk_to :: int

type_synonym gaps = "(gapKey, bool) gomap"

definition gaps_known :: "gaps \<Rightarrow> gapKey \<Rightarrow> bool" where
  "gaps_known g k = (map_of g k = Some True)"

text \<open>A map that is full is thrown away; a nil map and an empty one behave alike.\<close>

definition remember :: "gapKey \<Rightarrow> gaps \<Rightarrow> gaps" where
  "remember k g = map_put k True (if 10000 \<le> length g then [] else g)"

section \<open>Walking the batches of a response\<close>

text \<open>
  \<open>slices.SortFunc\<close> on a short slice is an insertion sort from the right; the comparison is the
  sign of a 64-bit difference.
\<close>

definition compare_first :: "AbortedTransaction \<Rightarrow> AbortedTransaction \<Rightarrow> int" where
  "compare_first a b = i64 (at_FirstOffset a - at_FirstOffset b)"

definition insert_cmp :: "('a \<Rightarrow> 'a \<Rightarrow> int) \<Rightarrow> 'a \<Rightarrow> 'a list \<Rightarrow> 'a list" where
  "insert_cmp cmp x ys =
     (let greater = (\<lambda>y. cmp x y < 0)
      in rev (dropWhile greater (rev ys)) @ [x] @ rev (takeWhile greater (rev ys)))"

definition SortFunc :: "('a \<Rightarrow> 'a \<Rightarrow> int) \<Rightarrow> 'a list \<Rightarrow> 'a list" where
  "SortFunc cmp xs = fold (insert_cmp cmp) xs []"

text \<open>\<open>12 + int(int32(binary.BigEndian.Uint32(raw[8:12])))\<close>.\<close>

definition be_uint32 :: "byte list \<Rightarrow> int" where
  "be_uint32 bs = foldl (\<lambda>n b. 256 * n + uint b) 0 bs"

definition to_int32 :: "int \<Rightarrow> int" where
  "to_int32 n = (if n < 2 ^ 31 then n else n - 2 ^ 32)"

definition batch_size :: "byte list \<Rightarrow> int" where
  "batch_size raw = 12 + to_int32 (be_uint32 (take 4 (drop 8 raw)))"

text \<open>What the loops carry from batch to batch and from fetch to fetch.\<close>

record scan =
  sc_next :: int
  sc_progressed :: bool
  sc_aborted :: "AbortedTransaction list"
  sc_aborting :: "int set"

fun begin_aborted :: "int \<Rightarrow> scan \<Rightarrow> AbortedTransaction list \<Rightarrow> scan" where
  "begin_aborted fst' s [] = s\<lparr>sc_aborted := []\<rparr>"
| "begin_aborted fst' s (a # as) =
     (if at_FirstOffset a \<le> fst'
      then begin_aborted fst' (s\<lparr>sc_aborting := insert (at_ProducerID a) (sc_aborting s)\<rparr>) as
      else s\<lparr>sc_aborted := a # as\<rparr>)"

text \<open>
  One batch: go on with the next one, or the answer the question has. The answer no is the one
  that is remembered.
\<close>

datatype outcome = GoOn scan | Answer bool | Failed goerr

definition last_offset :: "RecordBatch \<Rightarrow> int" where
  "last_offset b = i64 (rb_FirstOffset b + rb_LastOffsetDelta b)"

definition is_control :: "RecordBatch \<Rightarrow> bool" where
  "is_control b = (rb_Attributes b AND controlBatch \<noteq> 0)"

definition is_transactional :: "RecordBatch \<Rightarrow> bool" where
  "is_transactional b = (rb_Attributes b AND transactionalBatch \<noteq> 0)"

definition take_batch :: "int \<Rightarrow> RecordBatch \<Rightarrow> scan \<Rightarrow> outcome" where
  "take_batch to b s =
     (let fst' = rb_FirstOffset b; lst = last_offset b
      in if lst < sc_next s then GoOn s
         else if to \<le> fst' then Answer False
         else
           let s1 = s\<lparr>sc_next := i64 (lst + 1), sc_progressed := True\<rparr>;
               s2 = begin_aborted fst' s1 (sc_aborted s1);
               after = (\<lambda>s3. if to \<le> sc_next s3 then Answer False else GoOn s3)
           in if is_control b then after (s2\<lparr>sc_aborting := sc_aborting s2 - {rb_ProducerID b}\<rparr>)
              else if is_transactional b \<and> rb_ProducerID b \<in> sc_aborting s2 then after s2
              else Answer True)"

text \<open>The inner loop over the bytes; every batch is at least twelve bytes long.\<close>

function take_batches :: "(byte list \<Rightarrow> goerr + RecordBatch) \<Rightarrow> string \<Rightarrow> int \<Rightarrow> byte list \<Rightarrow> scan \<Rightarrow> outcome" where
  "take_batches ReadFrom where' to raw s =
     (if length raw < 12 then GoOn s
      else
        let size = batch_size raw
        in if size < 12 \<or> int (length raw) < size then GoOn s
           else case ReadFrom (take (nat size) raw) of
                  Inl e \<Rightarrow> Failed (wrap_error (''decode batch of '' @ where') e)
                | Inr b \<Rightarrow> (case take_batch to b s of
                              GoOn s1 \<Rightarrow> take_batches ReadFrom where' to (drop (nat size) raw) s1
                            | Answer a \<Rightarrow> Answer a
                            | Failed e \<Rightarrow> Failed e))"
  by pat_completeness auto
termination
  by (relation "measure (\<lambda>(r, w, to, raw, s). length raw)") auto

declare take_batches.simps [simp del]

section \<open>The question\<close>

definition fetch_request :: "string \<Rightarrow> string \<Rightarrow> int \<Rightarrow> int \<Rightarrow> FetchRequest" where
  "fetch_request topic tid part off =
     \<lparr>fr_ReplicaID = -1, fr_MaxWaitMillis = 0, fr_MinBytes = 1, fr_MaxBytes = 2 ^ 20,
      fr_IsolationLevel = 1, fr_SessionEpoch = -1, fr_Topic = topic, fr_TopicID = tid, fr_Partition = part,
      fr_FetchOffset = off, fr_PartitionMaxBytes = 2 ^ 20, fr_CurrentLeaderEpoch = -1, fr_LogStartOffset = -1\<rparr>"

definition of_partition :: "string \<Rightarrow> int \<Rightarrow> string" where
  "of_partition topic part = topic @ '' partition '' @ FormatInt part"

text \<open>What one response says, before the loop asks again.\<close>

definition take_response :: "'w Client \<Rightarrow> string \<Rightarrow> int \<Rightarrow> int \<Rightarrow> FetchPartition list list \<Rightarrow> scan \<Rightarrow> outcome" where
  "take_response k topic part to resp s =
     (case resp of
        [[rpart]] \<Rightarrow>
          (case cl_ErrorForCode k (fp_ErrorCode rpart) of
             Some e \<Rightarrow> Failed (wrap_error (''fetch '' @ of_partition topic part @ '' at '' @ FormatInt (sc_next s)) e)
           | None \<Rightarrow>
             if 0 \<le> fp_LastStableOffset rpart \<and> fp_LastStableOffset rpart < to then Answer True
             else
               case take_batches (cl_ReadFrom k) (of_partition topic part) to (fp_RecordBatches rpart)
                      (s\<lparr>sc_aborted := SortFunc compare_first (sc_aborted s @ fp_AbortedTransactions rpart),
                         sc_progressed := False\<rparr>) of
                 GoOn s1 \<Rightarrow>
                   if \<not> sc_progressed s1
                   then Failed (new_error (''fetch '' @ of_partition topic part @ '' at '' @ FormatInt (sc_next s1) @
                                  '' returned no batch below '' @ FormatInt to))
                   else GoOn s1
               | Answer a \<Rightarrow> Answer a
               | Failed e \<Rightarrow> Failed e)
      | _ \<Rightarrow> Failed (new_error (''fetch '' @ of_partition topic part @ '': unexpected response shape'')))"

text \<open>The outer loop, with the fetches that are left.\<close>

fun fetches :: "'w Client \<Rightarrow> string \<Rightarrow> string \<Rightarrow> int \<Rightarrow> int \<Rightarrow> int \<Rightarrow> int \<Rightarrow> nat \<Rightarrow> scan \<Rightarrow> 'w \<Rightarrow> 'w \<times> (goerr + bool)" where
  "fetches k topic tid part leader from to 0 s w =
     (w, Inl (new_error (of_partition topic part @ '': ['' @ FormatInt from @ '', '' @ FormatInt to @
                '') not read within '' @ FormatInt (int gapFetches) @ '' fetches'')))"
| "fetches k topic tid part leader from to (Suc n) s w =
     (case cl_Fetch k w leader (fetch_request topic tid part (sc_next s)) of (w1, r) \<Rightarrow>
        (case r of
           Inl e \<Rightarrow> (w1, Inl (wrap_error (''fetch '' @ of_partition topic part @ '' at '' @ FormatInt (sc_next s)) e))
         | Inr resp \<Rightarrow>
           (case take_response k topic part to resp s of
              GoOn s1 \<Rightarrow> fetches k topic tid part leader from to n s1 w1
            | Answer a \<Rightarrow> (w1, Inr a)
            | Failed e \<Rightarrow> (w1, Inl e))))"

text \<open>The leader of the partition, and the topic's identifier.\<close>

definition leader_of :: "(string, TopicDetail) gomap \<Rightarrow> string \<Rightarrow> int \<Rightarrow> goerr + string \<times> int" where
  "leader_of md topic part =
     (case map_of md topic of
        None \<Rightarrow> Inl (new_error (''metadata for '' @ topic @ '': topic not listed''))
      | Some detail \<Rightarrow>
        (case td_Err detail of
           Some e \<Rightarrow> Inl (wrap_error (''metadata for '' @ topic) e)
         | None \<Rightarrow>
           (let none = Inl (new_error (''no leader for '' @ of_partition topic part))
            in case map_of (td_Partitions detail) part of
                 None \<Rightarrow> none
               | Some p \<Rightarrow> if pd_Err p \<noteq> None \<or> pd_Leader p < 0 then none else Inr (td_ID detail, pd_Leader p))))"

text \<open>
  \<open>Records\<close>, with the cluster and the remembered ranges as the state it threads. A failed
  question answers false beside its error.
\<close>

definition Records :: "'w Client \<Rightarrow> 'w \<times> gaps \<Rightarrow> string \<Rightarrow> int \<Rightarrow> int \<Rightarrow> int \<Rightarrow> ('w \<times> gaps) \<times> bool \<times> goerr option" where
  "Records k wg topic part from to =
     (case wg of (w, g) \<Rightarrow>
        let key = \<lparr>gk_topic = topic, gk_partition = part, gk_from = from, gk_to = to\<rparr>
        in if to \<le> from \<or> gaps_known g key then ((w, g), False, None)
           else (case cl_Metadata k w topic of (w1, md) \<Rightarrow>
             (case md of
                Inl e \<Rightarrow> ((w1, g), False, Some (wrap_error (''metadata for '' @ topic) e))
              | Inr topics \<Rightarrow>
                (case leader_of topics topic part of
                   Inl e \<Rightarrow> ((w1, g), False, Some e)
                 | Inr (tid, leader) \<Rightarrow>
                   (case fetches k topic tid part leader from to gapFetches
                           \<lparr>sc_next = from, sc_progressed = False, sc_aborted = [], sc_aborting = {}\<rparr> w1 of (w2, res) \<Rightarrow>
                      (case res of
                         Inl e \<Rightarrow> ((w2, g), False, Some e)
                       | Inr a \<Rightarrow> ((w2, if a then g else remember key g), a, None)))))))"

end
