(* ===== verification/GapProps.thy ===== *)
theory GapProps
  imports Gap
begin

text \<open>
  What \<open>Records\<close> promises. The log of a partition is its batches in the order of their offsets and
  the aborted transactions, each with its producer, its first offset and the offset of its marker.
  A broker that serves this log lets \<open>Records\<close> say exactly whether a batch in the range is
  delivered to a reader of committed data.
\<close>

section \<open>A partition log\<close>

record Txn =
  tx_ProducerID :: int
  tx_First :: int
  tx_Marker :: int

text \<open>
  Batches do not overlap and lie in the range of 64-bit offsets; an aborted transaction ends with a
  control batch of its producer, and that producer has no other one since the transaction began.
\<close>

definition in_order :: "RecordBatch list \<Rightarrow> bool" where
  "in_order log = sorted_wrt (\<lambda>a b. last_offset a < rb_FirstOffset b) log"

definition batch_ok :: "RecordBatch \<Rightarrow> bool" where
  "batch_ok b = (0 \<le> rb_FirstOffset b \<and> rb_FirstOffset b \<le> last_offset b \<and> last_offset b < maxInt64)"

definition ends_txn :: "RecordBatch \<Rightarrow> Txn \<Rightarrow> bool" where
  "ends_txn c t = (is_control c \<and> rb_ProducerID c = tx_ProducerID t)"

definition txn_ok :: "RecordBatch list \<Rightarrow> Txn \<Rightarrow> bool" where
  "txn_ok log t = (0 \<le> tx_First t \<and> tx_First t < tx_Marker t \<and>
     (\<exists>c\<in>set log. ends_txn c t \<and> rb_FirstOffset c = tx_Marker t) \<and>
     (\<forall>c\<in>set log. ends_txn c t \<longrightarrow> tx_First t \<le> rb_FirstOffset c \<longrightarrow> tx_Marker t \<le> rb_FirstOffset c))"

definition log_ok :: "RecordBatch list \<Rightarrow> Txn list \<Rightarrow> bool" where
  "log_ok log txns = (in_order log \<and> list_all batch_ok log \<and> list_all (txn_ok log) txns)"

text \<open>What a reader of committed data is given.\<close>

definition in_aborted :: "Txn list \<Rightarrow> RecordBatch \<Rightarrow> bool" where
  "in_aborted txns b = (\<exists>t\<in>set txns. tx_ProducerID t = rb_ProducerID b \<and> tx_First t \<le> rb_FirstOffset b \<and> rb_FirstOffset b < tx_Marker t)"

definition delivered :: "Txn list \<Rightarrow> RecordBatch \<Rightarrow> bool" where
  "delivered txns b = (\<not> is_control b \<and> \<not> (is_transactional b \<and> in_aborted txns b))"

definition holds_record :: "RecordBatch list \<Rightarrow> Txn list \<Rightarrow> int \<Rightarrow> int \<Rightarrow> bool" where
  "holds_record log txns from to =
     (from < to \<and> (\<exists>b\<in>set log. rb_FirstOffset b < to \<and> from \<le> last_offset b \<and> delivered txns b))"

section \<open>A broker that serves it\<close>

text \<open>The whole batches at the front of some bytes.\<close>

function whole_batches :: "(byte list \<Rightarrow> goerr + RecordBatch) \<Rightarrow> byte list \<Rightarrow> RecordBatch list" where
  "whole_batches ReadFrom raw =
     (if length raw < 12 \<or> batch_size raw < 12 \<or> int (length raw) < batch_size raw then []
      else case ReadFrom (take (nat (batch_size raw)) raw) of
             Inl e \<Rightarrow> []
           | Inr b \<Rightarrow> b # whole_batches ReadFrom (drop (nat (batch_size raw)) raw))"
  by pat_completeness auto
termination
  by (relation "measure (\<lambda>(r, raw). length raw)") auto

declare whole_batches.simps [simp del]

definition begins :: "AbortedTransaction \<Rightarrow> Txn \<Rightarrow> bool" where
  "begins a t = (at_ProducerID a = tx_ProducerID t \<and> at_FirstOffset a = tx_First t)"

text \<open>
  A fetch at an offset answers a run of the log that misses no batch from that offset on, and
  names the aborted transactions that end there or later: all that begin within the run, and no
  other.
\<close>

definition run_from :: "RecordBatch list \<Rightarrow> int \<Rightarrow> RecordBatch list \<Rightarrow> bool" where
  "run_from log off bs = (\<exists>pre post. log = pre @ bs @ post \<and> (\<forall>b\<in>set pre. last_offset b < off))"

definition names_aborted :: "Txn list \<Rightarrow> int \<Rightarrow> RecordBatch list \<Rightarrow> AbortedTransaction list \<Rightarrow> bool" where
  "names_aborted txns off bs as =
     ((\<forall>t\<in>set txns. off \<le> tx_Marker t \<longrightarrow> (\<exists>b\<in>set bs. tx_First t \<le> rb_FirstOffset b) \<longrightarrow> (\<exists>a\<in>set as. begins a t)) \<and>
      (\<forall>a\<in>set as. \<exists>t\<in>set txns. begins a t \<and> off \<le> tx_Marker t))"

text \<open>
  The broker: a response with no error is such a run, and its last stable offset lies below the
  end of the range only if a transaction is open there.
\<close>

definition serves_log :: "'w Client \<Rightarrow> string \<Rightarrow> int \<Rightarrow> RecordBatch list \<Rightarrow> Txn list \<Rightarrow> int \<Rightarrow> bool \<Rightarrow> bool" where
  "serves_log k topic part log txns to opened =
     (\<forall>w w1 leader tid off rpart.
        cl_Fetch k w leader (fetch_request topic tid part off) = (w1, Inr [[rpart]]) \<longrightarrow>
        cl_ErrorForCode k (fp_ErrorCode rpart) = None \<longrightarrow>
          (0 \<le> fp_LastStableOffset rpart \<and> fp_LastStableOffset rpart < to \<longrightarrow> opened) \<and>
          (let bs = whole_batches (cl_ReadFrom k) (fp_RecordBatches rpart)
           in run_from log off bs \<and> names_aborted txns off bs (fp_AbortedTransactions rpart)))"

text \<open>The remembered ranges of a partition hold no record.\<close>

definition gaps_sound :: "RecordBatch list \<Rightarrow> Txn list \<Rightarrow> string \<Rightarrow> int \<Rightarrow> gaps \<Rightarrow> bool" where
  "gaps_sound log txns topic part g =
     (\<forall>f t. gaps_known g \<lparr>gk_topic = topic, gk_partition = part, gk_from = f, gk_to = t\<rparr> \<longrightarrow> \<not> holds_record log txns f t)"

section \<open>The insertion sort\<close>

abbreviation (input) first_sorted :: "AbortedTransaction list \<Rightarrow> bool" where
  "first_sorted as \<equiv> sorted (map at_FirstOffset as)"

abbreviation (input) firsts_ok :: "AbortedTransaction set \<Rightarrow> bool" where
  "firsts_ok A \<equiv> \<forall>a\<in>A. 0 \<le> at_FirstOffset a \<and> at_FirstOffset a \<le> maxInt64"

lemma insert_cmp_simps [simp]:
  "insert_cmp cmp x [] = [x]"
  "insert_cmp cmp x (ys @ [y]) = (if cmp x y < 0 then insert_cmp cmp x ys @ [y] else ys @ [y, x])"
  by (simp_all add: insert_cmp_def Let_def)

lemma set_insert_cmp [simp]: "set (insert_cmp cmp x ys) = insert x (set ys)"
  by (induction ys rule: rev_induct) auto

lemma compare_first_neg:
  assumes "firsts_ok {a, b}"
  shows "compare_first a b < 0 \<longleftrightarrow> at_FirstOffset a < at_FirstOffset b"
  using assms by (simp add: compare_first_def i64_id)

lemma insert_cmp_sorted:
  assumes "first_sorted ys" and "firsts_ok (insert x (set ys))"
  shows "first_sorted (insert_cmp compare_first x ys)"
  using assms
proof (induction ys rule: rev_induct)
  case Nil
  then show ?case by simp
next
  case (snoc y ys)
  have "compare_first x y < 0 \<longleftrightarrow> at_FirstOffset x < at_FirstOffset y"
    using snoc.prems(2) by (intro compare_first_neg) auto
  with snoc show ?case by (fastforce simp: sorted_append)
qed

lemma SortFunc_ok:
  assumes "firsts_ok (set as)"
  shows "first_sorted (SortFunc compare_first as) \<and> set (SortFunc compare_first as) = set as"
proof -
  have "first_sorted (fold (insert_cmp compare_first) as ys) \<and>
      set (fold (insert_cmp compare_first) as ys) = set as \<union> set ys"
    if "first_sorted ys" "firsts_ok (set as \<union> set ys)" for ys
    using that
  proof (induction as arbitrary: ys)
    case Nil
    then show ?case by simp
  next
    case (Cons a as)
    have "first_sorted (insert_cmp compare_first a ys)" using Cons.prems by (intro insert_cmp_sorted) auto
    with Cons.IH[of "insert_cmp compare_first a ys"] Cons.prems show ?case by auto
  qed
  from this[of "[]"] assms show ?thesis by (simp add: SortFunc_def)
qed


section \<open>The scan\<close>

text \<open>
  Where the scan stands: what lies behind \<open>sc_next\<close> is not delivered, the producers in
  \<open>sc_aborting\<close> have an aborted transaction that has begun and whose marker is still ahead, and the
  transactions in \<open>sc_aborted\<close> end ahead too.
\<close>

definition begun :: "RecordBatch list \<Rightarrow> int \<Rightarrow> Txn \<Rightarrow> bool" where
  "begun log off t = (\<exists>c\<in>set log. tx_First t \<le> rb_FirstOffset c \<and> last_offset c < off)"

definition scan_ok :: "RecordBatch list \<Rightarrow> Txn list \<Rightarrow> int \<Rightarrow> scan \<Rightarrow> bool" where
  "scan_ok log txns from s =
     (from \<le> sc_next s \<and>
      (\<forall>b\<in>set log. from \<le> last_offset b \<longrightarrow> last_offset b < sc_next s \<longrightarrow> \<not> delivered txns b) \<and>
      (\<forall>p\<in>sc_aborting s. \<exists>t\<in>set txns. tx_ProducerID t = p \<and> begun log (sc_next s) t \<and> sc_next s \<le> tx_Marker t) \<and>
      (\<forall>a\<in>set (sc_aborted s). \<exists>t\<in>set txns. begins a t \<and> sc_next s \<le> tx_Marker t))"

text \<open>The transactions a run may need are known to the scan.\<close>

definition scan_knows :: "RecordBatch list \<Rightarrow> Txn list \<Rightarrow> RecordBatch list \<Rightarrow> scan \<Rightarrow> bool" where
  "scan_knows log txns bs s =
     (first_sorted (sc_aborted s) \<and>
      (\<forall>t\<in>set txns. sc_next s \<le> tx_Marker t \<longrightarrow> (\<exists>b\<in>set bs. tx_First t \<le> rb_FirstOffset b) \<longrightarrow>
         tx_ProducerID t \<in> sc_aborting s \<and> begun log (sc_next s) t \<or> (\<exists>a\<in>set (sc_aborted s). begins a t)))"

lemma begin_aborted_eq:
  assumes "first_sorted as"
  shows "begin_aborted off s as =
     s\<lparr>sc_aborting := sc_aborting s \<union> at_ProducerID ` {a \<in> set as. at_FirstOffset a \<le> off},
       sc_aborted := filter (\<lambda>a. off < at_FirstOffset a) as\<rparr>"
  using assms
proof (induction as arbitrary: s)
  case Nil
  then show ?case by simp
next
  case (Cons a as)
  show ?case
  proof (cases "at_FirstOffset a \<le> off")
    case True
    then have "{x \<in> set (a # as). at_FirstOffset x \<le> off} = insert a {x \<in> set as. at_FirstOffset x \<le> off}" by auto
    with True Cons show ?thesis by (simp add: Un_commute)
  next
    case False
    with Cons.prems have later: "\<forall>x\<in>set (a # as). off < at_FirstOffset x" by auto
    then have "filter (\<lambda>x. off < at_FirstOffset x) (a # as) = a # as" by (intro filter_True) auto
    moreover from later have "{x \<in> set (a # as). at_FirstOffset x \<le> off} = {}" by force
    ultimately show ?thesis using False by (simp only: begin_aborted.simps) simp
  qed
qed

text \<open>The place of a batch in the log.\<close>

lemma log_place:
  assumes "log_ok log txns" and "log = pre @ b # rest"
  shows "batch_ok b" and "\<forall>x\<in>set pre. last_offset x < rb_FirstOffset b"
    and "\<forall>x\<in>set rest. last_offset b < rb_FirstOffset x" and "\<forall>x\<in>set log. batch_ok x" and "\<forall>t\<in>set txns. txn_ok log t"
  using assms by (auto simp: log_ok_def in_order_def sorted_wrt_append list_all_iff)

text \<open>A marker that is not behind a batch's start is at the batch or after its end.\<close>

lemma marker_place:
  assumes ok: "log_ok log txns" and log: "log = pre @ b # rest" and t: "t \<in> set txns"
    and behind: "\<forall>x\<in>set pre. last_offset x < off" and ahead: "off \<le> tx_Marker t"
  shows "tx_Marker t = rb_FirstOffset b \<and> ends_txn b t \<or> last_offset b < tx_Marker t"
proof -
  from log_place(5)[OF ok log] t obtain c where c: "c \<in> set log" "ends_txn c t" "rb_FirstOffset c = tx_Marker t"
    by (auto simp: txn_ok_def)
  have "c \<notin> set pre"
  proof
    assume "c \<in> set pre"
    then have "last_offset c < off" using behind by simp
    moreover have "batch_ok c" using log_place(4)[OF ok log] c(1) by simp
    ultimately show False using ahead c(3) by (simp add: batch_ok_def)
  qed
  with c(1) log have "c = b \<or> c \<in> set rest" by auto
  with log_place(3)[OF ok log] c show ?thesis by auto
qed

text \<open>
  One batch that is not skipped: the producers aborting at it are those with an aborted
  transaction that has begun by then and is not over before the batch.
\<close>

definition aborting_at :: "RecordBatch \<Rightarrow> scan \<Rightarrow> int set" where
  "aborting_at b s = sc_aborting s \<union> at_ProducerID ` {a \<in> set (sc_aborted s). at_FirstOffset a \<le> rb_FirstOffset b}"

lemma begun_before:
  assumes ok: "log_ok log txns" and log: "log = pre @ b # rest" and here: "off \<le> last_offset b" and t: "begun log off t"
  shows "tx_First t \<le> rb_FirstOffset b"
proof -
  from t obtain c where c: "c \<in> set log" "tx_First t \<le> rb_FirstOffset c" "last_offset c < off" by (auto simp: begun_def)
  note place = log_place[OF ok log]
  from place(4) c(1) have "batch_ok c" by simp
  moreover have "c \<noteq> b" using c(3) here by auto
  moreover have "c \<notin> set rest"
  proof
    assume "c \<in> set rest"
    then have "last_offset b < rb_FirstOffset c" using place(3) by simp
    with \<open>batch_ok c\<close> c(3) here show False by (simp add: batch_ok_def)
  qed
  ultimately have "last_offset c < rb_FirstOffset b" using c(1) log place(2) by auto
  with c(2) \<open>batch_ok c\<close> show ?thesis by (simp add: batch_ok_def)
qed

lemma aborting_at_sound:
  assumes "log_ok log txns" "log = pre @ b # rest" "sc_next s \<le> last_offset b" "scan_ok log txns from s"
    and "p \<in> aborting_at b s"
  obtains t where "t \<in> set txns" "tx_ProducerID t = p" "tx_First t \<le> rb_FirstOffset b" "sc_next s \<le> tx_Marker t"
proof (cases "p \<in> sc_aborting s")
  case True
  with assms(4) obtain t where "t \<in> set txns" "tx_ProducerID t = p" "begun log (sc_next s) t" "sc_next s \<le> tx_Marker t"
    by (auto simp: scan_ok_def)
  with begun_before[OF assms(1-3)] that show thesis by blast
next
  case False
  with assms(5) obtain a where "a \<in> set (sc_aborted s)" "at_ProducerID a = p" "at_FirstOffset a \<le> rb_FirstOffset b"
    by (auto simp: aborting_at_def)
  moreover with assms(4) obtain t where "t \<in> set txns" "begins a t" "sc_next s \<le> tx_Marker t"
    by (auto simp: scan_ok_def)
  ultimately show thesis using that by (auto simp: begins_def)
qed

lemma aborting_at_complete:
  assumes "scan_knows log txns (b # bs) s" "t \<in> set txns" "sc_next s \<le> tx_Marker t" "tx_First t \<le> rb_FirstOffset b"
  shows "tx_ProducerID t \<in> aborting_at b s"
proof -
  from assms(1-4) consider "tx_ProducerID t \<in> sc_aborting s" | a where "a \<in> set (sc_aborted s)" "begins a t"
    by (auto simp: scan_knows_def)
  then show ?thesis
  proof cases
    case 2
    with assms(4) have "a \<in> {a \<in> set (sc_aborted s). at_FirstOffset a \<le> rb_FirstOffset b}" "at_ProducerID a = tx_ProducerID t"
      by (auto simp: begins_def)
    then show ?thesis unfolding aborting_at_def by (metis UnI2 image_eqI)
  qed (simp add: aborting_at_def)
qed

lemma aborting_at_iff:
  assumes ok: "log_ok log txns" and log: "log = pre @ b # rest" and here: "sc_next s \<le> last_offset b"
    and behind: "\<forall>x\<in>set pre. last_offset x < sc_next s" and s: "scan_ok log txns from s"
    and knows: "scan_knows log txns (b # bs) s" and plain: "\<not> is_control b"
  shows "rb_ProducerID b \<in> aborting_at b s \<longleftrightarrow> in_aborted txns b"
proof
  assume "rb_ProducerID b \<in> aborting_at b s"
  then obtain t where t: "t \<in> set txns" "tx_ProducerID t = rb_ProducerID b" "tx_First t \<le> rb_FirstOffset b" "sc_next s \<le> tx_Marker t"
    by (rule aborting_at_sound[OF ok log here s])
  from marker_place[OF ok log t(1) behind t(4)] plain have "last_offset b < tx_Marker t" by (auto simp: ends_txn_def)
  with t log_place(1)[OF ok log] show "in_aborted txns b" by (auto simp: in_aborted_def batch_ok_def)
next
  assume "in_aborted txns b"
  then obtain t where t: "t \<in> set txns" "tx_ProducerID t = rb_ProducerID b" "tx_First t \<le> rb_FirstOffset b" "rb_FirstOffset b < tx_Marker t"
    by (auto simp: in_aborted_def)
  from marker_place[OF ok log t(1) log_place(2)[OF ok log]] t(4) have "last_offset b < tx_Marker t" by auto
  with here aborting_at_complete[OF knows t(1) _ t(3)] t(2) show "rb_ProducerID b \<in> aborting_at b s" by simp
qed

text \<open>The scan after a batch that is not delivered.\<close>

definition past :: "RecordBatch \<Rightarrow> int set \<Rightarrow> scan \<Rightarrow> scan" where
  "past b P s = s\<lparr>sc_next := last_offset b + 1, sc_progressed := True, sc_aborting := P,
     sc_aborted := filter (\<lambda>a. rb_FirstOffset b < at_FirstOffset a) (sc_aborted s)\<rparr>"

lemma past_ok:
  assumes ok: "log_ok log txns" and log: "log = pre @ b # rest" and here: "sc_next s \<le> last_offset b"
    and behind: "\<forall>x\<in>set pre. last_offset x < sc_next s" and s: "scan_ok log txns from s"
    and nd: "\<not> delivered txns b" and P: "P = (if is_control b then aborting_at b s - {rb_ProducerID b} else aborting_at b s)"
  shows "scan_ok log txns from (past b P s)"
proof -
  note place = log_place[OF ok log]
  have ahead: "last_offset b + 1 \<le> tx_Marker t"
    if "t \<in> set txns" "sc_next s \<le> tx_Marker t" "\<not> (tx_Marker t = rb_FirstOffset b \<and> ends_txn b t)" for t
    using marker_place[OF ok log that(1) behind that(2)] that(3) by auto
  have A: "\<not> delivered txns x" if x: "x \<in> set log" "from \<le> last_offset x" "last_offset x < last_offset b + 1" for x
  proof -
    have "x \<notin> set rest" using place(3,4) x(1,3) by (force simp: batch_ok_def)
    with x(1) log have "x = b \<or> x \<in> set pre" by auto
    with nd s behind x show ?thesis by (auto simp: scan_ok_def)
  qed
  have B: "\<exists>t\<in>set txns. tx_ProducerID t = p \<and> begun log (last_offset b + 1) t \<and> last_offset b + 1 \<le> tx_Marker t" if "p \<in> P" for p
  proof -
    from that P have "p \<in> aborting_at b s" by (auto split: if_splits)
    then obtain t where t: "t \<in> set txns" "tx_ProducerID t = p" "tx_First t \<le> rb_FirstOffset b" "sc_next s \<le> tx_Marker t"
      by (rule aborting_at_sound[OF ok log here s])
    have "begun log (last_offset b + 1) t" using t(3) log by (auto simp: begun_def)
    moreover have "\<not> ends_txn b t" using that P t(2) by (auto simp: ends_txn_def split: if_splits)
    ultimately show ?thesis using ahead[OF t(1,4)] t(1,2) by auto
  qed
  have C: "\<exists>t\<in>set txns. begins a t \<and> last_offset b + 1 \<le> tx_Marker t"
    if a: "a \<in> set (sc_aborted s)" "rb_FirstOffset b < at_FirstOffset a" for a
  proof -
    from s a(1) obtain t where t: "t \<in> set txns" "begins a t" "sc_next s \<le> tx_Marker t" by (auto simp: scan_ok_def)
    moreover from place(5) t(1) have "tx_First t < tx_Marker t" by (simp add: txn_ok_def)
    ultimately show ?thesis using ahead[OF t(1,3)] a(2) by (auto simp: begins_def)
  qed
  from s here A B C show ?thesis by (auto simp: scan_ok_def past_def)
qed

lemma past_knows:
  assumes ok: "log_ok log txns" and log: "log = pre @ b # rest" and here: "sc_next s \<le> last_offset b"
    and knows: "scan_knows log txns (b # bs) s"
    and P: "P = (if is_control b then aborting_at b s - {rb_ProducerID b} else aborting_at b s)"
  shows "scan_knows log txns bs (past b P s)"
proof -
  have "tx_ProducerID t \<in> P \<and> begun log (last_offset b + 1) t \<or>
      (\<exists>a\<in>set (sc_aborted s). rb_FirstOffset b < at_FirstOffset a \<and> begins a t)"
    if t: "t \<in> set txns" "last_offset b + 1 \<le> tx_Marker t" and x: "\<exists>x\<in>set bs. tx_First t \<le> rb_FirstOffset x" for t
  proof (cases "tx_First t \<le> rb_FirstOffset b")
    case True
    from t(2) here have "sc_next s \<le> tx_Marker t" by simp
    with aborting_at_complete[OF knows t(1) _ True] have "tx_ProducerID t \<in> aborting_at b s" by simp
    moreover have "\<not> ends_txn b t"
      using log_place(1,5)[OF ok log] t True log by (force simp: txn_ok_def batch_ok_def)
    ultimately have "tx_ProducerID t \<in> P" using P by (auto simp: ends_txn_def)
    with True log show ?thesis by (auto simp: begun_def)
  next
    case False
    with begun_before[OF ok log here] have "\<not> begun log (sc_next s) t" by auto
    with knows t x here False show ?thesis by (fastforce simp: scan_knows_def begins_def)
  qed
  moreover have "first_sorted (filter (\<lambda>a. rb_FirstOffset b < at_FirstOffset a) (sc_aborted s))"
    using knows by (simp add: scan_knows_def sorted_filter)
  ultimately show ?thesis by (auto simp: scan_knows_def past_def)
qed

section \<open>The loops\<close>

lemma take_batch_skip: "last_offset b < sc_next s \<Longrightarrow> take_batch to b s = GoOn s"
  by (simp add: take_batch_def)

lemma take_batch_eq:
  assumes "sc_next s \<le> last_offset b" "batch_ok b" "first_sorted (sc_aborted s)"
  shows "take_batch to b s =
     (let P = (if is_control b then aborting_at b s - {rb_ProducerID b} else aborting_at b s)
      in if to \<le> rb_FirstOffset b then Answer False
         else if \<not> is_control b \<and> \<not> (is_transactional b \<and> rb_ProducerID b \<in> aborting_at b s) then Answer True
         else if to \<le> last_offset b + 1 then Answer False
         else GoOn (past b P s))"
proof -
  have "i64 (last_offset b + 1) = last_offset b + 1" using assms(2) by (auto simp: batch_ok_def intro!: i64_id)
  with assms(1,3) show ?thesis
    by (simp add: take_batch_def Let_def begin_aborted_eq aborting_at_def past_def) blast
qed

text \<open>What an outcome means: the right answer, or a scan that stands further on.\<close>

fun outcome_ok :: "RecordBatch list \<Rightarrow> Txn list \<Rightarrow> int \<Rightarrow> int \<Rightarrow> (scan \<Rightarrow> bool) \<Rightarrow> outcome \<Rightarrow> bool" where
  "outcome_ok log txns from to Q (GoOn s) = (scan_ok log txns from s \<and> Q s)"
| "outcome_ok log txns from to Q (Answer a) = (a = holds_record log txns from to)"
| "outcome_ok log txns from to Q (Failed e) = True"

lemma take_batch_ok:
  assumes ok: "log_ok log txns" and log: "log = pre @ b # rest" and behind: "\<forall>x\<in>set pre. last_offset x < sc_next s"
    and s: "scan_ok log txns from s" and knows: "scan_knows log txns (b # bs) s" and range: "from < to"
  shows "outcome_ok log txns from to (\<lambda>s'. scan_knows log txns bs s' \<and> (\<forall>x\<in>set (pre @ [b]). last_offset x < sc_next s')) (take_batch to b s)"
proof (cases "last_offset b < sc_next s")
  case True
  with assms show ?thesis by (auto simp: take_batch_skip scan_knows_def)
next
  case False
  then have here: "sc_next s \<le> last_offset b" by simp
  note place = log_place[OF ok log]
  let ?P = "if is_control b then aborting_at b s - {rb_ProducerID b} else aborting_at b s"
  have gone: "\<not> delivered txns x" if "x \<in> set pre" "from \<le> last_offset x" for x
    using s behind that log by (auto simp: scan_ok_def)
  have del: "delivered txns b \<longleftrightarrow> \<not> is_control b \<and> \<not> (is_transactional b \<and> rb_ProducerID b \<in> aborting_at b s)"
    using aborting_at_iff[OF ok log here behind s knows] by (auto simp: delivered_def)
  have eq: "take_batch to b s =
      (if to \<le> rb_FirstOffset b then Answer False else if delivered txns b then Answer True
       else if to \<le> last_offset b + 1 then Answer False else GoOn (past b ?P s))"
    using take_batch_eq[OF here place(1)] knows by (simp add: del scan_knows_def Let_def)
  consider "to \<le> rb_FirstOffset b" | "rb_FirstOffset b < to" "delivered txns b"
    | "rb_FirstOffset b < to" "\<not> delivered txns b" "to \<le> last_offset b + 1"
    | "rb_FirstOffset b < to" "\<not> delivered txns b" "last_offset b + 1 < to"
    by linarith
  then show ?thesis
  proof cases
    case 1
    then have "\<not> rb_FirstOffset x < to" if "x \<in> set rest" for x
      using place(1,3) that by (force simp: batch_ok_def)
    with 1 gone log have "\<not> holds_record log txns from to" by (auto simp: holds_record_def)
    with eq 1 show ?thesis by simp
  next
    case 2
    moreover have "from \<le> last_offset b" using s here by (simp add: scan_ok_def)
    ultimately have "holds_record log txns from to" using range log by (auto simp: holds_record_def)
    with eq 2 show ?thesis by simp
  next
    case 3
    then have "\<not> rb_FirstOffset x < to" if "x \<in> set rest" for x using place(3) that by force
    with 3 gone log have "\<not> holds_record log txns from to" by (auto simp: holds_record_def)
    with eq 3 show ?thesis by simp
  next
    case 4
    have "\<forall>x\<in>set (pre @ [b]). last_offset x < last_offset b + 1" using behind here by auto
    with eq 4 past_ok[OF ok log here behind s 4(2) refl] past_knows[OF ok log here knows refl]
    show ?thesis by (simp add: past_def)
  qed
qed

lemma take_batches_ok:
  assumes "log_ok log txns" "log = pre @ whole_batches ReadFrom raw @ post" "\<forall>x\<in>set pre. last_offset x < sc_next s"
    and "scan_ok log txns from s" "scan_knows log txns (whole_batches ReadFrom raw) s" "from < to"
  shows "outcome_ok log txns from to (\<lambda>s'. True) (take_batches ReadFrom place to raw s)"
  using assms
proof (induction ReadFrom place to raw s arbitrary: pre rule: take_batches.induct)
  case (1 ReadFrom place to raw s)
  show ?case
  proof (cases "length raw < 12 \<or> batch_size raw < 12 \<or> int (length raw) < batch_size raw")
    case True
    with "1.prems" show ?thesis by (subst take_batches.simps) (auto simp: Let_def)
  next
    case False
    show ?thesis
    proof (cases "ReadFrom (take (nat (batch_size raw)) raw)")
      case (Inl e)
      with False show ?thesis by (subst take_batches.simps) (auto simp: Let_def)
    next
      case (Inr b)
      let ?raw = "drop (nat (batch_size raw)) raw"
      have bs: "whole_batches ReadFrom raw = b # whole_batches ReadFrom ?raw"
        using False Inr by (subst whole_batches.simps) simp
      have eq: "take_batches ReadFrom place to raw s = (case take_batch to b s of
          GoOn s1 \<Rightarrow> take_batches ReadFrom place to ?raw s1 | Answer a \<Rightarrow> Answer a | Failed e \<Rightarrow> Failed e)"
        using False Inr by (subst take_batches.simps) (auto simp: Let_def)
      from "1.prems"(2) bs have log: "log = pre @ b # (whole_batches ReadFrom ?raw @ post)" by simp
      note step = take_batch_ok[OF "1.prems"(1) log "1.prems"(3,4) "1.prems"(5)[unfolded bs] "1.prems"(6)]
      show ?thesis
      proof (cases "take_batch to b s")
        case (GoOn s1)
        with step have s1: "scan_ok log txns from s1" "scan_knows log txns (whole_batches ReadFrom ?raw) s1"
          "\<forall>x\<in>set (pre @ [b]). last_offset x < sc_next s1" by auto
        have "outcome_ok log txns from to (\<lambda>s'. True) (take_batches ReadFrom place to ?raw s1)"
          using "1.IH"[OF _ refl _ Inr GoOn "1.prems"(1) _ s1(3,1,2) "1.prems"(6)] False log by auto
        with eq GoOn show ?thesis by simp
      qed (use step eq in auto)
    qed
  qed
qed

lemma take_response_ok:
  assumes ok: "log_ok log txns" and serves: "serves_log k topic part log txns to opened"
    and resp: "cl_Fetch k w leader (fetch_request topic tid part (sc_next s)) = (w1, Inr resp)"
    and s: "scan_ok log txns from s" and range: "from < to"
  shows "outcome_ok log txns from to (\<lambda>s'. True) (take_response k topic part to resp s) \<or>
     take_response k topic part to resp s = Answer True \<and> opened"
proof (cases "\<exists>rpart. resp = [[rpart]] \<and> cl_ErrorForCode k (fp_ErrorCode rpart) = None")
  case False
  then show ?thesis by (auto simp: take_response_def split: list.splits option.splits)
next
  case True
  then obtain rpart where r: "resp = [[rpart]]" "cl_ErrorForCode k (fp_ErrorCode rpart) = None" by blast
  let ?bs = "whole_batches (cl_ReadFrom k) (fp_RecordBatches rpart)"
  from serves resp r have served: "0 \<le> fp_LastStableOffset rpart \<and> fp_LastStableOffset rpart < to \<longrightarrow> opened"
      "run_from log (sc_next s) ?bs" "names_aborted txns (sc_next s) ?bs (fp_AbortedTransactions rpart)"
    by (auto simp: serves_log_def Let_def)
  show ?thesis
  proof (cases "0 \<le> fp_LastStableOffset rpart \<and> fp_LastStableOffset rpart < to")
    case True
    with served(1) r show ?thesis by (simp add: take_response_def)
  next
    case False
    let ?as = "sc_aborted s @ fp_AbortedTransactions rpart"
    let ?s = "s\<lparr>sc_aborted := SortFunc compare_first ?as, sc_progressed := False\<rparr>"
    have named: "\<exists>t\<in>set txns. begins a t \<and> sc_next s \<le> tx_Marker t" if "a \<in> set ?as" for a
      using s served(3) that by (auto simp: scan_ok_def names_aborted_def)
    have "tx_First t \<le> maxInt64" "0 \<le> tx_First t" if "t \<in> set txns" for t
      using ok that by (force simp: log_ok_def list_all_iff txn_ok_def batch_ok_def)+
    with named have "firsts_ok (set ?as)" by (fastforce simp: begins_def)
    note sorted = SortFunc_ok[OF this]
    have "scan_ok log txns from ?s" using s named sorted by (auto simp: scan_ok_def)
    moreover have "scan_knows log txns ?bs ?s"
      using sorted served(3) by (fastforce simp: scan_knows_def names_aborted_def)
    moreover from served(2) obtain pre post where "log = pre @ ?bs @ post" "\<forall>b\<in>set pre. last_offset b < sc_next ?s"
      by (auto simp: run_from_def)
    ultimately have "outcome_ok log txns from to (\<lambda>s'. True)
        (take_batches (cl_ReadFrom k) (of_partition topic part) to (fp_RecordBatches rpart) ?s)"
      using ok range by (intro take_batches_ok) auto
    with r False show ?thesis
      by (cases "take_batches (cl_ReadFrom k) (of_partition topic part) to (fp_RecordBatches rpart) ?s")
        (auto simp: take_response_def)
  qed
qed

lemma fetches_ok:
  assumes ok: "log_ok log txns" and serves: "serves_log k topic part log txns to opened" and range: "from < to"
    and "scan_ok log txns from s" and "fetches k topic tid part leader from to n s w = (w', Inr a)"
  shows "a = holds_record log txns from to \<or> a \<and> opened"
  using assms(4,5)
proof (induction n arbitrary: s w)
  case 0
  then show ?case by simp
next
  case (Suc n)
  obtain w1 r where f: "cl_Fetch k w leader (fetch_request topic tid part (sc_next s)) = (w1, r)" by fastforce
  with Suc.prems(2) obtain resp where r: "r = Inr resp" by (cases r) auto
  note step = take_response_ok[OF ok serves f[unfolded r] Suc.prems(1) range]
  from Suc.prems(2) f r step show ?case
    by (cases "take_response k topic part to resp s") (auto dest: Suc.IH)
qed

lemma length_remember: "length g \<le> 10000 \<Longrightarrow> length (remember key g) \<le> 10000"
  using length_map_put[of key True g] length_map_put[of key True "[]"] by (auto simp: remember_def)

lemma gaps_sound_remember:
  assumes "gaps_sound log txns t p g" "t = topic \<Longrightarrow> p = part \<Longrightarrow> \<not> holds_record log txns from to"
  shows "gaps_sound log txns t p (remember \<lparr>gk_topic = topic, gk_partition = part, gk_from = from, gk_to = to\<rparr> g)"
  using assms by (auto simp: gaps_sound_def gaps_known_def remember_def)

lemma Records_answer:
  assumes "log_ok log txns" and "serves_log k topic part log txns to opened" and "gaps_sound log txns topic part g"
    and "Records k (w, g) topic part from to = ((w', g'), ans, err)"
  shows "(err = None \<longrightarrow> ans = holds_record log txns from to \<or> ans \<and> opened) \<and> (err \<noteq> None \<longrightarrow> \<not> ans \<and> g' = g) \<and>
     (g' = g \<or> \<not> ans \<and> err = None \<and> g' = remember \<lparr>gk_topic = topic, gk_partition = part, gk_from = from, gk_to = to\<rparr> g)"
proof -
  let ?key = "\<lparr>gk_topic = topic, gk_partition = part, gk_from = from, gk_to = to\<rparr>"
  let ?s = "\<lparr>sc_next = from, sc_progressed = False, sc_aborted = [], sc_aborting = {}\<rparr>"
  show ?thesis
  proof (cases "to \<le> from \<or> gaps_known g ?key")
    case True
    with assms(3) have "\<not> holds_record log txns from to" by (auto simp: gaps_sound_def holds_record_def)
    with True assms(3,4) show ?thesis by (auto simp: Records_def Let_def)
  next
    case False
    have start: "scan_ok log txns from ?s" by (auto simp: scan_ok_def)
    have right: "a = holds_record log txns from to \<or> a \<and> opened"
      if "fetches k topic tid part leader from to gapFetches ?s w1 = (w2, Inr a)" for tid leader w1 w2 a
      using fetches_ok[OF assms(1,2) _ start that] False by simp
    with assms(4) False show ?thesis
      by (auto simp: Records_def Let_def split: sum.splits prod.splits if_splits)
  qed
qed

text \<open>
  C20. Whenever \<open>Records\<close> answers without an error, it answers whether a record in the range is
  delivered to a reader of committed data, or, where a transaction is open below the end of the
  range, that there may be one. A question it could not finish says no beside its error and is not
  remembered; what is remembered is right for good, and bounded.
\<close>

theorem Records_exact:
  assumes "log_ok log txns" and "serves_log k topic part log txns to opened" and "gaps_sound log txns topic part g"
    and "Records k (w, g) topic part from to = ((w', g'), ans, err)"
  shows "(err = None \<longrightarrow> ans = holds_record log txns from to \<or> ans \<and> opened) \<and>
     (err \<noteq> None \<longrightarrow> \<not> ans \<and> g' = g) \<and>
     gaps_sound log txns topic part g' \<and> (length g \<le> 10000 \<longrightarrow> length g' \<le> 10000)"
proof -
  note answer = Records_answer[OF assms]
  then have "gaps_sound log txns topic part g'" using assms(3) by (auto intro: gaps_sound_remember)
  moreover have "length g \<le> 10000 \<longrightarrow> length g' \<le> 10000" using answer by (auto intro: length_remember)
  ultimately show ?thesis using answer by blast
qed

section \<open>An example\<close>

text \<open>
  A topic whose first partition holds an aborted transaction and its marker, what came before
  having been deleted. A batch is written as
  eight bytes of offset, four bytes of length and one byte each for attributes, offset delta and
  producer.
\<close>

definition example_write :: "RecordBatch \<Rightarrow> byte list" where
  "example_write b = [0, 0, 0, 0, 0, 0, 0, word_of_int (rb_FirstOffset b), 0, 0, 0, 3,
     ucast (rb_Attributes b), word_of_int (rb_LastOffsetDelta b), word_of_int (rb_ProducerID b)]"

definition example_ReadFrom :: "byte list \<Rightarrow> goerr + RecordBatch" where
  "example_ReadFrom raw = Inr \<lparr>rb_FirstOffset = uint (raw ! 7), rb_LastOffsetDelta = uint (raw ! 13),
     rb_Attributes = ucast (raw ! 12), rb_ProducerID = uint (raw ! 14)\<rparr>"

definition example_data :: RecordBatch where
  "example_data = \<lparr>rb_FirstOffset = 1, rb_LastOffsetDelta = 3, rb_Attributes = 0x10, rb_ProducerID = 7\<rparr>"

definition example_marker :: RecordBatch where
  "example_marker = \<lparr>rb_FirstOffset = 5, rb_LastOffsetDelta = 0, rb_Attributes = 0x30, rb_ProducerID = 7\<rparr>"

definition example_txns :: "Txn list" where
  "example_txns = [\<lparr>tx_ProducerID = 7, tx_First = 1, tx_Marker = 5\<rparr>]"

definition example_client :: "nat Client" where
  "example_client =
     \<lparr>cl_Metadata = (\<lambda>w topic. (w, Inr [(''orders'', \<lparr>td_ID = ''id'', td_Err = None,
         td_Partitions = [(0, \<lparr>pd_Err = None, pd_Leader = 1\<rparr>)]\<rparr>)])),
      cl_Fetch = (\<lambda>w leader req. (Suc w, Inr [[
         if fr_Topic req = ''orders'' \<and> fr_Partition req = 0 \<and> fr_FetchOffset req \<le> 5
         then \<lparr>fp_ErrorCode = 0, fp_LastStableOffset = 6,
               fp_AbortedTransactions = [\<lparr>at_ProducerID = 7, at_FirstOffset = 1\<rparr>],
               fp_RecordBatches = (if fr_FetchOffset req \<le> 4 then example_write example_data else []) @ example_write example_marker\<rparr>
         else \<lparr>fp_ErrorCode = 0, fp_LastStableOffset = 6, fp_AbortedTransactions = [], fp_RecordBatches = []\<rparr>]])),
      cl_ReadFrom = example_ReadFrom, cl_ErrorForCode = (\<lambda>c. None)\<rparr>"

definition example_logs :: "string \<Rightarrow> int \<Rightarrow> RecordBatch list \<times> Txn list" where
  "example_logs topic part = (if topic = ''orders'' \<and> part = 0 then ([example_data, example_marker], example_txns) else ([], []))"

lemma example_whole:
  "whole_batches example_ReadFrom [] = []"
  "whole_batches example_ReadFrom (example_write example_marker) = [example_marker]"
  "whole_batches example_ReadFrom (example_write example_data @ example_write example_marker) = [example_data, example_marker]"
  by code_simp+

lemma example_first: "rb_FirstOffset example_data = 1" "rb_FirstOffset example_marker = 5"
  by (simp_all add: example_data_def example_marker_def)

lemma example_log_ok: "example_logs topic part = (log, txns) \<Longrightarrow> log_ok log txns"
proof -
  have "log_ok [example_data, example_marker] example_txns" "log_ok [] []" by code_simp+
  then show "example_logs topic part = (log, txns) \<Longrightarrow> log_ok log txns" by (auto simp: example_logs_def split: if_splits)
qed

lemma example_serves:
  assumes "to \<le> 6 \<or> opened" and "example_logs topic part = (log, txns)"
  shows "serves_log example_client topic part log txns to opened"
proof -
  have "run_from [example_data, example_marker] off [example_data, example_marker]"
    and "5 \<le> off \<Longrightarrow> run_from [example_data, example_marker] off [example_marker]"
    and "6 \<le> off \<Longrightarrow> run_from [example_data, example_marker] off []" for off :: int
  proof -
    show "run_from [example_data, example_marker] off [example_data, example_marker]"
      unfolding run_from_def by (intro exI[of _ "[]"]) simp
    have l: "last_offset example_data = 4" "last_offset example_marker = 5" by code_simp+
    show "run_from [example_data, example_marker] off [example_marker]" if "5 \<le> off"
      unfolding run_from_def using that l by (intro exI[of _ "[example_data]"] exI[of _ "[]"]) simp
    show "run_from [example_data, example_marker] off []" if "6 \<le> off"
      unfolding run_from_def using that l by (intro exI[of _ "[example_data, example_marker]"] exI[of _ "[]"]) simp
  qed
  moreover have "run_from [] off []" for off by (simp add: run_from_def)
  ultimately show ?thesis
    using assms
    by (auto simp: serves_log_def example_client_def fetch_request_def example_whole names_aborted_def begins_def
        example_txns_def example_logs_def example_first Let_def split: if_splits)
qed

theorem Records_exact_witness:
  "Records example_client (0, []) ''orders'' 0 1 6 =
     ((1, [(\<lparr>gk_topic = ''orders'', gk_partition = 0, gk_from = 1, gk_to = 6\<rparr>, True)]), False, None) \<and>
   \<not> holds_record [example_data, example_marker] example_txns 1 6"
proof -
  have r: "Records example_client (0, []) ''orders'' 0 1 6 =
     ((1, [(\<lparr>gk_topic = ''orders'', gk_partition = 0, gk_from = 1, gk_to = 6\<rparr>, True)]), False, None)"
    by code_simp
  have l: "example_logs ''orders'' 0 = ([example_data, example_marker], example_txns)" by (simp add: example_logs_def)
  have "gaps_sound [example_data, example_marker] example_txns ''orders'' 0 []"
    by (simp add: gaps_sound_def gaps_known_def)
  from Records_exact[OF example_log_ok[OF l] example_serves[of _ False, OF _ l] this r] r show ?thesis by simp
qed

end
