(* ===== verification/Drained.thy ===== *)
theory Drained
  imports JobProps GapProps
begin

text \<open>
  The reconciler's questions answered by the gap probe: a partition that a tick marks drained holds
  no record the job has not been given, and a job gate that says idle means every declared
  partition is read.
\<close>

text \<open>
  The world of the probe is the cluster and the remembered ranges. It is fine when every partition
  has a log that the broker serves and the remembered ranges are right.
\<close>

definition served :: "'w Client \<Rightarrow> (string \<Rightarrow> int \<Rightarrow> RecordBatch list \<times> Txn list) \<Rightarrow> 'w \<times> gaps \<Rightarrow> bool" where
  "served k logs wg =
     (\<forall>topic part log txns. logs topic part = (log, txns) \<longrightarrow>
        log_ok log txns \<and> (\<forall>to. serves_log k topic part log txns to True) \<and> gaps_sound log txns topic part (snd wg))"

lemma served_answer:
  assumes "served k logs (w, g)" and "Records k (w, g) topic part from to = ((w', g'), ans, err)"
    and "logs topic part = (log, txns)"
  shows "(err = None \<and> \<not> ans \<longrightarrow> \<not> holds_record log txns from to) \<and>
     (g' = g \<or> \<not> ans \<and> err = None \<and> g' = remember \<lparr>gk_topic = topic, gk_partition = part, gk_from = from, gk_to = to\<rparr> g)"
proof -
  from assms(1,3) have "log_ok log txns" "serves_log k topic part log txns to True" "gaps_sound log txns topic part g"
    by (auto simp: served_def)
  from Records_answer[OF this assms(2)] show ?thesis by auto
qed

lemma served_kept:
  assumes s: "served k logs (w, g)" and r: "Records k (w, g) topic part from to = ((w', g'), ans, err)"
  shows "served k logs (w', g')"
proof -
  have "gaps_sound log txns t p g'" if l: "logs t p = (log, txns)" for t p log txns
  proof (cases "g' = g")
    case True
    with s l show ?thesis by (auto simp: served_def)
  next
    case False
    obtain log' txns' where l': "logs topic part = (log', txns')" by fastforce
    from served_answer[OF s r l'] False l l'
    have "g' = remember \<lparr>gk_topic = topic, gk_partition = part, gk_from = from, gk_to = to\<rparr> g"
      "t = topic \<Longrightarrow> p = part \<Longrightarrow> \<not> holds_record log txns from to" by auto
    moreover have "gaps_sound log txns t p g" using s l by (auto simp: served_def)
    ultimately show ?thesis by (auto intro: gaps_sound_remember)
  qed
  with s show ?thesis by (auto simp: served_def)
qed

interpretation records: gap_probe "Records k" "served k logs" for k logs
  by unfold_locales (use served_kept in fastforce)

lemma drained_told:
  assumes "rc_Gaps r = Some (Records k)" and "served k logs (ss_world ps)"
    and "drained r sources ends reading ps = (ps', out)" and "marked_drained out topic p"
  shows "\<exists>es cur emitted. map_of ends topic = Some es \<and> map_of (jr_Offsets reading) topic = Some cur \<and>
     map_of cur p = Some emitted \<and> 0 \<le> p \<and> nat p < length es \<and>
     (case logs topic p of (log, txns) \<Rightarrow> \<not> holds_record log txns (i64 (emitted + 1)) (es ! nat p))"
proof -
  have "\<not> marked_drained [] topic p" by (simp add: marked_drained_def)
  with assms(1,3,4) have d: "drained_topics (Records k) ends reading sources 0 [] ps = (ps', out)"
    by (auto simp: drained_def split: if_splits)
  have "(0::int) \<le> drainedChecks" by (simp add: drainedChecks_def)
  from records.drained_topics_ok[OF d this assms(2)] assms(4) \<open>\<not> marked_drained [] topic p\<close>
  obtain es cur i where i: "map_of ends topic = Some es" "map_of (jr_Offsets reading) topic = Some cur" "i < length es" "p = int i"
    "nothing_between (served k logs) (Records k) cur topic p (es ! i)" by blast
  then obtain w w' emitted where told: "served k logs w" "map_of cur p = Some emitted"
    "Records k w topic p (i64 (emitted + 1)) (es ! i) = (w', False, None)" by (auto simp: nothing_between_def)
  obtain log txns where l: "logs topic p = (log, txns)" by fastforce
  obtain c g c' g' where "w = (c, g)" "w' = (c', g')" by fastforce
  with told served_answer[of k logs c g topic p "i64 (emitted + 1)" "es ! i" c' g' False None log txns] l
  have "\<not> holds_record log txns (i64 (emitted + 1)) (es ! i)" by auto
  with i told(2) l show ?thesis by auto
qed

lemma partitions_caught_up_nth:
  "partitions_caught_up reading topic cur p es \<Longrightarrow> i < length es \<Longrightarrow> nothing_pending reading topic cur (p + int i) (es ! i)"
proof (induction es arbitrary: p i)
  case (Cons e es)
  then show ?case
    using Cons.IH[of "p + 1" "i - 1"] by (cases i) (auto simp: add.assoc)
qed simp

text \<open>
  With the gap probe behind the questions, an idle answer of the job gate is about records: in every
  partition the job either has a position beyond which no record below the end offset is delivered
  to a reader of committed data, or has not emitted from it at all since it started.
\<close>

definition nothing_unread ::
  "(string \<Rightarrow> int \<Rightarrow> RecordBatch list \<times> Txn list) \<Rightarrow> (string, int list) gomap \<Rightarrow> JobReading \<Rightarrow> string \<Rightarrow> bool" where
  "nothing_unread logs ends reading topic \<longleftrightarrow>
     (\<exists>es cur. map_of ends topic = Some es \<and> map_of (jr_Offsets reading) topic = Some cur \<and>
        (\<forall>i < length es. \<exists>emitted. map_of cur (int i) = Some emitted \<and>
           (emitted = InitialOffset \<or>
            (case logs topic (int i) of (log, txns) \<Rightarrow> \<not> holds_record log txns (emitted + 1) (es ! i)))))"

lemma idle_job_has_read_everything:
  assumes "rc_Gaps r = Some (Records k)" and "served k logs (ss_world ps)"
    and "drained r sources ends reading ps = (ps', out)"
    and "offsets_ok sources ends (reading\<lparr>jr_Drained := out\<rparr>)"
    and "fst (jobGate sources ends (reading\<lparr>jr_Drained := out\<rparr>) q) = JobIdle" and "topic \<in> set sources"
  shows "nothing_unread logs ends reading topic"
proof -
  let ?reading = "reading\<lparr>jr_Drained := out\<rparr>"
  from idle_caught_up[OF assms(4,5)] assms(6) have "topic_caught_up ends ?reading topic" by (simp add: list_all_iff)
  then obtain es cur
    where t: "map_of ends topic = Some es" "map_of (jr_Offsets reading) topic = Some cur" "partitions_caught_up ?reading topic cur 0 es"
    by (auto simp: topic_caught_up_def split: option.splits)
  have "emitted_ok cur" using assms(4) t(2) by (auto simp: offsets_ok_def list_all_iff dest!: map_of_SomeD)
  have "\<exists>emitted. map_of cur (int i) = Some emitted \<and> (emitted = InitialOffset \<or>
      (case logs topic (int i) of (log, txns) \<Rightarrow> \<not> holds_record log txns (emitted + 1) (es ! i)))" if i: "i < length es" for i
  proof -
    from partitions_caught_up_nth[OF t(3) i] obtain em where em: "map_of cur (int i) = Some em"
      "em \<noteq> InitialOffset \<longrightarrow> drained_at ?reading topic (int i) \<or> es ! i \<le> em + 1"
      by (auto simp: nothing_pending_def split: option.splits if_splits)
    have "i64 (em + 1) = em + 1" using emitted_ok_lookup[OF \<open>emitted_ok cur\<close> em(1)] by (intro i64_id) auto
    then have "case logs topic (int i) of (log, txns) \<Rightarrow> \<not> holds_record log txns (em + 1) (es ! i)"
      if "drained_at ?reading topic (int i)"
      using drained_told[OF assms(1-3), of topic "int i"] that t em(1) by (auto simp: drained_at_def marked_drained_def)
    with em show ?thesis by (auto simp: holds_record_def)
  qed
  with t show ?thesis unfolding nothing_unread_def by blast
qed

lemma example_served: "served example_client example_logs (0, [])"
  unfolding served_def using example_log_ok example_serves by (auto simp: gaps_sound_def gaps_known_def)

end
