(* ===== verification/Url.thy ===== *)
theory Url
  imports GoLib
begin

text \<open>
  The part of \<open>net/url\<close> that the REST probe and the token source use: the escaping of a query
  value, and the encoding of a set of values.
\<close>

definition hex_digit :: "int \<Rightarrow> char" where
  "hex_digit n = (if n < 10 then char_of (48 + n) else char_of (55 + n))"

definition unreserved :: "char \<Rightarrow> bool" where
  "unreserved c \<longleftrightarrow>
     (let n = (of_char c :: int)
      in 97 \<le> n \<and> n \<le> 122 \<or> 65 \<le> n \<and> n \<le> 90 \<or> 48 \<le> n \<and> n \<le> 57 \<or> c = CHR ''-'' \<or> c = CHR ''_'' \<or> c = CHR ''.'' \<or> c = CHR ''~'')"

definition escape_char :: "char \<Rightarrow> string" where
  "escape_char c =
     (if unreserved c then [c] else if c = CHR '' '' then ''+''
      else [CHR ''%'', hex_digit (of_char c div 16), hex_digit (of_char c mod 16)])"

definition QueryEscape :: "string \<Rightarrow> string" where
  "QueryEscape s = concat (map escape_char s)"

text \<open>\<open>Values.Encode\<close> of keys with one value each, given in the order of the keys.\<close>

definition Encode :: "(string \<times> string) list \<Rightarrow> string" where
  "Encode kvs = Join (map (\<lambda>(k, v). QueryEscape k @ ''='' @ QueryEscape v) kvs) ''&''"

lemma QueryEscape_append [simp]: "QueryEscape (s @ t) = QueryEscape s @ QueryEscape t"
  by (simp add: QueryEscape_def)

lemma QueryEscape_Cons: "QueryEscape (c # s) = escape_char c @ QueryEscape s"
  by (simp add: QueryEscape_def)

lemma escape_comma: "escape_char CHR '','' = ''%2C''"
  by code_simp

lemma length_QueryEscape_Join:
  "ids \<noteq> [] \<Longrightarrow> length (QueryEscape (Join ids '','')) + 3 = sum_list (map (\<lambda>i. length (QueryEscape i) + 3) ids)"
proof (induction ids "'',''" rule: Join.induct)
  case (3 w v vs)
  then show ?case by (simp add: QueryEscape_Cons escape_comma)
qed simp_all

end
