(* ===== verification/Rest.thy ===== *)
theory Rest
  imports Reconciler Url GoStrings GoFloat
begin

text \<open>
  The job's REST API (\<open>src/internal/flink/rest.go\<close>): which topics the sources of a running job read,
  the last offset each reader emitted and how long the sources have been idle. The HTTP client and
  what \<open>encoding/json\<close> makes of a body are parameters.
\<close>

section \<open>Metric names\<close>

text \<open>
  The four regular expressions. The tail \<open>.partition.<digits>.<gauge>\<close> of a name can be read in one way
  only, from the right; the first expression of what is before it is found from the left, and a
  dot does not match a line end.
\<close>

definition reader_prefix :: string where "reader_prefix = ''KafkaSourceReader.''"

definition topic_prefix :: string where "topic_prefix = ''KafkaSourceReader.topic.''"

definition readerMetric :: "string \<Rightarrow> bool" where
  "readerMetric name \<longleftrightarrow> HasPrefix name reader_prefix \<or> Contains name (''.'' @ reader_prefix)"

definition idleMetric :: "string \<Rightarrow> bool" where
  "idleMetric name \<longleftrightarrow> name = ''sourceIdleTime'' \<or> HasSuffix name ''.sourceIdleTime''"

definition last_digits :: "string \<Rightarrow> string" where
  "last_digits s = rev (takeWhile is_digit (rev s))"

definition partition_tail :: "string \<Rightarrow> string \<Rightarrow> (string \<times> string) option" where
  "partition_tail gauge name =
     (case CutSuffix name (''.'' @ gauge) of (r, ok) \<Rightarrow>
        let ds = last_digits r
        in if \<not> ok \<or> ds = [] then None
           else (case CutSuffix (take (length r - length ds) r) ''.partition.'' of (h, ok') \<Rightarrow>
                   if ok' then Some (h, ds) else None))"

fun find_topic :: "string \<Rightarrow> string option" where
  "find_topic [] = None"
| "find_topic (c # s) =
     (let t = drop (length topic_prefix) (c # s)
      in if HasPrefix (c # s) topic_prefix \<and> t \<noteq> [] \<and> CHR 0x0A \<notin> set t then Some t else find_topic s)"

definition partition_metric :: "string \<Rightarrow> string \<Rightarrow> (string \<times> string) option" where
  "partition_metric gauge name =
     (case partition_tail gauge name of
        None \<Rightarrow> None
      | Some (h, ds) \<Rightarrow> map_option (\<lambda>t. (t, ds)) (find_topic h))"

definition offsetMetric :: "string \<Rightarrow> (string \<times> string) option" where
  "offsetMetric name = partition_metric ''currentOffset'' name"

definition topicMetric :: "string \<Rightarrow> string option" where
  "topicMetric name =
     (case offsetMetric name of
        Some (t, ds) \<Rightarrow> Some t
      | None \<Rightarrow> map_option fst (partition_metric ''committedOffset'' name))"

section \<open>Requests\<close>

record aggregate =
  ag_ID :: string
  ag_Min :: float64
  ag_Max :: float64

record HTTPResponse =
  hr_StatusCode :: int
  hr_Status :: string
  hr_Body :: string

text \<open>\<open>re_NewRequest\<close> parses a URL into its text without the query.\<close>

record 'w REST =
  re_URL :: "string \<Rightarrow> string \<Rightarrow> string"
  re_NewRequest :: "string \<Rightarrow> goerr + string"
  re_Do :: "'w \<Rightarrow> string \<Rightarrow> 'w \<times> (goerr + HTTPResponse)"
  re_job :: "string \<Rightarrow> goerr + string list"
  re_names :: "string \<Rightarrow> goerr + string list"
  re_aggregates :: "string \<Rightarrow> goerr + aggregate list"

definition NewREST_URL :: "int \<Rightarrow> string \<Rightarrow> string \<Rightarrow> string" where
  "NewREST_URL port ns name = ''http://'' @ name @ ''-rest.'' @ ns @ ''.svc:'' @ FormatInt port"

definition rest_get :: "'w REST \<Rightarrow> (string \<Rightarrow> goerr + 'a) \<Rightarrow> string \<Rightarrow> 'w \<Rightarrow> 'w \<times> (goerr + 'a)" where
  "rest_get r Decode u w =
     (case re_NewRequest r u of
        Inl e \<Rightarrow> (w, Inl e)
      | Inr target \<Rightarrow>
        (case re_Do r w u of (w1, resp) \<Rightarrow>
           (case resp of
              Inl e \<Rightarrow> (w1, Inl e)
            | Inr a \<Rightarrow>
              if hr_StatusCode a \<noteq> 200 then (w1, Inl (new_error (''GET '' @ target @ '': '' @ hr_Status a)))
              else (w1, Decode (hr_Body a)))))"

definition metrics_path :: "string \<Rightarrow> string \<Rightarrow> string" where
  "metrics_path jobID vertex = ''/jobs/'' @ jobID @ ''/vertices/'' @ vertex @ ''/subtasks/metrics''"

definition metricNames :: "'w REST \<Rightarrow> string \<Rightarrow> string \<Rightarrow> string \<Rightarrow> 'w \<Rightarrow> 'w \<times> (goerr + string list)" where
  "metricNames r base jobID vertex w = rest_get r (re_names r) (base @ metrics_path jobID vertex) w"

section \<open>Sources\<close>

text \<open>The names of one vertex: the topics they add, and whether it has a Kafka reader.\<close>

definition add_topics :: "string list \<Rightarrow> (string, bool) gomap \<Rightarrow> (string, bool) gomap" where
  "add_topics ids topics = fold (\<lambda>i m. case topicMetric i of Some t \<Rightarrow> map_put t True m | None \<Rightarrow> m) ids topics"

fun source_vertices ::
  "'w REST \<Rightarrow> string \<Rightarrow> string \<Rightarrow> string list \<Rightarrow> (string, bool) gomap \<Rightarrow> string list \<Rightarrow> 'w \<Rightarrow>
     'w \<times> (goerr + (string, bool) gomap \<times> string list)" where
  "source_vertices r base jobID [] topics out w = (w, Inr (topics, out))"
| "source_vertices r base jobID (v # vs) topics out w =
     (case metricNames r base jobID v w of (w1, res) \<Rightarrow>
        (case res of
           Inl e \<Rightarrow> (w1, Inl e)
         | Inr ids \<Rightarrow>
           source_vertices r base jobID vs (add_topics ids topics)
             (if list_ex readerMetric ids then out @ [v] else out) w1))"

definition rest_Sources :: "'w REST \<Rightarrow> 'w \<Rightarrow> string \<Rightarrow> string \<Rightarrow> string \<Rightarrow> 'w \<times> Sources \<times> goerr option" where
  "rest_Sources r w ns name jobID =
     (let base = re_URL r ns name
      in case rest_get r (re_job r) (base @ ''/jobs/'' @ jobID) w of (w1, job) \<Rightarrow>
         (case job of
            Inl e \<Rightarrow> (w1, zero_sources, Some e)
          | Inr vertices \<Rightarrow>
            (case source_vertices r base jobID vertices [] [] w1 of (w2, res) \<Rightarrow>
               (case res of
                  Inl e \<Rightarrow> (w2, zero_sources, Some e)
                | Inr (topics, out) \<Rightarrow> (w2, \<lparr>sr_Topics = sorted_keys topics, sr_Vertices = out\<rparr>, None)))))"

section \<open>Aggregates\<close>

definition maxRequestURI :: nat where "maxRequestURI = 3500"

text \<open>
  How many of the ids go into the next request, of which \<open>n\<close> are in already. Three is the length of
  an escaped comma.
\<close>

fun request_ids :: "nat \<Rightarrow> nat \<Rightarrow> string list \<Rightarrow> nat" where
  "request_ids n sz [] = n"
| "request_ids n sz (i # ids) =
     (let grow' = length (QueryEscape i) + 3
      in if 0 < n \<and> maxRequestURI < sz + grow' then n else request_ids (Suc n) (sz + grow') ids)"

lemma request_ids_pos: "ids \<noteq> [] \<Longrightarrow> 0 < request_ids 0 sz ids"
proof -
  have mono: "n \<le> request_ids n sz ids" for n sz ids
    by (induction n sz ids rule: request_ids.induct) (auto simp: Let_def intro: order_trans)
  show "ids \<noteq> [] \<Longrightarrow> 0 < request_ids 0 sz ids"
    using mono[of 1] by (cases ids) (auto simp: Let_def Suc_le_eq)
qed

definition first_size :: "string \<Rightarrow> nat" where
  "first_size path = length path + length ''?get=''"

definition aggregate_url :: "string \<Rightarrow> string list \<Rightarrow> string" where
  "aggregate_url path ids = path @ ''?'' @ Encode [(''get'', Join ids '','')]"

function aggregated_from ::
  "'w REST \<Rightarrow> string \<Rightarrow> string \<Rightarrow> string list \<Rightarrow> aggregate list \<Rightarrow> 'w \<Rightarrow> 'w \<times> (goerr + aggregate list)" where
  "aggregated_from r base path ids agg w =
     (if ids = [] then (w, Inr agg)
      else
        let n = request_ids 0 (first_size path) ids
        in case rest_get r (re_aggregates r) (base @ aggregate_url path (take n ids)) w of (w1, res) \<Rightarrow>
           (case res of
              Inl e \<Rightarrow> (w1, Inl e)
            | Inr part \<Rightarrow> aggregated_from r base path (drop n ids) (agg @ part) w1))"
  by pat_completeness auto
termination
  by (relation "measure (\<lambda>(r, base, path, ids, agg, w). length ids)") (auto simp: request_ids_pos)

declare aggregated_from.simps [simp del]

definition aggregated ::
  "'w REST \<Rightarrow> string \<Rightarrow> string \<Rightarrow> string \<Rightarrow> string list \<Rightarrow> 'w \<Rightarrow> 'w \<times> (goerr + aggregate list)" where
  "aggregated r base jobID vertex ids w =
     (case aggregated_from r base (metrics_path jobID vertex) ids [] w of (w1, res) \<Rightarrow>
        (case res of
           Inl e \<Rightarrow> (w1, Inl e)
         | Inr agg \<Rightarrow>
           if agg = [] then (w1, Inl (new_error (''vertex '' @ vertex @ '' returned no metric values'')))
           else (w1, Inr agg)))"

section \<open>Reading\<close>

text \<open>One aggregate: an offset of a partition, or an idle time, of which the smallest counts.\<close>

definition add_offset :: "string \<Rightarrow> int \<Rightarrow> int \<Rightarrow> (string, (int, int) gomap) gomap \<Rightarrow> (string, (int, int) gomap) gomap" where
  "add_offset t p off m = map_put t (map_put p off (case map_of m t of None \<Rightarrow> [] | Some ps \<Rightarrow> ps)) m"

definition take_aggregate :: "aggregate \<Rightarrow> JobReading \<times> bool \<Rightarrow> JobReading \<times> bool" where
  "take_aggregate a st =
     (case st of (out, idleSeen) \<Rightarrow>
        (case offsetMetric (ag_ID a) of
           Some (t, ds) \<Rightarrow> (out\<lparr>jr_Offsets := add_offset t (fst (ParseInt ds)) (float_to_int64 (ag_Max a)) (jr_Offsets out)\<rparr>, idleSeen)
         | None \<Rightarrow>
           if idleMetric (ag_ID a) then
             (let idle = i64 (float_to_int64 (ag_Min a) * Millisecond)
              in (if jr_IdleFor out < 0 \<or> idle < jr_IdleFor out then out\<lparr>jr_IdleFor := idle\<rparr> else out, True))
           else (out, idleSeen)))"

definition wanted :: "string \<Rightarrow> bool" where
  "wanted i \<longleftrightarrow> offsetMetric i \<noteq> None \<or> idleMetric i"

definition read_vertex :: "'w REST \<Rightarrow> string \<Rightarrow> string \<Rightarrow> string \<Rightarrow> JobReading \<Rightarrow> 'w \<Rightarrow> 'w \<times> (goerr + JobReading)" where
  "read_vertex r base jobID vertex out w =
     (case metricNames r base jobID vertex w of (w1, res) \<Rightarrow>
        (case res of
           Inl e \<Rightarrow> (w1, Inl e)
         | Inr ids \<Rightarrow>
           let asked = filter wanted ids
           in if asked = [] then (w1, Inl (new_error (''vertex '' @ vertex @ '' has no partition metrics yet'')))
              else (case aggregated r base jobID vertex asked w1 of (w2, res2) \<Rightarrow>
                (case res2 of
                   Inl e \<Rightarrow> (w2, Inl e)
                 | Inr agg \<Rightarrow>
                   (case fold take_aggregate agg (out, False) of (out1, idleSeen) \<Rightarrow>
                      if \<not> idleSeen then (w2, Inl (new_error (''vertex '' @ vertex @ '' has no sourceIdleTime metric'')))
                      else (w2, Inr out1))))))"

fun read_vertices :: "'w REST \<Rightarrow> string \<Rightarrow> string \<Rightarrow> string list \<Rightarrow> JobReading \<Rightarrow> 'w \<Rightarrow> 'w \<times> (goerr + JobReading)" where
  "read_vertices r base jobID [] out w = (w, Inr out)"
| "read_vertices r base jobID (v # vs) out w =
     (case read_vertex r base jobID v out w of (w1, res) \<Rightarrow>
        (case res of
           Inl e \<Rightarrow> (w1, Inl e)
         | Inr out1 \<Rightarrow> read_vertices r base jobID vs out1 w1))"

definition rest_Read :: "'w REST \<Rightarrow> 'w \<Rightarrow> string \<Rightarrow> string \<Rightarrow> string \<Rightarrow> Sources \<Rightarrow> 'w \<times> JobReading \<times> goerr option" where
  "rest_Read r w ns name jobID src =
     (if sr_Vertices src = []
      then (w, zero_reading, Some (new_error (''job '' @ jobID @ '' exposes no Kafka source reader metrics'')))
      else (case read_vertices r (re_URL r ns name) jobID (sr_Vertices src) (zero_reading\<lparr>jr_IdleFor := -1\<rparr>) w of (w1, res) \<Rightarrow>
              (case res of
                 Inl e \<Rightarrow> (w1, zero_reading, Some e)
               | Inr out \<Rightarrow> (w1, out, None))))"

text \<open>The probe as the reconciler uses it.\<close>

definition rest_probe :: "'w REST \<Rightarrow> 'w JobProbe" where
  "rest_probe r = \<lparr>jp_Sources = rest_Sources r, jp_Read = rest_Read r\<rparr>"

end
