(* ===== verification/RestProps.thy ===== *)
theory RestProps
  imports Rest
begin

text \<open>
  What the REST probe promises: a metric name is read as the regular expression reads it, every
  request fits the server's request line, and a reading is evidence from every source vertex.
\<close>

section \<open>Metric names\<close>

text \<open>A name as the expression for partition gauges spells it, with what is before the match.\<close>

definition spells :: "string \<Rightarrow> string \<Rightarrow> string \<Rightarrow> string \<Rightarrow> string \<Rightarrow> bool" where
  "spells gauge name pre t ds \<longleftrightarrow>
     name = pre @ topic_prefix @ t @ ''.partition.'' @ ds @ ''.'' @ gauge \<and>
     t \<noteq> [] \<and> CHR 0x0A \<notin> set t \<and> ds \<noteq> [] \<and> list_all is_digit ds"

lemma last_digits_append:
  assumes "list_all is_digit ds"
  shows "last_digits (s @ ''.partition.'' @ ds) = ds"
proof -
  have "\<not> is_digit CHR ''.''" by code_simp
  moreover have "takeWhile is_digit (rev ds @ rest) = rev ds @ takeWhile is_digit rest" for rest
    using assms by (intro takeWhile_append2) (simp add: list_all_iff)
  ultimately have "takeWhile is_digit (rev ds @ CHR ''.'' # rest) = rev ds" for rest by simp
  then show ?thesis by (simp add: last_digits_def)
qed

lemma last_digits_split: "\<exists>h. s = h @ last_digits s \<and> list_all is_digit (last_digits s)"
proof (intro exI conjI)
  show "s = rev (dropWhile is_digit (rev s)) @ last_digits s"
    unfolding last_digits_def by (metis rev_append rev_rev_ident takeWhile_dropWhile_id)
  show "list_all is_digit (last_digits s)" by (auto simp: last_digits_def list_all_iff dest: set_takeWhileD)
qed

lemma partition_tail_iff:
  "partition_tail gauge name = Some (h, ds) \<longleftrightarrow>
     name = h @ ''.partition.'' @ ds @ ''.'' @ gauge \<and> ds \<noteq> [] \<and> list_all is_digit ds"
proof
  assume *: "partition_tail gauge name = Some (h, ds)"
  obtain r ok where c: "CutSuffix name (''.'' @ gauge) = (r, ok)" by fastforce
  obtain h' ok' where c': "CutSuffix (take (length r - length (last_digits r)) r) ''.partition.'' = (h', ok')" by fastforce
  from * c c' have o: "ok" "ok'" "h' = h" "ds = last_digits r" "ds \<noteq> []"
    by (auto simp: partition_tail_def Let_def split: if_splits)
  obtain r' where r: "r = r' @ ds" "list_all is_digit ds" using last_digits_split[of r] o(4) by auto
  then have "take (length r - length (last_digits r)) r = r'"
    unfolding o(4)[symmetric] by simp
  with c' o have "r' = h @ ''.partition.''" by (simp add: CutSuffix_iff)
  with r(1) have "r = h @ ''.partition.'' @ ds" by (simp only: append_assoc)
  moreover from c o(1) have "name = r @ ''.'' @ gauge" by (simp only: CutSuffix_iff)
  ultimately show "name = h @ ''.partition.'' @ ds @ ''.'' @ gauge \<and> ds \<noteq> [] \<and> list_all is_digit ds"
    using o(5) r(2) by (simp only: append_assoc simp_thms)
next
  assume *: "name = h @ ''.partition.'' @ ds @ ''.'' @ gauge \<and> ds \<noteq> [] \<and> list_all is_digit ds"
  then have "CutSuffix name (''.'' @ gauge) = (h @ ''.partition.'' @ ds, True)" by (simp add: CutSuffix_iff)
  moreover have "CutSuffix (h @ ''.partition.'') ''.partition.'' = (h, True)" by (simp only: CutSuffix_iff)
  ultimately show "partition_tail gauge name = Some (h, ds)"
    using * last_digits_append[of ds h] by (simp add: partition_tail_def Let_def)
qed

text \<open>The topic is found at the first place where the rest has no line end.\<close>

lemma find_topic_Some:
  "find_topic h = Some t \<Longrightarrow> \<exists>pre. h = pre @ topic_prefix @ t \<and> t \<noteq> [] \<and> CHR 0x0A \<notin> set t \<and>
     (\<forall>pre' t'. h = pre' @ topic_prefix @ t' \<longrightarrow> t' \<noteq> [] \<longrightarrow> CHR 0x0A \<notin> set t' \<longrightarrow> length pre \<le> length pre')"
proof (induction h)
  case (Cons c s)
  show ?case
  proof (cases "HasPrefix (c # s) topic_prefix \<and> drop (length topic_prefix) (c # s) \<noteq> [] \<and> CHR 0x0A \<notin> set (drop (length topic_prefix) (c # s))")
    case True
    with Cons.prems have t: "t = drop (length topic_prefix) (c # s)" by (simp add: Let_def)
    from True have "take (length topic_prefix) (c # s) = topic_prefix" by (simp add: HasPrefix_def)
    then have "c # s = [] @ topic_prefix @ t" unfolding t append_Nil using append_take_drop_id[of "length topic_prefix" "c # s"] by simp
    moreover have "t \<noteq> []" "CHR 0x0A \<notin> set t" unfolding t using True by blast+
    ultimately show ?thesis by (intro exI[of _ "[]"] conjI) (assumption | simp only: list.size le0 simp_thms)+
  next
    case False
    then have "find_topic s = Some t" using Cons.prems by (auto simp: Let_def split: if_splits)
    from Cons.IH[OF this] obtain pre where pre: "s = pre @ topic_prefix @ t" "t \<noteq> []" "CHR 0x0A \<notin> set t"
      "\<forall>pre' t'. s = pre' @ topic_prefix @ t' \<longrightarrow> t' \<noteq> [] \<longrightarrow> CHR 0x0A \<notin> set t' \<longrightarrow> length pre \<le> length pre'" by blast
    have "length (c # pre) \<le> length pre'"
      if "c # s = pre' @ topic_prefix @ t'" "t' \<noteq> []" "CHR 0x0A \<notin> set t'" for pre' t'
    proof (cases pre')
      case Nil
      with that have "HasPrefix (c # s) topic_prefix" "drop (length topic_prefix) (c # s) = t'" by (simp_all add: HasPrefix_def)
      with False that show ?thesis by blast
    next
      case (Cons d pre'')
      with that pre(4) show ?thesis by auto
    qed
    with pre show ?thesis by (intro exI[of _ "c # pre"]) auto
  qed
qed simp

lemma find_topic_None:
  "find_topic h = None \<Longrightarrow> h = pre @ topic_prefix @ t \<Longrightarrow> t = [] \<or> CHR 0x0A \<in> set t"
proof (induction h arbitrary: pre)
  case Nil
  then show ?case by (simp add: topic_prefix_def)
next
  case (Cons c s)
  show ?case
  proof (cases pre)
    case Nil
    with Cons.prems(2) have "HasPrefix (c # s) topic_prefix" "drop (length topic_prefix) (c # s) = t" by (simp_all add: HasPrefix_def)
    with Cons.prems(1) show ?thesis by (auto simp: Let_def split: if_splits)
  next
    case (Cons d pre')
    with Cons.prems Cons.IH[of pre'] show ?thesis by (auto simp: Let_def split: if_splits)
  qed
qed

lemma partition_metric_iff:
  "partition_metric gauge name = Some (t, ds) \<longleftrightarrow>
     (\<exists>pre. spells gauge name pre t ds \<and> (\<forall>pre' t' ds'. spells gauge name pre' t' ds' \<longrightarrow> length pre \<le> length pre'))"
    (is "_ \<longleftrightarrow> ?leftmost")
proof -
  have tail: "spells gauge name pre t ds \<longleftrightarrow>
      partition_tail gauge name = Some (pre @ topic_prefix @ t, ds) \<and> t \<noteq> [] \<and> CHR 0x0A \<notin> set t" for pre t ds
    unfolding spells_def partition_tail_iff by auto
  show ?thesis
  proof (cases "partition_tail gauge name")
    case None
    then show ?thesis by (simp add: tail partition_metric_def)
  next
    case (Some hds)
    obtain h ds0 where hds: "hds = (h, ds0)" by fastforce
    show ?thesis
    proof
      assume "partition_metric gauge name = Some (t, ds)"
      with Some hds have "find_topic h = Some t" "ds0 = ds" by (auto simp: partition_metric_def)
      with find_topic_Some[of h t] Some hds show ?leftmost by (auto simp: tail)
    next
      assume ?leftmost
      then obtain pre where pre: "spells gauge name pre t ds" "\<And>pre' t' ds'. spells gauge name pre' t' ds' \<Longrightarrow> length pre \<le> length pre'" by blast
      with Some hds have h: "h = pre @ topic_prefix @ t" "ds0 = ds" "t \<noteq> []" "CHR 0x0A \<notin> set t" by (auto simp: tail)
      with find_topic_None[of h pre t] obtain t' where t': "find_topic h = Some t'" by (cases "find_topic h") auto
      from find_topic_Some[OF t'] obtain pre' where p: "h = pre' @ topic_prefix @ t'" "t' \<noteq> []" "CHR 0x0A \<notin> set t'" "length pre' \<le> length pre"
        using h by blast
      then have "spells gauge name pre' t' ds" using Some hds h by (simp add: tail)
      with pre(2) p(4) have "length pre = length pre'" by force
      with h(1) p(1) have "t' = t" by simp
      with t' Some hds h show "partition_metric gauge name = Some (t, ds)" by (simp add: partition_metric_def)
    qed
  qed
qed

section \<open>Requests\<close>

text \<open>The ids of one call, split as the loop splits them, and the calls made one after another.\<close>

function chunks :: "string \<Rightarrow> string list \<Rightarrow> string list list" where
  "chunks path ids =
     (if ids = [] then []
      else let n = request_ids 0 (first_size path) ids in take n ids # chunks path (drop n ids))"
  by pat_completeness auto
termination
  by (relation "measure (\<lambda>(path, ids). length ids)") (auto simp: request_ids_pos)

declare chunks.simps [simp del]

fun get_all :: "'w REST \<Rightarrow> string \<Rightarrow> string \<Rightarrow> string list list \<Rightarrow> aggregate list \<Rightarrow> 'w \<Rightarrow> 'w \<times> (goerr + aggregate list)" where
  "get_all r base path [] agg w = (w, Inr agg)"
| "get_all r base path (c # cs) agg w =
     (case rest_get r (re_aggregates r) (base @ aggregate_url path c) w of (w1, res) \<Rightarrow>
        (case res of Inl e \<Rightarrow> (w1, Inl e) | Inr part \<Rightarrow> get_all r base path cs (agg @ part) w1))"

lemma concat_chunks: "concat (chunks path ids) = ids"
  by (induction path ids rule: chunks.induct) (subst chunks.simps, simp add: Let_def)

lemma chunks_eq: "ids \<noteq> [] \<Longrightarrow> chunks path ids =
    take (request_ids 0 (first_size path) ids) ids # chunks path (drop (request_ids 0 (first_size path) ids) ids)"
  by (subst chunks.simps) (simp add: Let_def)

lemma chunks_Nil [simp]: "chunks path [] = []"
  by (subst chunks.simps) simp

lemma aggregated_from_chunks: "aggregated_from r base path ids agg w = get_all r base path (chunks path ids) agg w"
proof (induction r base path ids agg w rule: aggregated_from.induct)
  case (1 r base path ids agg w)
  show ?case
  proof (cases "ids = []")
    case True
    then show ?thesis by (simp add: aggregated_from.simps)
  next
    case False
    let ?n = "request_ids 0 (first_size path) ids"
    obtain w1 res where g: "rest_get r (re_aggregates r) (base @ aggregate_url path (take ?n ids)) w = (w1, res)" by fastforce
    show ?thesis
    proof (cases res)
      case (Inl e)
      with g False show ?thesis by (subst aggregated_from.simps) (simp add: chunks_eq Let_def)
    next
      case (Inr part)
      with g "1.IH"[OF False refl g[symmetric] Inr] False show ?thesis
        by (subst aggregated_from.simps) (simp add: chunks_eq Let_def)
    qed
  qed
qed

text \<open>What the ids of a request add to its size, with the comma the code counts for each.\<close>

definition ids_size :: "string list \<Rightarrow> nat" where
  "ids_size ids = sum_list (map (\<lambda>i. length (QueryEscape i) + 3) ids)"

lemma request_ids_le: "n \<le> request_ids n sz ids \<and> request_ids n sz ids \<le> n + length ids"
  by (induction n sz ids rule: request_ids.induct) (auto simp: Let_def)

lemma request_ids_size:
  "0 < n \<Longrightarrow> sz \<le> maxRequestURI \<or> n = 1 \<Longrightarrow>
     sz + ids_size (take (request_ids n sz ids - n) ids) \<le> maxRequestURI \<or> request_ids n sz ids = 1"
proof (induction n sz ids rule: request_ids.induct)
  case (2 n sz i ids)
  let ?g = "length (QueryEscape i) + 3"
  show ?case
  proof (cases "maxRequestURI < sz + ?g")
    case True
    with 2 show ?thesis by (auto simp: Let_def ids_size_def)
  next
    case False
    let ?k = "request_ids (Suc n) (sz + ?g) ids"
    have k: "Suc n \<le> ?k" using request_ids_le by blast
    from 2(1)[OF refl] False have "sz + ?g + ids_size (take (?k - Suc n) ids) \<le> maxRequestURI \<or> ?k = 1" by simp
    moreover have "take (?k - n) (i # ids) = i # take (?k - Suc n) ids" using k by (simp add: take_Cons')
    ultimately show ?thesis using False k 2(2) by (auto simp: Let_def ids_size_def)
  qed
qed (auto simp: ids_size_def)

lemma length_aggregate_url: "c \<noteq> [] \<Longrightarrow> length (aggregate_url path c) + 3 = first_size path + ids_size c"
proof -
  assume "c \<noteq> []"
  have "QueryEscape ''get'' = ''get''" by code_simp
  then show ?thesis
    using length_QueryEscape_Join[OF \<open>c \<noteq> []\<close>] by (simp add: aggregate_url_def Encode_def first_size_def ids_size_def)
qed

lemma first_chunk_fits:
  assumes "ids \<noteq> []" and "c = take (request_ids 0 (first_size path) ids) ids"
  shows "c \<noteq> [] \<and> (length c = 1 \<or> length (aggregate_url path c) \<le> maxRequestURI)"
proof -
  obtain i rest where ids: "ids = i # rest" using assms(1) by (cases ids) auto
  let ?g = "length (QueryEscape i) + 3"
  let ?k = "request_ids 1 (first_size path + ?g) rest"
  have n: "request_ids 0 (first_size path) ids = ?k" by (simp add: ids Let_def)
  have k: "1 \<le> ?k" using request_ids_le by blast
  then have c: "c = i # take (?k - 1) rest" using assms(2) n ids by (cases ?k) auto
  from request_ids_size[of 1 "first_size path + ?g" rest]
  consider "first_size path + ids_size c \<le> maxRequestURI" | "?k = 1" by (auto simp: c ids_size_def)
  then show ?thesis
  proof cases
    case 1
    with length_aggregate_url[of c path] c show ?thesis by auto
  qed (simp add: c)
qed


section \<open>Readings\<close>

text \<open>What the server said: per vertex, its metric names and the aggregates of those that were asked for.\<close>

definition vertex_said :: "'w REST \<Rightarrow> string \<Rightarrow> string \<Rightarrow> string \<Rightarrow> 'w \<Rightarrow> aggregate list \<Rightarrow> 'w \<Rightarrow> bool" where
  "vertex_said r base jobID v w agg w' \<longleftrightarrow>
     (\<exists>w1 ids. metricNames r base jobID v w = (w1, Inr ids) \<and>
        aggregated r base jobID v (filter wanted ids) w1 = (w', Inr agg))"

inductive vertices_said :: "'w REST \<Rightarrow> string \<Rightarrow> string \<Rightarrow> string list \<Rightarrow> 'w \<Rightarrow> aggregate list list \<Rightarrow> 'w \<Rightarrow> bool"
  for r base jobID where
  nothing: "vertices_said r base jobID [] w [] w"
| more: "vertex_said r base jobID v w agg w1 \<Longrightarrow> vertices_said r base jobID vs w1 aggs w' \<Longrightarrow>
     vertices_said r base jobID (v # vs) w (agg # aggs) w'"

text \<open>An idle gauge, the position a gauge reports, and the idle time it stands for.\<close>

definition idle_gauge :: "aggregate \<Rightarrow> bool" where
  "idle_gauge a \<longleftrightarrow> offsetMetric (ag_ID a) = None \<and> idleMetric (ag_ID a)"

definition idle_time :: "aggregate \<Rightarrow> duration" where
  "idle_time a = i64 (float_to_int64 (ag_Min a) * Millisecond)"

definition reports :: "aggregate \<Rightarrow> string \<Rightarrow> int \<Rightarrow> int \<Rightarrow> bool" where
  "reports a t p off \<longleftrightarrow> (\<exists>ds. offsetMetric (ag_ID a) = Some (t, ds) \<and> p = fst (ParseInt ds) \<and> off = float_to_int64 (ag_Max a))"

definition position :: "JobReading \<Rightarrow> string \<Rightarrow> int \<Rightarrow> int option" where
  "position reading t p = (case map_of (jr_Offsets reading) t of None \<Rightarrow> None | Some m \<Rightarrow> map_of m p)"

lemma position_add_offset:
  "position (out\<lparr>jr_Offsets := add_offset t p off (jr_Offsets out)\<rparr>) t' p' = (if t' = t \<and> p' = p then Some off else position out t' p')"
  by (auto simp: position_def add_offset_def split: option.split)

text \<open>A reading that holds what some aggregates say.\<close>

definition reading_of :: "aggregate list \<Rightarrow> JobReading \<Rightarrow> bool" where
  "reading_of aggs out \<longleftrightarrow>
     (\<forall>t p off. position out t p = Some off \<longrightarrow> (\<exists>a\<in>set aggs. reports a t p off)) \<and>
     (\<forall>a\<in>set aggs. \<forall>t p off. reports a t p off \<longrightarrow> position out t p \<noteq> None) \<and>
     ((\<forall>a\<in>set aggs. idle_gauge a \<longrightarrow> 0 \<le> idle_time a) \<longrightarrow>
        (if \<exists>a\<in>set aggs. idle_gauge a
         then (\<exists>a\<in>set aggs. idle_gauge a \<and> idle_time a = jr_IdleFor out) \<and> (\<forall>a\<in>set aggs. idle_gauge a \<longrightarrow> jr_IdleFor out \<le> idle_time a)
         else jr_IdleFor out = -1))"

lemma take_aggregate_cases:
  obtains (offset) t ds where "offsetMetric (ag_ID a) = Some (t, ds)" "\<not> idle_gauge a"
      "take_aggregate a (out, b) = (out\<lparr>jr_Offsets := add_offset t (fst (ParseInt ds)) (float_to_int64 (ag_Max a)) (jr_Offsets out)\<rparr>, b)"
  | (idle) "offsetMetric (ag_ID a) = None" "idle_gauge a"
      "take_aggregate a (out, b) = (if jr_IdleFor out < 0 \<or> idle_time a < jr_IdleFor out then out\<lparr>jr_IdleFor := idle_time a\<rparr> else out, True)"
  | (other) "offsetMetric (ag_ID a) = None" "\<not> idle_gauge a" "take_aggregate a (out, b) = (out, b)"
  by (cases "offsetMetric (ag_ID a)") (auto simp: take_aggregate_def idle_gauge_def idle_time_def Let_def)

lemma reading_of_snoc:
  assumes "reading_of aggs out" and "take_aggregate a (out, b) = (out', b')"
  shows "reading_of (aggs @ [a]) out' \<and> (b' \<longleftrightarrow> b \<or> idle_gauge a)"
proof (cases rule: take_aggregate_cases[of a out b])
  case (offset t ds)
  with assms(2) have out': "out' = out\<lparr>jr_Offsets := add_offset t (fst (ParseInt ds)) (float_to_int64 (ag_Max a)) (jr_Offsets out)\<rparr>" "b' = b" by auto
  have rep: "reports a t' p' off' \<longleftrightarrow> t' = t \<and> p' = fst (ParseInt ds) \<and> off' = float_to_int64 (ag_Max a)" for t' p' off'
    using offset(1) by (auto simp: reports_def)
  have pos: "position out' t' p' = (if t' = t \<and> p' = fst (ParseInt ds) then Some (float_to_int64 (ag_Max a)) else position out t' p')" for t' p'
    unfolding out' by (rule position_add_offset)
  have "jr_IdleFor out' = jr_IdleFor out" unfolding out' by simp
  with assms(1) offset(2) out'(2) show ?thesis
    unfolding reading_of_def pos by (auto simp: rep split: if_splits)
next
  case idle
  with assms(2) have out': "out' = (if jr_IdleFor out < 0 \<or> idle_time a < jr_IdleFor out then out\<lparr>jr_IdleFor := idle_time a\<rparr> else out)" "b'" by auto
  have "position out' t p = position out t p" for t p unfolding out' by (simp add: position_def)
  moreover have "\<not> reports a t p off" for t p off using idle(1) by (simp add: reports_def)
  moreover have "jr_IdleFor out' = (if jr_IdleFor out < 0 \<or> idle_time a < jr_IdleFor out then idle_time a else jr_IdleFor out)" unfolding out' by simp
  ultimately show ?thesis
    using assms(1) idle(2) out'(2) unfolding reading_of_def by (auto split: if_splits)
next
  case other
  then have "reports a t p = (\<lambda>off. False)" for t p by (auto simp: reports_def fun_eq_iff)
  then have "reading_of (aggs @ [a]) out \<longleftrightarrow> reading_of aggs out" using other(2) by (simp add: reading_of_def ball_Un bex_Un)
  with assms other show ?thesis by simp
qed

lemma fold_take_aggregate:
  assumes "reading_of aggs out" and "fold take_aggregate agg (out, b) = (out', b')"
  shows "reading_of (aggs @ agg) out' \<and> (b' \<longleftrightarrow> b \<or> list_ex idle_gauge agg)"
  using assms
proof (induction agg arbitrary: aggs out b)
  case (Cons a agg)
  obtain out1 b1 where a: "take_aggregate a (out, b) = (out1, b1)" by fastforce
  note s = reading_of_snoc[OF Cons.prems(1) a]
  with Cons.IH[of "aggs @ [a]" out1 b1] Cons.prems(2) a show ?case by auto
qed simp

lemma read_vertex_said:
  assumes "reading_of aggs out" and "read_vertex r base jobID v out w = (w', Inr out')"
  shows "\<exists>agg. vertex_said r base jobID v w agg w' \<and> list_ex idle_gauge agg \<and> reading_of (aggs @ agg) out'"
proof -
  obtain w1 ids where n: "metricNames r base jobID v w = (w1, Inr ids)"
    using assms(2) by (auto simp: read_vertex_def split: prod.splits sum.splits)
  obtain w2 agg where g: "aggregated r base jobID v (filter wanted ids) w1 = (w2, Inr agg)"
    using assms(2) n by (auto simp: read_vertex_def Let_def split: prod.splits sum.splits if_splits)
  obtain out1 seen1 where f: "fold take_aggregate agg (out, False) = (out1, seen1)" by fastforce
  have "seen1 \<and> w' = w2 \<and> out' = out1"
    using assms(2) unfolding read_vertex_def by (auto simp: n g f Let_def split: if_splits)
  with fold_take_aggregate[OF assms(1) f] n g show ?thesis by (auto simp: vertex_said_def)
qed

lemma read_vertices_said:
  assumes "reading_of (concat aggs) out" and "read_vertices r base jobID vs out w = (w', Inr out')"
  shows "\<exists>aggs'. vertices_said r base jobID vs w aggs' w' \<and> list_all (list_ex idle_gauge) aggs' \<and> reading_of (concat (aggs @ aggs')) out'"
  using assms
proof (induction vs arbitrary: aggs out w)
  case Nil
  then show ?case by (intro exI[of _ "[]"]) (auto intro: vertices_said.nothing)
next
  case (Cons v vs)
  obtain w1 res where v: "read_vertex r base jobID v out w = (w1, res)" by fastforce
  with Cons.prems(2) obtain out1 where res: "res = Inr out1" by (cases res) auto
  from read_vertex_said[OF Cons.prems(1) v[unfolded res]] obtain agg where
    agg: "vertex_said r base jobID v w agg w1" "list_ex idle_gauge agg" "reading_of (concat (aggs @ [agg])) out1" by auto
  from Cons.IH[OF agg(3)] Cons.prems(2) v res obtain aggs' where
    "vertices_said r base jobID vs w1 aggs' w'" "list_all (list_ex idle_gauge) aggs'" "reading_of (concat ((aggs @ [agg]) @ aggs')) out'" by auto
  with agg show ?case by (intro exI[of _ "agg # aggs'"]) (auto intro: vertices_said.more)
qed


text \<open>
  A JobManager with one source vertex that reads a topic with a dot in its name. A body is the name of
  what it stands for.
\<close>

definition example_rest :: "nat REST" where
  "example_rest =
     \<lparr>re_URL = NewREST_URL 8081, re_NewRequest = Inr,
      re_Do = (\<lambda>w u. (Suc w, Inr \<lparr>hr_StatusCode = 200, hr_Status = ''200 OK'', hr_Body = []\<rparr>)),
      re_job = (\<lambda>b. Inr [''src'']),
      re_names = (\<lambda>b. Inr [''Source.KafkaSourceReader.topic.orders.v2.partition.1.currentOffset'', ''Source.sourceIdleTime'', ''numRecordsOut'']),
      re_aggregates = (\<lambda>b. Inr [\<lparr>ag_ID = ''Source.KafkaSourceReader.topic.orders.v2.partition.1.currentOffset'', ag_Min = 41, ag_Max = 41\<rparr>,
                                \<lparr>ag_ID = ''Source.sourceIdleTime'', ag_Min = 90000, ag_Max = 120000\<rparr>])\<rparr>"


end
