(* ===== verification/KafkaConfig.thy ===== *)
theory KafkaConfig
  imports Patcher Url
begin

text \<open>
  The configuration of the Kafka client (\<open>src/internal/probe/kafkaconfig.go\<close>): read from the
  environment, checked, and turned into the client's options. An option that carries a loader keeps
  the configuration the loader reads from; the loader itself is a definition. The environment, the
  files and the certificate parsers of \<open>crypto\<close> are parameters.
\<close>

section \<open>The configuration\<close>

record KafkaConfig =
  kc_BootstrapServers :: "string list"
  kc_SecurityProtocol :: string
  kc_SASLMechanism :: string
  kc_SASLUsername :: string
  kc_SASLPassword :: string
  kc_SASLUsernameFile :: string
  kc_SASLPasswordFile :: string
  kc_TLSCAFile :: string
  kc_TLSCertFile :: string
  kc_TLSKeyFile :: string
  kc_TLSInsecure :: bool
  kc_OAuthTokenFile :: string
  kc_OAuthTokenEndpoint :: string
  kc_OAuthClientID :: string
  kc_OAuthClientSecret :: string
  kc_OAuthClientSecretFile :: string
  kc_OAuthScope :: string
  kc_OAuthExtensions :: string

definition splitList :: "string \<Rightarrow> string list" where
  "splitList s = filter (\<lambda>p. p \<noteq> []) (map TrimSpace (Split CHR '','' s))"

definition orDefault :: "string \<Rightarrow> string \<Rightarrow> string" where
  "orDefault s dflt = (if s = [] then dflt else s)"

definition KafkaConfigFromEnv :: "(string \<Rightarrow> string) \<Rightarrow> KafkaConfig" where
  "KafkaConfigFromEnv Getenv =
     \<lparr>kc_BootstrapServers = splitList (Getenv ''KAFKA_BOOTSTRAP_SERVERS''),
      kc_SecurityProtocol = orDefault (Getenv ''KAFKA_SECURITY_PROTOCOL'') ''PLAINTEXT'',
      kc_SASLMechanism = Getenv ''KAFKA_SASL_MECHANISM'',
      kc_SASLUsername = Getenv ''KAFKA_SASL_USERNAME'',
      kc_SASLPassword = Getenv ''KAFKA_SASL_PASSWORD'',
      kc_SASLUsernameFile = Getenv ''KAFKA_SASL_USERNAME_FILE'',
      kc_SASLPasswordFile = Getenv ''KAFKA_SASL_PASSWORD_FILE'',
      kc_TLSCAFile = Getenv ''KAFKA_TLS_CA_FILE'',
      kc_TLSCertFile = Getenv ''KAFKA_TLS_CERT_FILE'',
      kc_TLSKeyFile = Getenv ''KAFKA_TLS_KEY_FILE'',
      kc_TLSInsecure = EqualFold (Getenv ''KAFKA_TLS_INSECURE_SKIP_VERIFY'') ''true'',
      kc_OAuthTokenFile = Getenv ''KAFKA_SASL_OAUTHBEARER_TOKEN_FILE'',
      kc_OAuthTokenEndpoint = Getenv ''KAFKA_SASL_OAUTHBEARER_TOKEN_ENDPOINT'',
      kc_OAuthClientID = Getenv ''KAFKA_SASL_OAUTHBEARER_CLIENT_ID'',
      kc_OAuthClientSecret = Getenv ''KAFKA_SASL_OAUTHBEARER_CLIENT_SECRET'',
      kc_OAuthClientSecretFile = Getenv ''KAFKA_SASL_OAUTHBEARER_CLIENT_SECRET_FILE'',
      kc_OAuthScope = Getenv ''KAFKA_SASL_OAUTHBEARER_SCOPE'',
      kc_OAuthExtensions = Getenv ''KAFKA_SASL_OAUTHBEARER_EXTENSIONS''\<rparr>"

section \<open>Files and certificates\<close>

text \<open>What the process finds at one moment: the files, and what \<open>crypto\<close> makes of them.\<close>

record Host =
  h_ReadFile :: "string \<Rightarrow> goerr + string"
  h_HasCerts :: "string \<Rightarrow> bool"
  h_LoadX509KeyPair :: "string \<Rightarrow> string \<Rightarrow> goerr + string"

definition readTrimmed :: "Host \<Rightarrow> string \<Rightarrow> string \<Rightarrow> goerr + string" where
  "readTrimmed h path what =
     (case h_ReadFile h path of
        Inl e \<Rightarrow> Inl (wrap_error (''kafka: read '' @ what) e)
      | Inr b \<Rightarrow>
        let v = TrimSpace b
        in if v = [] then Inl (new_error (''kafka: '' @ what @ '' '' @ path @ '' is empty'')) else Inr v)"

text \<open>One credential of \<open>credentials\<close>: the trimmed content of its file, or the configured value.\<close>

definition credential :: "Host \<Rightarrow> string \<Rightarrow> string \<Rightarrow> string \<Rightarrow> goerr + string" where
  "credential h path what configured =
     (if path = [] then Inr configured
      else case h_ReadFile h path of
             Inl e \<Rightarrow> Inl (wrap_error (''kafka: read '' @ what @ '' file'') e)
           | Inr b \<Rightarrow> Inr (TrimSpace b))"

definition credentials :: "Host \<Rightarrow> KafkaConfig \<Rightarrow> goerr + string \<times> string" where
  "credentials h c =
     (case credential h (kc_SASLUsernameFile c) ''username'' (kc_SASLUsername c) of
        Inl e \<Rightarrow> Inl e
      | Inr user \<Rightarrow>
        (case credential h (kc_SASLPasswordFile c) ''password'' (kc_SASLPassword c) of
           Inl e \<Rightarrow> Inl e
         | Inr pass \<Rightarrow>
           if user = [] \<or> pass = [] then Inl (new_error ''kafka: SASL username or password is empty'')
           else Inr (user, pass)))"

record tlsConfig =
  tc_MinVersion :: int
  tc_InsecureSkipVerify :: bool
  tc_RootCAs :: "string option"
  tc_Certificates :: "string list"
  tc_ServerName :: string

abbreviation (input) VersionTLS12 :: int where "VersionTLS12 \<equiv> 0x0303"

definition tls_roots :: "Host \<Rightarrow> KafkaConfig \<Rightarrow> goerr + string option" where
  "tls_roots h c =
     (if kc_TLSCAFile c = [] then Inr None
      else case h_ReadFile h (kc_TLSCAFile c) of
             Inl e \<Rightarrow> Inl (wrap_error ''kafka: read CA file'' e)
           | Inr pem \<Rightarrow>
             if \<not> h_HasCerts h pem
             then Inl (new_error (''kafka: CA file '' @ kc_TLSCAFile c @ '' contains no PEM certificates''))
             else Inr (Some pem))"

definition tls_config :: "Host \<Rightarrow> KafkaConfig \<Rightarrow> goerr + tlsConfig" where
  "tls_config h c =
     (let cfg = \<lparr>tc_MinVersion = VersionTLS12, tc_InsecureSkipVerify = kc_TLSInsecure c, tc_RootCAs = None,
                 tc_Certificates = [], tc_ServerName = []\<rparr>
      in case tls_roots h c of
           Inl e \<Rightarrow> Inl e
         | Inr roots \<Rightarrow>
           let cfg1 = cfg\<lparr>tc_RootCAs := roots\<rparr>
           in if (kc_TLSCertFile c = []) \<noteq> (kc_TLSKeyFile c = [])
              then Inl (new_error ''kafka: client certificate and key must be set together'')
              else if kc_TLSCertFile c = [] then Inr cfg1
              else (case h_LoadX509KeyPair h (kc_TLSCertFile c) (kc_TLSKeyFile c) of
                      Inl e \<Rightarrow> Inl (wrap_error ''kafka: load client certificate'' e)
                    | Inr cert \<Rightarrow> Inr (cfg1\<lparr>tc_Certificates := [cert]\<rparr>)))"

text \<open>
  \<open>net.SplitHostPort\<close>, as far as its host: the part before the last colon, or the one in brackets.
\<close>

definition SplitHostPort :: "string \<Rightarrow> string option" where
  "SplitHostPort hostport =
     (let before = rev (tl (dropWhile (\<lambda>c. c \<noteq> CHR '':'') (rev hostport)));
          i = length before
      in if CHR '':'' \<notin> set hostport then None
         else if hd hostport = CHR ''['' then
           (let host = takeWhile (\<lambda>c. c \<noteq> CHR '']'') (tl hostport); end' = Suc (length host)
            in if CHR '']'' \<notin> set hostport \<or> Suc end' \<noteq> i \<or>
                  CHR ''['' \<in> set (drop 1 hostport) \<or> CHR '']'' \<in> set (drop (Suc end') hostport) then None
               else Some host)
         else if CHR '':'' \<in> set before \<or> CHR ''['' \<in> set hostport \<or> CHR '']'' \<in> set hostport then None
         else Some before)"

text \<open>
  \<open>dialTLS\<close>: the configuration of the connection that is then opened, with the files as they are
  now.
\<close>

definition dialTLS :: "Host \<Rightarrow> KafkaConfig \<Rightarrow> string \<Rightarrow> goerr + tlsConfig" where
  "dialTLS h c host =
     (case tls_config h c of
        Inl e \<Rightarrow> Inl e
      | Inr cfg \<Rightarrow>
        Inr (if tc_ServerName cfg = []
             then (case SplitHostPort host of None \<Rightarrow> cfg | Some n \<Rightarrow> cfg\<lparr>tc_ServerName := n\<rparr>)
             else cfg))"

end
