(* ===== verification/OAuth.thy ===== *)
theory OAuth
  imports KafkaConfig GoStrings
begin

text \<open>
  The token source of OAUTHBEARER (\<open>src/internal/probe/oauth.go\<close>): a token file read on every
  authentication, or a token endpoint whose token is reused until a minute before it expires. The
  endpoint is a parameter, with what \<open>encoding/json\<close> makes of the body it sends.
\<close>

section \<open>Extensions\<close>

definition extension :: "string \<Rightarrow> (string \<times> string) option" where
  "extension kv =
     (case Cut kv CHR ''='' of (k0, v0, ok) \<Rightarrow>
        let k = TrimSpace k0; v = TrimSpace v0
        in if \<not> ok \<or> k = [] \<or> v = [] then None else Some (k, v))"

fun add_extensions :: "string list \<Rightarrow> (string, string) gomap \<Rightarrow> goerr + (string, string) gomap" where
  "add_extensions [] out = Inr out"
| "add_extensions (kv # kvs) out =
     (case extension kv of
        None \<Rightarrow> Inl (new_error (''kafka: OAUTHBEARER extension '' @ go_quote kv @ '' is not key=value''))
      | Some (k, v) \<Rightarrow> add_extensions kvs (map_put k v out))"

definition parseExtensions :: "string \<Rightarrow> goerr + (string, string) gomap" where
  "parseExtensions s = add_extensions (splitList s) []"

section \<open>The check at startup\<close>

definition failure :: "goerr + 'a \<Rightarrow> goerr option" where
  "failure r = (case r of Inl e \<Rightarrow> Some e | Inr v \<Rightarrow> None)"

definition validateOAuth :: "Host \<Rightarrow> KafkaConfig \<Rightarrow> goerr option" where
  "validateOAuth h c =
     (let file = (kc_OAuthTokenFile c \<noteq> []); endpoint = (kc_OAuthTokenEndpoint c \<noteq> [])
      in if file = endpoint
         then Some (new_error ''kafka: OAUTHBEARER needs exactly one of a token file or a token endpoint'')
         else if endpoint \<and> (kc_OAuthClientID c = [] \<or> kc_OAuthClientSecret c = [] \<and> kc_OAuthClientSecretFile c = [])
         then Some (new_error ''kafka: an OAUTHBEARER token endpoint needs a client id and a client secret'')
         else case failure (parseExtensions (kc_OAuthExtensions c)) of
           Some e \<Rightarrow> Some e
         | None \<Rightarrow>
           (case (if file then failure (readTrimmed h (kc_OAuthTokenFile c) ''token file'') else None) of
              Some e \<Rightarrow> Some e
            | None \<Rightarrow>
              if kc_OAuthClientSecretFile c \<noteq> []
              then failure (readTrimmed h (kc_OAuthClientSecretFile c) ''client secret file'') else None))"

section \<open>Authentication\<close>

definition tokenRefreshBefore :: duration where "tokenRefreshBefore = Minute"

record tokenSource =
  ts_c :: KafkaConfig
  ts_ext :: "(string, string) gomap"
  ts_token :: string
  ts_expires :: time

definition token_source :: "KafkaConfig \<Rightarrow> tokenSource" where
  "token_source c =
     \<lparr>ts_c = c, ts_ext = (case parseExtensions (kc_OAuthExtensions c) of Inl e \<Rightarrow> [] | Inr m \<Rightarrow> m), ts_token = [], ts_expires = zero_time\<rparr>"

text \<open>The request of the client credentials grant, and the answer: status line, token and lifetime.\<close>

record TokenRequest =
  tq_URL :: string
  tq_Form :: string
  tq_ContentType :: string
  tq_User :: string
  tq_Password :: string

record TokenResponse =
  tp_StatusCode :: int
  tp_Status :: string
  tp_Token :: "(string \<times> int) option"

record 'w Net =
  n_Host :: "'w \<Rightarrow> Host"
  n_Now :: "'w \<Rightarrow> time"
  n_NewRequest :: "string \<Rightarrow> goerr option"
  n_Do :: "'w \<Rightarrow> TokenRequest \<Rightarrow> 'w \<times> (goerr + TokenResponse)"

definition token_request :: "KafkaConfig \<Rightarrow> string \<Rightarrow> TokenRequest" where
  "token_request c secret =
     \<lparr>tq_URL = kc_OAuthTokenEndpoint c,
      tq_Form = Encode ([(''grant_type'', ''client_credentials'')] @ (if kc_OAuthScope c \<noteq> [] then [(''scope'', kc_OAuthScope c)] else [])),
      tq_ContentType = ''application/x-www-form-urlencoded'',
      tq_User = QueryEscape (kc_OAuthClientID c), tq_Password = QueryEscape secret\<rparr>"

definition token_ttl :: "int \<Rightarrow> duration" where
  "token_ttl expiresIn =
     (let ttl = i64 (expiresIn * Second) in if ttl \<le> tokenRefreshBefore then tokenRefreshBefore + Second else ttl)"

definition fetch :: "'w Net \<Rightarrow> KafkaConfig \<Rightarrow> 'w \<Rightarrow> 'w \<times> (goerr + string \<times> duration)" where
  "fetch n c w =
     (case (if kc_OAuthClientSecretFile c \<noteq> [] then readTrimmed (n_Host n w) (kc_OAuthClientSecretFile c) ''client secret file''
            else Inr (kc_OAuthClientSecret c)) of
        Inl e \<Rightarrow> (w, Inl e)
      | Inr secret \<Rightarrow>
        (case n_NewRequest n (kc_OAuthTokenEndpoint c) of
           Some e \<Rightarrow> (w, Inl e)
         | None \<Rightarrow>
           (case n_Do n w (token_request c secret) of (w1, r) \<Rightarrow>
              (case r of
                 Inl e \<Rightarrow> (w1, Inl (wrap_error ''kafka: token endpoint'' e))
               | Inr resp \<Rightarrow>
                 if tp_StatusCode resp \<noteq> 200
                 then (w1, Inl (new_error (''kafka: token endpoint answered '' @ tp_Status resp)))
                 else (w1, case tp_Token resp of
                             None \<Rightarrow> Inl (new_error ''kafka: token endpoint returned no access_token'')
                           | Some (tok, expiresIn) \<Rightarrow>
                             if tok = [] then Inl (new_error ''kafka: token endpoint returned no access_token'')
                             else Inr (tok, token_ttl expiresIn))))))"

record Auth =
  au_Token :: string
  au_Extensions :: "(string, string) gomap"

text \<open>
  \<open>auth\<close>: a file's token is returned beside its error, which is empty then. The clock is read before
  and after a fetch.
\<close>

definition auth :: "'w Net \<Rightarrow> 'w \<times> tokenSource \<Rightarrow> ('w \<times> tokenSource) \<times> (goerr + Auth)" where
  "auth n st =
     (case st of (w, s) \<Rightarrow>
        let c = ts_c s
        in if kc_OAuthTokenFile c \<noteq> [] then
             (st, case readTrimmed (n_Host n w) (kc_OAuthTokenFile c) ''token file'' of
                    Inl e \<Rightarrow> Inl e
                  | Inr tok \<Rightarrow> Inr \<lparr>au_Token = tok, au_Extensions = ts_ext s\<rparr>)
           else if ts_token s = [] \<or> \<not> Before (n_Now n w) (Add (ts_expires s) (- tokenRefreshBefore)) then
             (case fetch n c w of (w1, r) \<Rightarrow>
                (case r of
                   Inl e \<Rightarrow> ((w1, s), Inl e)
                 | Inr (tok, ttl) \<Rightarrow>
                   let s1 = s\<lparr>ts_token := tok, ts_expires := Add (n_Now n w1) ttl\<rparr>
                   in ((w1, s1), Inr \<lparr>au_Token = ts_token s1, au_Extensions = ts_ext s1\<rparr>)))
           else (st, Inr \<lparr>au_Token = ts_token s, au_Extensions = ts_ext s\<rparr>))"

section \<open>Tokens\<close>

text \<open>What the endpoint granted: the token, when it came, and its lifetime in seconds.\<close>

definition granted :: "'w Net \<Rightarrow> KafkaConfig \<Rightarrow> 'w \<Rightarrow> (string \<times> time \<times> int) set" where
  "granted n c w = {(tok, t, secs). \<exists>secret w1 resp. n_Do n w (token_request c secret) = (w1, Inr resp) \<and>
      tp_StatusCode resp = 200 \<and> tp_Token resp = Some (tok, secs) \<and> tok \<noteq> [] \<and> t = n_Now n w1}"

text \<open>A token source in use: authentications, between which the world may change in any way.\<close>

inductive in_use :: "'w Net \<Rightarrow> KafkaConfig \<Rightarrow> (string \<times> time \<times> int) set \<Rightarrow> 'w \<times> tokenSource \<Rightarrow> bool" for n c where
  fresh: "in_use n c {} (w, token_source c)"
| drift: "in_use n c G (w, s) \<Longrightarrow> in_use n c G (w', s)"
| authenticate: "in_use n c G (w, s) \<Longrightarrow> auth n (w, s) = (st', r) \<Longrightarrow> in_use n c (G \<union> granted n c w) st'"

lemma token_ttl_more: "tokenRefreshBefore < token_ttl secs"
  by (simp add: token_ttl_def tokenRefreshBefore_def Let_def)

lemma token_ttl_exact:
  "minInt64 \<le> secs * Second \<Longrightarrow> secs * Second \<le> maxInt64 \<Longrightarrow> token_ttl secs = max 61 secs * Second"
  by (simp add: token_ttl_def tokenRefreshBefore_def Let_def i64_id max_def)

lemma fetch_granted:
  assumes "fetch n c w = (w1, Inr (tok, ttl))"
  shows "\<exists>secs. (tok, n_Now n w1, secs) \<in> granted n c w \<and> ttl = token_ttl secs \<and> tok \<noteq> []"
  using assms unfolding fetch_def granted_def
  by (auto split: sum.splits option.splits prod.splits if_splits)

lemma auth_cases:
  assumes "kc_OAuthTokenFile (ts_c s) = []" and "auth n (w, s) = (st', Inr a)"
  obtains
    (reused) "ts_token s \<noteq> []" "n_Now n w < ts_expires s - Minute" "st' = (w, s)" "au_Token a = ts_token s"
  | (fetched) w1 ttl where "fetch n (ts_c s) w = (w1, Inr (au_Token a, ttl))"
      "st' = (w1, s\<lparr>ts_token := au_Token a, ts_expires := n_Now n w1 + ttl\<rparr>)"
  using assms
  by (auto simp: auth_def Let_def tokenRefreshBefore_def split: if_splits prod.splits sum.splits)

lemma auth_error: "auth n (w, s) = (st', Inl e) \<Longrightarrow> snd st' = s"
  by (auto simp: auth_def Let_def split: if_splits prod.splits sum.splits)

lemma auth_file: "kc_OAuthTokenFile (ts_c s) \<noteq> [] \<Longrightarrow> auth n (w, s) = (st', r) \<Longrightarrow> st' = (w, s)"
  by (auto simp: auth_def Let_def)

lemma in_use_inv:
  assumes "in_use n c G (w, s)"
  shows "ts_c s = c \<and> (ts_token s = [] \<or> (\<exists>t secs. (ts_token s, t, secs) \<in> G \<and> ts_expires s = t + token_ttl secs))"
  using assms
proof (induction G "(w, s)" arbitrary: w s rule: in_use.induct)
  case (fresh w)
  then show ?case by (simp add: token_source_def)
next
  case (drift G w s w')
  then show ?case by blast
next
  case (authenticate G w s r w2 s2)
  note ih = authenticate.hyps(2)
  show ?case
  proof (cases "kc_OAuthTokenFile (ts_c s) = [] \<and> (\<exists>a. r = Inr a)")
    case False
    then have "s2 = s" using authenticate.hyps(3) auth_error[of n w s "(w2, s2)"] auth_file[of s n w "(w2, s2)" r]
      by (cases r) auto
    with ih show ?thesis by blast
  next
    case True
    then obtain a where "kc_OAuthTokenFile (ts_c s) = []" "auth n (w, s) = ((w2, s2), Inr a)" using authenticate.hyps(3) by auto
    then show ?thesis
    proof (cases rule: auth_cases)
      case reused
      with ih show ?thesis by auto
    next
      case (fetched w1 ttl)
      from fetch_granted[OF fetched(1)] fetched(2) ih show ?thesis by auto
    qed
  qed
qed


text \<open>An endpoint that grants tokens for ten seconds; the clock is the number of seconds.\<close>

definition example_net :: "int Net" where
  "example_net =
     \<lparr>n_Host = (\<lambda>w. \<lparr>h_ReadFile = (\<lambda>p. Inl (new_error ''no such file'')), h_HasCerts = (\<lambda>p. False), h_LoadX509KeyPair = (\<lambda>a b. Inr [])\<rparr>),
      n_Now = (\<lambda>w. w * Second), n_NewRequest = (\<lambda>u. None),
      n_Do = (\<lambda>w q. (w + 1, Inr \<lparr>tp_StatusCode = 200, tp_Status = ''200 OK'', tp_Token = Some (''tok'', 10)\<rparr>))\<rparr>"

definition example_oauth :: KafkaConfig where
  "example_oauth = (KafkaConfigFromEnv (\<lambda>v. []))\<lparr>kc_OAuthTokenEndpoint := ''https://idp/token'', kc_OAuthClientID := ''siesta'', kc_OAuthClientSecret := ''s''\<rparr>"


end
