(* ===== verification/KafkaOpts.thy ===== *)
theory KafkaOpts
  imports OAuth
begin

text \<open>
  \<open>Opts\<close> of \<open>src/internal/probe/kafkaconfig.go\<close>: the check of the configuration at startup and the
  options of the client.
\<close>

section \<open>Options\<close>

text \<open>
  The options the code builds. Those with a loader keep the configuration: a plain or SCRAM login
  calls \<open>credentials\<close> on it, an OAUTHBEARER login \<open>auth\<close> on its token source, and a TLS connection
  \<open>dialTLS\<close>.
\<close>

datatype Opt =
    SeedBrokers "string list"
  | SASL_Oauth tokenSource
  | SASL_Plain KafkaConfig
  | SASL_Sha256 KafkaConfig
  | SASL_Sha512 KafkaConfig
  | DialTLS KafkaConfig

text \<open>The login option, for a protocol with SASL.\<close>

definition sasl_mechanism :: "KafkaConfig \<Rightarrow> goerr + Opt" where
  "sasl_mechanism c =
     (let m = ToUpper (kc_SASLMechanism c)
      in if m = ''PLAIN'' then Inr (SASL_Plain c)
         else if m = ''SCRAM-SHA-256'' then Inr (SASL_Sha256 c)
         else if m = ''SCRAM-SHA-512'' then Inr (SASL_Sha512 c)
         else Inl (new_error (''kafka: unsupported SASL mechanism '' @ go_quote (kc_SASLMechanism c) @
                     '' (PLAIN, SCRAM-SHA-256, SCRAM-SHA-512, OAUTHBEARER)'')))"

definition sasl_opt :: "Host \<Rightarrow> KafkaConfig \<Rightarrow> string \<Rightarrow> goerr + Opt" where
  "sasl_opt h c protocol =
     (if EqualFold (kc_SASLMechanism c) ''OAUTHBEARER'' then
        (case validateOAuth h c of Some e \<Rightarrow> Inl e | None \<Rightarrow> Inr (SASL_Oauth (token_source c)))
      else
        let fromFiles = (kc_SASLUsernameFile c \<noteq> [] \<or> kc_SASLPasswordFile c \<noteq> [])
        in if \<not> fromFiles \<and> (kc_SASLUsername c = [] \<or> kc_SASLPassword c = [])
           then Inl (new_error (''kafka: '' @ protocol @ '' requires SASL username and password''))
           else case (if fromFiles then failure (credentials h c) else None) of
                  Some e \<Rightarrow> Inl e
                | None \<Rightarrow> sasl_mechanism c)"

definition protocol_of :: "KafkaConfig \<Rightarrow> string" where
  "protocol_of c = ToUpper (orDefault (kc_SecurityProtocol c) ''PLAINTEXT'')"

definition uses_TLS :: "KafkaConfig \<Rightarrow> bool" where
  "uses_TLS c \<longleftrightarrow> protocol_of c = ''SSL'' \<or> protocol_of c = ''SASL_SSL''"

definition uses_SASL :: "KafkaConfig \<Rightarrow> bool" where
  "uses_SASL c \<longleftrightarrow> protocol_of c = ''SASL_PLAINTEXT'' \<or> protocol_of c = ''SASL_SSL''"

definition Opts :: "Host \<Rightarrow> KafkaConfig \<Rightarrow> goerr + Opt list" where
  "Opts h c =
     (if kc_BootstrapServers c = [] then Inl (new_error ''kafka: bootstrap servers are required'')
      else if \<not> uses_TLS c \<and> \<not> uses_SASL c \<and> protocol_of c \<noteq> ''PLAINTEXT''
      then Inl (new_error (''kafka: unknown security protocol '' @ go_quote (kc_SecurityProtocol c)))
      else
        case (if uses_SASL c then map_sum id (\<lambda>o'. [SeedBrokers (kc_BootstrapServers c), o']) (sasl_opt h c (protocol_of c))
              else Inr [SeedBrokers (kc_BootstrapServers c)]) of
          Inl e \<Rightarrow> Inl e
        | Inr opts \<Rightarrow>
          if uses_TLS c
          then (case tls_config h c of Inl e \<Rightarrow> Inl e | Inr cfg \<Rightarrow> Inr (opts @ [DialTLS c]))
          else Inr opts)"

section \<open>What an accepted configuration means\<close>

text \<open>What the login option finds when it is used, on the files of that moment.\<close>

fun login_ready :: "Host \<Rightarrow> Opt \<Rightarrow> bool" where
  "login_ready h (SASL_Oauth s) \<longleftrightarrow> kc_OAuthTokenFile (ts_c s) \<noteq> [] \<longrightarrow> (\<exists>tok. readTrimmed h (kc_OAuthTokenFile (ts_c s)) ''token file'' = Inr tok)"
| "login_ready h (SASL_Plain c) \<longleftrightarrow> (\<exists>u p. credentials h c = Inr (u, p) \<and> u \<noteq> [] \<and> p \<noteq> [])"
| "login_ready h (SASL_Sha256 c) \<longleftrightarrow> (\<exists>u p. credentials h c = Inr (u, p) \<and> u \<noteq> [] \<and> p \<noteq> [])"
| "login_ready h (SASL_Sha512 c) \<longleftrightarrow> (\<exists>u p. credentials h c = Inr (u, p) \<and> u \<noteq> [] \<and> p \<noteq> [])"
| "login_ready h o' \<longleftrightarrow> False"

lemma credentials_nonempty: "credentials h c = Inr (u, p) \<Longrightarrow> u \<noteq> [] \<and> p \<noteq> []"
  by (auto simp: credentials_def split: sum.splits if_splits)

lemma credentials_configured:
  assumes "kc_SASLUsernameFile c = []" "kc_SASLPasswordFile c = []" "kc_SASLUsername c \<noteq> []" "kc_SASLPassword c \<noteq> []"
  shows "credentials h c = Inr (kc_SASLUsername c, kc_SASLPassword c)"
  using assms by (simp add: credentials_def credential_def)

lemma sasl_mechanism_ready:
  assumes "sasl_mechanism c = Inr o'" "\<exists>u p. credentials h c = Inr (u, p)"
  shows "login_ready h o'"
  using assms credentials_nonempty[of h c] by (fastforce simp: sasl_mechanism_def Let_def split: if_splits)

lemma sasl_opt_ready: "sasl_opt h c protocol = Inr o' \<Longrightarrow> login_ready h o'"
proof (cases "EqualFold (kc_SASLMechanism c) ''OAUTHBEARER''")
  case True
  assume "sasl_opt h c protocol = Inr o'"
  with True show ?thesis
    by (auto simp: sasl_opt_def validateOAuth_def token_source_def failure_def Let_def split: option.splits if_splits sum.splits)
next
  case False
  assume s: "sasl_opt h c protocol = Inr o'"
  have "\<exists>u p. credentials h c = Inr (u, p)"
    using s False credentials_configured[of c h]
    by (cases "credentials h c") (auto simp: sasl_opt_def failure_def Let_def split: if_splits option.splits)
  moreover from s False have "sasl_mechanism c = Inr o'" by (auto simp: sasl_opt_def Let_def split: if_splits option.splits)
  ultimately show ?thesis by (rule sasl_mechanism_ready[rotated])
qed


definition example_host :: Host where
  "example_host = \<lparr>h_ReadFile = (\<lambda>p. if p = ''/secret/user'' then Inr (''siesta'' @ [CHR 0x0A]) else Inr ''pw''),
     h_HasCerts = (\<lambda>pem. True), h_LoadX509KeyPair = (\<lambda>a b. Inr [])\<rparr>"

definition example_env :: "string \<Rightarrow> string" where
  "example_env v =
     (if v = ''KAFKA_BOOTSTRAP_SERVERS'' then ''kafka-0:9093, kafka-1:9093'' else if v = ''KAFKA_SECURITY_PROTOCOL'' then ''sasl_ssl''
      else if v = ''KAFKA_SASL_MECHANISM'' then ''scram-sha-512'' else if v = ''KAFKA_SASL_USERNAME_FILE'' then ''/secret/user''
      else if v = ''KAFKA_SASL_PASSWORD_FILE'' then ''/secret/password'' else [])"


end
