(* ===== verification/Cluster.thy ===== *)
theory Cluster
  imports Store
begin

text \<open>
  A small API server, as the concrete instance of the calls in \<^typ>\<open>'w Kube\<close> that the worked
  examples of the development run against: objects and ConfigMaps by key, optimistic
  concurrency on the resource version, merge patches. Properties never refer to it; they are
  stated for every server that keeps the contract they name.
\<close>

record Cluster =
  cl_Objects :: "(key, Object) gomap"
  cl_ConfigMaps :: "(key, ConfigMap) gomap"
  cl_Revision :: int

definition not_found :: goerr where
  "not_found = (new_error ''not found'')\<lparr>e_NotFound := True\<rparr>"

definition conflict :: goerr where
  "conflict = (new_error ''the object has been modified'')\<lparr>e_Conflict := True\<rparr>"

fun find_or :: "'a option \<Rightarrow> goerr + 'a" where
  "find_or None = Inl not_found"
| "find_or (Some x) = Inr x"

text \<open>A merge patch: null removes a key.\<close>

definition merge_annotations :: "(string, string option) gomap \<Rightarrow> (string, string) gomap \<Rightarrow> (string, string) gomap" where
  "merge_annotations ps m = fold (\<lambda>(k, v). case v of None \<Rightarrow> map_delete k | Some x \<Rightarrow> map_put k x) (rev ps) m"

definition merge_data :: "(string, string) gomap \<Rightarrow> (string, string) gomap \<Rightarrow> (string, string) gomap \<Rightarrow> (string, string) gomap" where
  "merge_data old new cur =
     filter (\<lambda>(k, v). map_of old k \<noteq> map_of new k) new @
     filter (\<lambda>(k, v). map_of old k = map_of new k) cur"

definition merge_spec :: "SpecPatch option \<Rightarrow> Object \<Rightarrow> Object" where
  "merge_spec p o' =
     (case p of None \<Rightarrow> o'
      | Some (JobState s) \<Rightarrow> o'\<lparr>u_NestedString := (u_NestedString o')(spec_job_state := s), u_Generation := u_Generation o' + 1\<rparr>
      | Some (RestartNonce n) \<Rightarrow> o'\<lparr>u_NestedInt64 := (u_NestedInt64 o')([''spec'', ''restartNonce''] := n), u_Generation := u_Generation o' + 1\<rparr>)"

definition cluster_obj :: "Cluster \<Rightarrow> key \<Rightarrow> Object option" where
  "cluster_obj c k = (case map_of (cl_Objects c) k of None \<Rightarrow> None | Some fd \<Rightarrow> if object_key fd = k then Some fd else None)"

definition cluster_patch :: "Cluster \<Rightarrow> Object \<Rightarrow> MergePatch \<Rightarrow> Cluster \<times> goerr option" where
  "cluster_patch c fd p =
     (case cluster_obj c (object_key fd) of
        None \<Rightarrow> (c, Some not_found)
      | Some o' \<Rightarrow>
          if mp_ResourceVersion p \<noteq> u_ResourceVersion o' then (c, Some conflict)
          else (c\<lparr>cl_Objects := map_put (object_key fd)
                   ((merge_spec (mp_Spec p) o')\<lparr>u_Annotations := merge_annotations (mp_Annotations p) (u_Annotations o'),
                                               u_ResourceVersion := FormatInt (cl_Revision c + 1)\<rparr>) (cl_Objects c),
                 cl_Revision := cl_Revision c + 1\<rparr>, None))"

definition cluster_cms :: "Cluster \<Rightarrow> key \<Rightarrow> ConfigMap option" where
  "cluster_cms c k = (case map_of (cl_ConfigMaps c) k of None \<Rightarrow> None | Some cm \<Rightarrow> if cm_key cm = k then Some cm else None)"

definition cluster :: "Cluster Kube" where
  "cluster =
     \<lparr>k_Get = (\<lambda>c k. (c, find_or (cluster_obj c k))),
      k_Read = (\<lambda>c k. (c, find_or (cluster_obj c k))),
      k_Patch = cluster_patch,
      k_ReadCM = (\<lambda>c k. (c, find_or (cluster_cms c k))),
      k_CreateCM = (\<lambda>c cm. if cluster_cms c (cm_key cm) \<noteq> None then (c, Inl (new_error ''already exists''))
                           else (c\<lparr>cl_ConfigMaps := map_put (cm_key cm) cm (cl_ConfigMaps c)\<rparr>, Inr cm)),
      k_PatchCM = (\<lambda>c old new.
         case cluster_cms c (cm_key new) of
           None \<Rightarrow> (c, Inl not_found)
         | Some cur \<Rightarrow>
             let res = cur\<lparr>cm_Data := merge_data (cm_Data old) (cm_Data new) (cm_Data cur)\<rparr>
             in (c\<lparr>cl_ConfigMaps := map_put (cm_key new) res (cl_ConfigMaps c)\<rparr>, Inr res)),
      k_DeleteCM = (\<lambda>c k. if cluster_cms c k \<noteq> None
                          then (c\<lparr>cl_ConfigMaps := map_delete k (cl_ConfigMaps c)\<rparr>, None)
                          else (c, Some not_found))\<rparr>"

lemma find_or_iff [simp]:
  "find_or r = Inr x \<longleftrightarrow> r = Some x" "find_or r = Inl e \<longleftrightarrow> r = None \<and> e = not_found"
  "Inr x = find_or r \<longleftrightarrow> r = Some x" "Inl e = find_or r \<longleftrightarrow> r = None \<and> e = not_found"
  by (cases r; auto)+

lemma map_of_merge_data:
  "map_of (merge_data old new cur) k = (if map_of old k = map_of new k then map_of cur k else map_of new k)"
proof -
  have f: "map_of (filter (\<lambda>(k, v). P k) m) k = (if P k then map_of m k else None)" for P m
    by (induction m) auto
  show ?thesis by (auto simp: merge_data_def map_add_def f split: option.split)
qed

end
