(* ===== verification/StoreProps.thy ===== *)
theory StoreProps
  imports Store Cluster
begin

text \<open>
  What the store promises, for a server that keeps ConfigMaps as the API documents: a save that
  reports success leaves the memory readable under the deployment's name, a failed one leaves
  the old memory, and the cache of the last version read never leads to a lost write.
\<close>

section \<open>The contract of the server\<close>

text \<open>
  A merge patch computed between two versions changes the keys in which they differ, and no
  other key, of the version the server has.
\<close>

definition patched :: "ConfigMap \<Rightarrow> (string, string) gomap \<Rightarrow> ConfigMap \<Rightarrow> ConfigMap \<Rightarrow> bool" where
  "patched old data cur res \<longleftrightarrow>
     cm_key res = cm_key cur \<and> cm_Owners res = cm_Owners cur \<and>
     (\<forall>x. map_of (cm_Data res) x =
        (if map_of (cm_Data old) x = map_of data x then map_of (cm_Data cur) x else map_of data x))"

text \<open>
  \<open>cms\<close> is the content of the server. A failed call changes nothing, not-found means there is
  none, and every object is filed under its own key.
\<close>

definition reads_cm :: "'w Kube \<Rightarrow> ('w \<Rightarrow> key \<Rightarrow> ConfigMap option) \<Rightarrow> key \<Rightarrow> bool" where
  "reads_cm kube cms k \<longleftrightarrow>
     (\<forall>w w' r. k_ReadCM kube w k = (w', r) \<longrightarrow> cms w' k = cms w k \<and>
        (\<forall>cm. r = Inr cm \<longrightarrow> cms w k = Some cm) \<and> (\<forall>e. r = Inl e \<and> e_NotFound e \<longrightarrow> cms w k = None))"

definition creates_cm :: "'w Kube \<Rightarrow> ('w \<Rightarrow> key \<Rightarrow> ConfigMap option) \<Rightarrow> key \<Rightarrow> bool" where
  "creates_cm kube cms k \<longleftrightarrow>
     (\<forall>w w' r cm. k_CreateCM kube w cm = (w', r) \<and> cm_key cm = k \<longrightarrow>
        (\<forall>res. r = Inr res \<longrightarrow> cms w' k = Some res \<and> cm_key res = k \<and> cm_Owners res = cm_Owners cm \<and> cm_Data res = cm_Data cm) \<and>
        (\<forall>e. r = Inl e \<longrightarrow> cms w' k = cms w k))"

definition patches_cm :: "'w Kube \<Rightarrow> ('w \<Rightarrow> key \<Rightarrow> ConfigMap option) \<Rightarrow> key \<Rightarrow> bool" where
  "patches_cm kube cms k \<longleftrightarrow>
     (\<forall>w w' r old data. k_PatchCM kube w old (old\<lparr>cm_Data := data\<rparr>) = (w', r) \<and> cm_key old = k \<longrightarrow>
        (\<forall>res. r = Inr res \<longrightarrow> cms w' k = Some res \<and> (\<exists>cur. cms w k = Some cur \<and> patched old data cur res)) \<and>
        (\<forall>e. r = Inl e \<longrightarrow> cms w' k = cms w k))"

definition deletes_cm :: "'w Kube \<Rightarrow> ('w \<Rightarrow> key \<Rightarrow> ConfigMap option) \<Rightarrow> key \<Rightarrow> bool" where
  "deletes_cm kube cms k \<longleftrightarrow>
     (\<forall>w w' err. k_DeleteCM kube w k = (w', err) \<longrightarrow> cms w' k = (if IgnoreNotFound err = None then None else cms w k))"

definition serves :: "'w Kube \<Rightarrow> ('w \<Rightarrow> key \<Rightarrow> ConfigMap option) \<Rightarrow> key \<Rightarrow> bool" where
  "serves kube cms k \<longleftrightarrow>
     reads_cm kube cms k \<and> creates_cm kube cms k \<and> patches_cm kube cms k \<and> deletes_cm kube cms k \<and>
     (\<forall>w cm. cms w k = Some cm \<longrightarrow> cm_key cm = k)"

lemma serves_read:
  assumes "serves kube cms k" and "k_ReadCM kube w k = (w', r)"
  shows "cms w' k = cms w k" and "r = Inr cm \<Longrightarrow> cms w k = Some cm"
    and "r = Inl e \<Longrightarrow> e_NotFound e \<Longrightarrow> cms w k = None"
  using assms unfolding serves_def reads_cm_def by blast+

lemma serves_create:
  assumes "serves kube cms k" and "k_CreateCM kube w cm = (w', r)" and "cm_key cm = k"
  shows "r = Inr res \<Longrightarrow> cms w' k = Some res \<and> cm_key res = k \<and> cm_Owners res = cm_Owners cm \<and> cm_Data res = cm_Data cm"
    and "r = Inl e \<Longrightarrow> cms w' k = cms w k"
  using assms unfolding serves_def creates_cm_def by blast+

lemma serves_patch:
  assumes "serves kube cms k" and "k_PatchCM kube w old (old\<lparr>cm_Data := data\<rparr>) = (w', r)" and "cm_key old = k"
  shows "r = Inr res \<Longrightarrow> cms w' k = Some res \<and> (\<exists>cur. cms w k = Some cur \<and> patched old data cur res)"
    and "r = Inl e \<Longrightarrow> cms w' k = cms w k"
  using assms unfolding serves_def patches_cm_def by blast+

lemma serves_delete:
  assumes "serves kube cms k" and "k_DeleteCM kube w k = (w', err)"
  shows "cms w' k = (if IgnoreNotFound err = None then None else cms w k)"
  using assms unfolding serves_def deletes_cm_def by blast

lemma serves_key: "serves kube cms k \<Longrightarrow> cms w k = Some cm \<Longrightarrow> cm_key cm = k"
  unfolding serves_def by blast

lemma patched_same:
  "patched cur data cur res \<Longrightarrow> maps_equal (cm_Data res) data \<and> cm_Owners res = cm_Owners cur \<and> cm_key res = cm_key cur"
  unfolding patched_def maps_equal_iff by (auto intro!: ext)

section \<open>The cache and the server\<close>

text \<open>What is cached for the deployment is what the server has, unless someone deleted it since.\<close>

definition coherent :: "('w \<Rightarrow> key \<Rightarrow> ConfigMap option) \<Rightarrow> bool \<Rightarrow> key \<Rightarrow> ('w, 'm) StoreState_scheme \<Rightarrow> bool" where
  "coherent cms on k ss \<longleftrightarrow>
     (\<forall>cm. seen_get on k ss = Some cm \<longrightarrow> cm_key cm = k \<and> cms (ss_world ss) k \<in> {Some cm, None})"

definition holds_data :: "Object \<Rightarrow> (string, string) gomap \<Rightarrow> ConfigMap option \<Rightarrow> bool" where
  "holds_data fd data r \<longleftrightarrow> (\<exists>cm. r = Some cm \<and> ownedBy cm fd \<and> maps_equal (cm_Data cm) data)"

lemma seen_get_put [simp]: "seen_get on k (seen_put on cm ss) = (if on \<and> k = cm_key cm then Some cm else seen_get on k ss)"
  by (auto simp: seen_get_def seen_put_def gm.get_put simp del: map_of_put)

lemma seen_get_drop [simp]: "seen_get on k' (seen_drop on k ss) = (if k' = k then None else seen_get on k' ss)"
  by (auto simp: seen_get_def seen_drop_def gm.get_remove simp del: map_of_delete)

lemma seen_get_off [simp]: "seen_get False k ss = None"
  by (simp add: seen_get_def)

lemma seen_get_world [simp]: "seen_get on k (ss\<lparr>ss_world := w\<rparr>) = seen_get on k ss"
  by (simp add: seen_get_def)

lemma ss_world_seen [simp]:
  "ss_world (seen_put on cm ss) = ss_world ss" "ss_world (seen_drop on k ss) = ss_world ss"
  by (simp_all add: seen_put_def seen_drop_def)

lemma new_configmap_sel [simp]:
  "cm_key (new_configmap fd data) = store_key fd" "cm_Data (new_configmap fd data) = data"
  "ownedBy (new_configmap fd data) fd"
  by (simp_all add: new_configmap_def store_key_def ownedBy_def)

lemma ownedBy_cong: "cm_Owners a = cm_Owners b \<Longrightarrow> ownedBy a fd = ownedBy b fd"
  by (simp add: ownedBy_def)

section \<open>The two halves of a save\<close>

lemma save_seen_ok:
  assumes "serves kube cms (store_key fd)" and "coherent cms on (store_key fd) ss"
    and "save_seen kube on fd data ss = (ss', early)"
  shows "coherent cms on (store_key fd) ss'"
    and "early = None \<Longrightarrow> cms (ss_world ss') (store_key fd) = cms (ss_world ss) (store_key fd)"
    and "early = Some (Some e) \<Longrightarrow> cms (ss_world ss') (store_key fd) = cms (ss_world ss) (store_key fd)"
    and "early = Some None \<Longrightarrow> holds_data fd data (cms (ss_world ss') (store_key fd)) \<or>
           cms (ss_world ss') (store_key fd) = None \<and> cms (ss_world ss) (store_key fd) = None \<and>
           (\<exists>cm. seen_get on (store_key fd) ss = Some cm)"
proof -
  let ?k = "store_key fd"
  note S = assms(3)[unfolded save_seen_def]
  have "coherent cms on ?k ss' \<and> (early = None \<or> (\<exists>e. early = Some (Some e)) \<longrightarrow> cms (ss_world ss') ?k = cms (ss_world ss) ?k) \<and>
    (early = Some None \<longrightarrow> holds_data fd data (cms (ss_world ss') ?k) \<or>
       cms (ss_world ss') ?k = None \<and> cms (ss_world ss) ?k = None \<and> (\<exists>cm. seen_get on ?k ss = Some cm))"
  proof (cases "seen_get on ?k ss")
    case None
    with S assms(2) show ?thesis by (simp split: prod.splits)
  next
    case (Some cm)
    with assms(2) have k: "cm_key cm = ?k" and c: "cms (ss_world ss) ?k \<in> {Some cm, None}" by (auto simp: coherent_def)
    show ?thesis
    proof (cases "ownedBy cm fd \<and> \<not> maps_equal (cm_Data cm) data")
      case False
      with S Some c assms(2) show ?thesis by (auto simp: holds_data_def split: if_splits)
    next
      case True
      obtain w r where p: "k_PatchCM kube (ss_world ss) cm (cm\<lparr>cm_Data := data\<rparr>) = (w, r)" by (rule prod.exhaust)
      show ?thesis
      proof (cases r)
        case (Inl e)
        with p True S Some have "(if e_NotFound e then (seen_drop on ?k (ss\<lparr>ss_world := w\<rparr>), None)
             else (ss\<lparr>ss_world := w\<rparr>, Some (Some (wrap_error ''save state'' e)))) = (ss', early)"
          by (simp add: Let_def split: if_splits)
        moreover have "cms w ?k = cms (ss_world ss) ?k" using serves_patch(2)[OF assms(1) p k] Inl by blast
        ultimately show ?thesis using assms(2) by (auto simp: coherent_def split: if_splits)
      next
        case (Inr res)
        with p True S Some have s: "ss' = seen_put on res (ss\<lparr>ss_world := w\<rparr>)" "early = Some None"
          by (simp_all add: Let_def)
        from serves_patch(1)[OF assms(1) p k Inr] c have "cms w ?k = Some res" "patched cm data cm res" by auto
        with patched_same[of cm data res] k s True Some show ?thesis
          by (auto simp: coherent_def holds_data_def ownedBy_cong[of res cm])
      qed
    qed
  qed
  then show "coherent cms on ?k ss'"
    and "early = None \<Longrightarrow> cms (ss_world ss') ?k = cms (ss_world ss) ?k"
    and "early = Some (Some e) \<Longrightarrow> cms (ss_world ss') ?k = cms (ss_world ss) ?k"
    and "early = Some None \<Longrightarrow> holds_data fd data (cms (ss_world ss') ?k) \<or>
           cms (ss_world ss') ?k = None \<and> cms (ss_world ss) ?k = None \<and> (\<exists>cm. seen_get on ?k ss = Some cm)"
    by blast+
qed

text \<open>The second half: what was there stays, is removed as another deployment's, or is replaced.\<close>

definition not_ours :: "Object \<Rightarrow> ConfigMap option \<Rightarrow> bool" where
  "not_ours fd r \<longleftrightarrow> (\<exists>cm. r = Some cm \<and> \<not> ownedBy cm fd)"

lemma save_read_ok:
  assumes "serves kube cms (store_key fd)" and "coherent cms on (store_key fd) ss"
    and "save_read kube on fd data ss = (ss', n)"
  shows "coherent cms on (store_key fd) ss' \<and>
     (case n of
        Returned None \<Rightarrow> holds_data fd data (cms (ss_world ss') (store_key fd))
      | Returned (Some e) \<Rightarrow> cms (ss_world ss') (store_key fd) = cms (ss_world ss) (store_key fd)
      | SaveAgain \<Rightarrow> not_ours fd (cms (ss_world ss) (store_key fd)) \<and> cms (ss_world ss') (store_key fd) = None)"
proof -
  let ?k = "store_key fd"
  obtain w r where rd: "k_ReadCM kube (ss_world ss) ?k = (w, r)" by (rule prod.exhaust)
  note read = serves_read[OF assms(1) rd]
  let ?ss1 = "ss\<lparr>ss_world := w\<rparr>"
  have coh: "coherent cms on ?k ?ss1" using assms(2) read(1) by (simp add: coherent_def)
  note S = assms(3)[unfolded save_read_def rd]
  show ?thesis
  proof (cases r)
    case (Inl e)
    show ?thesis
    proof (cases "e_NotFound e")
      case False
      with S Inl coh read(1) show ?thesis by (auto split: save_next.splits option.splits)
    next
      case True
      obtain w2 r2 where cr: "k_CreateCM kube w (new_configmap fd data) = (w2, r2)" by (rule prod.exhaust)
      note create = serves_create[OF assms(1) cr new_configmap_sel(1)]
      show ?thesis
      proof (cases r2)
        case (Inl e2)
        with S \<open>r = Inl e\<close> True cr coh read(1) create(2)[OF Inl] show ?thesis by (auto simp: coherent_def)
      next
        case (Inr cm)
        with S \<open>r = Inl e\<close> True cr create(1)[OF Inr] show ?thesis
          by (auto simp: coherent_def holds_data_def ownedBy_cong[of cm "new_configmap fd data"] split: if_splits)
      qed
    qed
  next
    case (Inr cm)
    have cm: "cms (ss_world ss) ?k = Some cm" using read(2) Inr by blast
    then have k: "cm_key cm = ?k" by (rule serves_key[OF assms(1)])
    consider (stale) "\<not> ownedBy cm fd" | (same) "ownedBy cm fd" "maps_equal (cm_Data cm) data"
      | (new) "ownedBy cm fd" "\<not> maps_equal (cm_Data cm) data" by blast
    then show ?thesis
    proof cases
      case stale
      obtain w2 err where del: "k_DeleteCM kube w ?k = (w2, err)" by (rule prod.exhaust)
      note gone = serves_delete[OF assms(1) del]
      show ?thesis
      proof (cases "IgnoreNotFound err")
        case None
        with S Inr stale k del gone cm coh show ?thesis by (auto simp: not_ours_def coherent_def)
      next
        case (Some e)
        with S Inr stale k del gone coh read(1) show ?thesis by (auto simp: coherent_def)
      qed
    next
      case same
      with S Inr cm coh read(1) show ?thesis by (auto simp: holds_data_def)
    next
      case new
      obtain w2 r2 where pa: "k_PatchCM kube w cm (cm\<lparr>cm_Data := data\<rparr>) = (w2, r2)" by (rule prod.exhaust)
      note patch = serves_patch[OF assms(1) pa k]
      show ?thesis
      proof (cases r2)
        case (Inl e2)
        with S Inr new pa coh read(1) patch(2)[OF Inl] show ?thesis by (auto simp: coherent_def)
      next
        case (Inr res)
        from patch(1)[OF this] cm read(1) have "cms w2 ?k = Some res" "patched cm data cm res" by auto
        with S \<open>r = Inr cm\<close> Inr new pa k patched_same[of cm data res] show ?thesis
          by (auto simp: coherent_def holds_data_def ownedBy_cong[of res cm] split: if_splits)
      qed
    qed
  qed
qed

section \<open>Save and Load\<close>

text \<open>After a save that had to read, the cache has nothing it would write from again.\<close>

definition unused :: "bool \<Rightarrow> Object \<Rightarrow> ('w, 'm) StoreState_scheme \<Rightarrow> bool" where
  "unused on fd ss \<longleftrightarrow> (\<forall>cm. seen_get on (store_key fd) ss = Some cm \<longrightarrow> \<not> ownedBy cm fd)"

lemma save_seen_skip: "unused on fd ss \<Longrightarrow> save_seen kube on fd data ss = (ss, None)"
  by (auto simp: save_seen_def unused_def split: option.split)

lemma save_seen_unused: "save_seen kube on fd data ss = (ss', None) \<Longrightarrow> unused on fd ss'"
  by (auto simp: save_seen_def unused_def Let_def split: option.splits if_splits prod.splits sum.splits)

lemma save_read_again_unused:
  "save_read kube on fd data ss = (ss', SaveAgain) \<Longrightarrow> unused on fd ss \<Longrightarrow> unused on fd ss'"
  by (auto simp: save_read_def unused_def Let_def split: option.splits if_splits prod.splits sum.splits)

text \<open>What the outcome of a save means for the server.\<close>

definition save_outcome ::
  "('w \<Rightarrow> key \<Rightarrow> ConfigMap option) \<Rightarrow> Object \<Rightarrow> (string, string) gomap \<Rightarrow> 'w \<Rightarrow> 'w \<Rightarrow> goerr option \<Rightarrow> bool" where
  "save_outcome cms fd data w w' err \<longleftrightarrow>
     (case err of
        None \<Rightarrow> holds_data fd data (cms w' (store_key fd))
      | Some e \<Rightarrow> cms w' (store_key fd) = cms w (store_key fd) \<or>
                  not_ours fd (cms w (store_key fd)) \<and> cms w' (store_key fd) = None)"

lemma Save_unused:
  assumes "serves kube cms (store_key fd)" and "coherent cms on (store_key fd) ss" and "unused on fd ss"
  shows "\<exists>ss' err. Save kube on fd st ss = Some (ss', err) \<and> coherent cms on (store_key fd) ss' \<and>
     save_outcome cms fd (Data st) (ss_world ss) (ss_world ss') err"
proof -
  let ?k = "store_key fd"
  note step = Save.simps[of kube on fd st] save_seen_skip
  obtain ss1 n where r: "save_read kube on fd (Data st) ss = (ss1, n)" by (rule prod.exhaust)
  note ok = save_read_ok[OF assms(1,2) r]
  show ?thesis
  proof (cases n)
    case (Returned err)
    with r ok show ?thesis
      by (subst step(1)) (auto simp: step(2)[OF assms(3)] save_outcome_def split: option.splits)
  next
    case SaveAgain
    then have u: "unused on fd ss1" and c: "coherent cms on ?k ss1" and g: "cms (ss_world ss1) ?k = None"
      and old: "not_ours fd (cms (ss_world ss) ?k)"
      using r ok save_read_again_unused assms(3) by auto
    obtain ss2 n2 where r2: "save_read kube on fd (Data st) ss1 = (ss2, n2)" by (rule prod.exhaust)
    note ok2 = save_read_ok[OF assms(1) c r2]
    then obtain err where n2: "n2 = Returned err" using g by (cases n2) (auto simp: not_ours_def)
    have "Save kube on fd st ss1 = Some (ss2, err)"
      by (subst step(1)) (simp add: step(2)[OF u] r2 n2)
    then have "Save kube on fd st ss = Some (ss2, err)"
      using r SaveAgain by (subst step(1)) (simp add: step(2)[OF assms(3)])
    then show ?thesis using ok2 n2 g old by (auto simp: save_outcome_def split: option.splits)
  qed
qed

lemma Save_ok:
  assumes "serves kube cms (store_key fd)" and "coherent cms on (store_key fd) ss"
  shows "\<exists>ss' err. Save kube on fd st ss = Some (ss', err) \<and> coherent cms on (store_key fd) ss' \<and>
     (save_outcome cms fd (Data st) (ss_world ss) (ss_world ss') err \<or>
      err = None \<and> cms (ss_world ss) (store_key fd) = None \<and> seen_get on (store_key fd) ss \<noteq> None)"
proof -
  obtain ss1 early where s: "save_seen kube on fd (Data st) ss = (ss1, early)" by (rule prod.exhaust)
  note ok = save_seen_ok[OF assms s]
  show ?thesis
  proof (cases early)
    case (Some err)
    with s ok show ?thesis
      by (subst Save.simps, cases err) (auto simp: save_outcome_def)
  next
    case None
    then have u: "unused on fd ss1" and w: "cms (ss_world ss1) (store_key fd) = cms (ss_world ss) (store_key fd)"
      using s ok(2) save_seen_unused by auto
    from Save_unused[OF assms(1) ok(1) u, of st] obtain ss' err where
      S: "Save kube on fd st ss1 = Some (ss', err)" and c: "coherent cms on (store_key fd) ss'"
      and o: "save_outcome cms fd (Data st) (ss_world ss1) (ss_world ss') err" by blast
    have "Save kube on fd st ss = Save kube on fd st ss1"
      by (subst (1 2) Save.simps) (simp add: s None save_seen_skip[OF u])
    with S c o w show ?thesis by (auto simp: save_outcome_def split: option.splits)
  qed
qed

lemma FromData_cong:
  assumes "maps_equal d d'"
  shows "FromData d = FromData d'"
proof -
  have e: "map_of d = map_of d'" using assms by (simp add: maps_equal_iff)
  then have g: "get_str d = get_str d'" by (simp add: fun_eq_iff get_str_def)
  show ?thesis unfolding FromData_def read_clocks_def g e ..
qed

section \<open>The encodings\<close>

text \<open>
  The interface of an encoding: what is written can be read back, up to what the encoding
  cuts off (\<open>norm\<close>) and what counts as the same value (\<open>eq\<close>).
\<close>

locale codec =
  fixes enc :: "'s \<Rightarrow> 'd" and dec :: "'d \<Rightarrow> 's option" and norm :: "'s \<Rightarrow> 's"
    and ok :: "'s \<Rightarrow> bool" and eq :: "'s \<Rightarrow> 's \<Rightarrow> bool"
  assumes roundtrip: "ok s \<Longrightarrow> \<exists>s'. dec (enc s) = Some s' \<and> eq s' (norm s)"
    and eq_sym: "eq s t \<Longrightarrow> eq t s"
    and eq_trans: "eq s t \<Longrightarrow> eq t u \<Longrightarrow> eq s u"
begin

lemma decoded: "ok s \<Longrightarrow> dec (enc s) = Some s' \<Longrightarrow> eq s' (norm s)"
  using roundtrip by fastforce

lemma readable: "ok s \<Longrightarrow> dec (enc s) \<noteq> None"
  using roundtrip by fastforce

text \<open>Equal texts come from equal values: comparing what would be written loses no change.\<close>

lemma enc_separates: "ok s \<Longrightarrow> ok t \<Longrightarrow> dec (enc s) = dec (enc t) \<Longrightarrow> eq (norm s) (norm t)"
  using roundtrip eq_sym eq_trans by (metis option.inject)

end

interpretation clock: codec formatTime parseTime whole_second printable "(=)"
  by unfold_locales (simp_all add: parseTime_formatTime)

interpretation budget: codec marshal_budget unmarshal_budget id budget_storable "(=)"
  by unfold_locales (simp_all add: unmarshal_marshal_budget)

text \<open>The same memory: equal but for the order in which the offsets are listed.\<close>

definition same_memory :: "State \<Rightarrow> State \<Rightarrow> bool" where
  "same_memory s t \<longleftrightarrow> maps_equal (s_Snapshot s) (s_Snapshot t) \<and> s\<lparr>s_Snapshot := []\<rparr> = t\<lparr>s_Snapshot := []\<rparr>"

interpretation memory: codec Data FromData stored storable same_memory
proof
  fix s assume "storable s"
  then obtain m where "FromData (Data s) = Some ((stored s)\<lparr>s_Snapshot := m\<rparr>)" "map_of m = map_of (s_Snapshot s)"
    by (rule FromData_of_Data)
  then show "\<exists>s'. FromData (Data s) = Some s' \<and> same_memory s' (stored s)"
    by (auto simp: same_memory_def maps_equal_iff stored_def)
qed (auto simp: same_memory_def maps_equal_iff)

section \<open>The contract of the store\<close>

text \<open>What a load gives for the content of the server.\<close>

definition loaded :: "Object \<Rightarrow> ConfigMap option \<Rightarrow> State option" where
  "loaded fd r = (case r of None \<Rightarrow> None | Some cm \<Rightarrow> if ownedBy cm fd then FromData (cm_Data cm) else None)"

lemma loaded_holds: "holds_data fd data r \<Longrightarrow> loaded fd r = FromData data"
  using FromData_cong by (auto simp: loaded_def holds_data_def)

lemma Load_reads:
  assumes "serves kube cms (store_key fd)" and "Load kube on fd ss = (ss', Inr r)"
  shows "r = loaded fd (cms (ss_world ss) (store_key fd)) \<and>
     cms (ss_world ss') (store_key fd) = cms (ss_world ss) (store_key fd) \<and>
     coherent cms on (store_key fd) ss' \<and>
     (on \<longrightarrow> seen_get on (store_key fd) ss' = cms (ss_world ss) (store_key fd))"
proof -
  let ?k = "store_key fd"
  obtain w res where rd: "k_ReadCM kube (ss_world ss) ?k = (w, res)" by (rule prod.exhaust)
  note read = serves_read[OF assms(1) rd]
  show ?thesis
  proof (cases res)
    case (Inl e)
    with assms(2) rd have n: "e_NotFound e" and s: "ss' = seen_drop on ?k (ss\<lparr>ss_world := w\<rparr>)" and r: "r = None"
      by (auto simp: Load_def Let_def split: if_splits)
    with read(3)[OF Inl n] read(1) show ?thesis by (auto simp: loaded_def coherent_def)
  next
    case (Inr cm)
    with assms(2) rd have s: "ss' = seen_put on cm (ss\<lparr>ss_world := w\<rparr>)"
      and r: "r = (if ownedBy cm fd then FromData (cm_Data cm) else None)"
      by (auto simp: Load_def Let_def split: if_splits)
    from read(2)[OF Inr] serves_key[OF assms(1)] have "cms (ss_world ss) ?k = Some cm" "cm_key cm = ?k" by blast+
    with s r read(1) show ?thesis by (cases on) (auto simp: loaded_def coherent_def)
  qed
qed

text \<open>
  C35. A load reads the server. For a server that keeps its contract, a load that succeeds
  returns the memory of the ConfigMap under the deployment's name if it is owned by this very
  deployment and readable, and no memory otherwise: a ConfigMap left by a dead deployment of
  the same name never becomes the memory of the new one. Afterwards the cache holds exactly
  what the server has, and the server is unchanged.
\<close>

theorem Load_exact:
  assumes "serves kube cms (store_key fd)" and "Load kube on fd ss = (ss', Inr r)"
  shows "r = loaded fd (cms (ss_world ss) (store_key fd)) \<and>
     cms (ss_world ss') (store_key fd) = cms (ss_world ss) (store_key fd) \<and>
     coherent cms on (store_key fd) ss' \<and>
     (on \<longrightarrow> seen_get on (store_key fd) ss' = cms (ss_world ss) (store_key fd))"
  using assms by (rule Load_reads)

text \<open>
  A save always returns. For a server that keeps its contract, and whatever the cache
  holds, \<open>Save\<close> ends: it calls itself only after it removed the ConfigMap of a dead deployment,
  and then finds none.
\<close>

lemma Save_returns:
  assumes "serves kube cms (store_key fd)" and "coherent cms on (store_key fd) ss"
  shows "\<exists>ss' err. Save kube on fd st ss = Some (ss', err) \<and> coherent cms on (store_key fd) ss'"
  using Save_ok[OF assms] by blast

text \<open>
  C8. A save refines writing one cell. Let the cell be what a load would return. When the
  cache does not hold a ConfigMap the server has lost since, a save that reports success
  sets the cell to the memory it was given, and a save that reports an error leaves the cell:
  the cached fast path, the create, the replacement of a stale ConfigMap and the patch are
  all the same operation.
\<close>

theorem Save_refines_write:
  assumes "serves kube cms (store_key fd)" and "coherent cms on (store_key fd) ss"
    and "seen_get on (store_key fd) ss = None \<or> cms (ss_world ss) (store_key fd) \<noteq> None"
    and "Save kube on fd st ss = Some (ss', err)"
  shows "loaded fd (cms (ss_world ss') (store_key fd)) =
     (if err = None then FromData (Data st) else loaded fd (cms (ss_world ss) (store_key fd)))"
  using Save_ok[OF assms(1,2), of st] assms(3,4)
  by (auto simp: save_outcome_def not_ours_def loaded_def split: option.splits dest!: loaded_holds)

text \<open>
  C18. Memory survives a save and a load, also in another process. After a save that reported
  success, a later load with an empty cache that can read the server returns the memory that
  was saved, with its clocks cut to the second.
\<close>

theorem Save_then_Load:
  assumes "serves kube cms (store_key fd)" and "coherent cms on (store_key fd) ss"
    and "seen_get on (store_key fd) ss = None \<or> cms (ss_world ss) (store_key fd) \<noteq> None"
    and "Save kube on fd st ss = Some (ss', None)" and "storable st"
    and "Load kube on' fd \<lparr>ss_world = ss_world ss', ss_seen = []\<rparr> = (ss'', Inr r)"
  shows "\<exists>s'. r = Some s' \<and> same_memory s' (stored st)"
proof -
  have "holds_data fd (Data st) (cms (ss_world ss') (store_key fd))"
    using Save_ok[OF assms(1,2), of st] assms(3,4) by (auto simp: save_outcome_def)
  then have "loaded fd (cms (ss_world ss') (store_key fd)) = FromData (Data st)" by (rule loaded_holds)
  moreover have "r = loaded fd (cms (ss_world ss') (store_key fd))"
    using Load_reads[OF assms(1,6)] by simp
  ultimately show ?thesis using memory.roundtrip[OF assms(5)] by auto
qed

section \<open>Worked examples\<close>

text \<open>The small API server keeps the contract.\<close>

lemma cluster_cms_key: "cluster_cms c k = Some cm \<Longrightarrow> cm_key cm = k"
  by (auto simp: cluster_cms_def split: option.splits if_splits)

lemma serves_cluster: "serves cluster cluster_cms k"
proof -
  have "reads_cm cluster cluster_cms k"
    by (auto simp: reads_cm_def cluster_def find_or_iff)
  moreover have "creates_cm cluster cluster_cms k"
    by (auto simp: creates_cm_def cluster_def cluster_cms_def split: if_splits)
  moreover have "patches_cm cluster cluster_cms k"
    unfolding patches_cm_def
  proof (intro allI impI, elim conjE)
    fix w w' r old data
    assume p: "k_PatchCM cluster w old (old\<lparr>cm_Data := data\<rparr>) = (w', r)" and k: "cm_key old = k"
    show "(\<forall>res. r = Inr res \<longrightarrow> cluster_cms w' k = Some res \<and> (\<exists>cur. cluster_cms w k = Some cur \<and> patched old data cur res)) \<and>
      (\<forall>e. r = Inl e \<longrightarrow> cluster_cms w' k = cluster_cms w k)"
    proof (cases "cluster_cms w k")
      case None
      with p k show ?thesis by (auto simp: cluster_def)
    next
      case (Some cur)
      then have "cm_key cur = k" by (rule cluster_cms_key)
      moreover from p k Some have "w' = w\<lparr>cl_ConfigMaps := map_put k (cur\<lparr>cm_Data := merge_data (cm_Data old) data (cm_Data cur)\<rparr>) (cl_ConfigMaps w)\<rparr>"
        "r = Inr (cur\<lparr>cm_Data := merge_data (cm_Data old) data (cm_Data cur)\<rparr>)" by (auto simp: cluster_def Let_def)
      ultimately show ?thesis using Some by (auto simp: patched_def map_of_merge_data cluster_cms_def)
    qed
  qed
  moreover have "deletes_cm cluster cluster_cms k"
    by (auto simp: deletes_cm_def cluster_def cluster_cms_def IgnoreNotFound_def not_found_def split: if_splits option.splits)
  ultimately show ?thesis using cluster_cms_key by (simp add: serves_def)
qed

text \<open>
  The example: a new deployment \<open>orders\<close> whose predecessor of the same name left a ConfigMap. A
  process without memory saves over it, and another process loads.
\<close>

definition stale_configmap :: ConfigMap where
  "stale_configmap = new_configmap (orders_object\<lparr>u_UID := ''u-0''\<rparr>) [(''state'', ''suspended'')]"

definition stale_cluster :: Cluster where
  "stale_cluster = \<lparr>cl_Objects = [((''flink'', ''orders''), orders_object)],
     cl_ConfigMaps = [((''flink'', ''siesta-orders''), stale_configmap)], cl_Revision = 7\<rparr>"

abbreviation fresh_process :: "'w \<Rightarrow> 'w StoreState" where
  "fresh_process w \<equiv> \<lparr>ss_world = w, ss_seen = []\<rparr>"

abbreviation saved_cluster :: "State \<Rightarrow> Cluster" where
  "saved_cluster st \<equiv> stale_cluster\<lparr>cl_ConfigMaps := [((''flink'', ''siesta-orders''), new_configmap orders_object (Data st))]\<rparr>"

lemma orders_key [simp]: "store_key orders_object = (''flink'', ''siesta-orders'')"
  by (simp add: store_key_def Name_def orders_object_def)

lemma stale_not_owned [simp]: "\<not> ownedBy stale_configmap orders_object"
  by (simp add: ownedBy_def stale_configmap_def new_configmap_def orders_object_def)

lemma stale_cluster_cms: "cluster_cms stale_cluster (''flink'', ''siesta-orders'') = Some stale_configmap"
  by (simp add: cluster_cms_def stale_cluster_def stale_configmap_def new_configmap_def Name_def orders_object_def)

lemma fresh_coherent [simp]: "coherent cms on k (fresh_process w)" "seen_get on k (fresh_process w) = None"
  by (simp_all add: coherent_def seen_get_def)

lemma stale_saved:
  "Save cluster True orders_object st (fresh_process stale_cluster) =
     Some (seen_put True (new_configmap orders_object (Data st)) (fresh_process (saved_cluster st)), None)"
proof -
  let ?gone = "stale_cluster\<lparr>cl_ConfigMaps := []\<rparr>"
  have "save_read cluster True orders_object (Data st) (fresh_process stale_cluster) = (fresh_process ?gone, SaveAgain)"
    using stale_cluster_cms cluster_cms_key[OF stale_cluster_cms]
    by (simp add: save_read_def cluster_def IgnoreNotFound_def map_delete_def stale_cluster_def)
  moreover have "save_read cluster True orders_object (Data st) (fresh_process ?gone) =
    (seen_put True (new_configmap orders_object (Data st)) (fresh_process (saved_cluster st)), Returned None)"
    using new_configmap_sel(1)[of orders_object "Data st"]
    by (simp add: save_read_def cluster_def cluster_cms_def not_found_def map_put_def)
  moreover have "save_seen cluster True orders_object (Data st) (fresh_process w) = (fresh_process w, None)" for w
    by (simp add: save_seen_def)
  ultimately show ?thesis by (subst Save.simps, simp, subst Save.simps, simp)
qed

theorem Load_exact_witness:
  "snd (Load cluster True orders_object (fresh_process stale_cluster)) = Inr None"
proof -
  obtain ss' r where L: "Load cluster True orders_object (fresh_process stale_cluster) = (ss', Inr r)"
    by (cases "Load cluster True orders_object (fresh_process stale_cluster)")
       (auto simp: Load_def cluster_def stale_cluster_cms Let_def)
  from Load_exact[OF serves_cluster L] have "r = None" by (simp add: stale_cluster_cms loaded_def)
  with L show ?thesis by simp
qed

theorem Save_returns_witness:
  "\<exists>ss' err. Save cluster True orders_object stored_ex (fresh_process stale_cluster) = Some (ss', err)"
  using Save_returns[OF serves_cluster fresh_coherent(1)] by blast

theorem Save_refines_write_witness:
  "loaded orders_object (cluster_cms (saved_cluster stored_ex) (''flink'', ''siesta-orders'')) = FromData (Data stored_ex)"
  using Save_refines_write[OF serves_cluster fresh_coherent(1) _ stale_saved] by simp

theorem Save_then_Load_witness:
  "\<exists>s'. snd (Load cluster False orders_object (fresh_process (saved_cluster stored_ex))) = Inr (Some s') \<and>
     same_memory s' (stored stored_ex)"
proof -
  have "storable stored_ex"
    by (simp add: storable_def budget_storable_def printable_def stored_ex_def Initial_def zero_state_def zero_outage_def)
  moreover obtain ss' r where L: "Load cluster False orders_object (fresh_process (saved_cluster stored_ex)) = (ss', Inr r)"
    using new_configmap_sel(1)[of orders_object "Data stored_ex"]
    by (cases "Load cluster False orders_object (fresh_process (saved_cluster stored_ex))")
       (auto simp: Load_def cluster_def cluster_cms_def Let_def)
  ultimately have "\<exists>s'. r = Some s' \<and> same_memory s' (stored stored_ex)"
    using Save_then_Load[OF serves_cluster fresh_coherent(1) _ stale_saved, of stored_ex False ss' r] by simp
  with L show ?thesis by simp
qed

end
