(* ===== verification/TickFrame.thy ===== *)
theory TickFrame
  imports Reconciler StoreProps "HOL-Library.Sublist"
begin

text \<open>
  What the first part of a tick leaves alone. Observing, reporting and counting only say
  things, remember the job's sources and call the probes; a relation between the process before
  and after that holds for each of these holds for the whole. The two locales state the steps
  once, without and with the probes; they are used for the store (probes do not write
  ConfigMaps), for the log (nothing said is taken back) and for the world (saying is not writing).
\<close>

locale says_only =
  fixes R :: "'w Proc \<Rightarrow> 'w Proc \<Rightarrow> bool"
  assumes unchanged: "R ps ps"
    and after: "R ps ps' \<Longrightarrow> R ps' ps'' \<Longrightarrow> R ps ps''"
    and says: "R ps (say e ps)"
    and remembers: "R ps (setJob k c ps)"
    and ticks: "R ps (fst (memo_tick k now ps))"
begin

lemma said: "R ps ps' \<Longrightarrow> R ps (say e ps')"
  by (rule after[OF _ says])

lemma emits: "R ps (emit q kind reason action note ps)"
  by (simp add: emit_def unchanged says)

lemma observes_sources: "observe_sources q pol prev live job settled ps = (ps', x) \<Longrightarrow> R ps ps'"
  by (auto simp: observe_sources_def learnSources_def verifySources_def emits unchanged split: if_splits prod.splits)

text \<open>The report and the metrics of the tick.\<close>

lemma reports:
  assumes "report q pol prev live obs d now ps = (ps', d')"
  shows "R ps ps'"
proof -
  have 1: "report_outage q pol prev obs now n ps = (ps', n') \<Longrightarrow> R ps ps'" for n ps ps' n'
    by (auto simp: report_outage_def Let_def emits unchanged split: if_splits)
  have 2: "R ps (report_held q pol prev obs held n ps)" for held n ps
    by (simp add: report_held_def emits unchanged)
  have 3: "report_savepoint q prev live n ps = (ps', n') \<Longrightarrow> R ps ps'" for n ps ps' n'
    by (auto simp: report_savepoint_def Let_def emits unchanged split: if_splits)
  have 4: "report_resume_stall q now n ps = (ps', n') \<Longrightarrow> R ps ps'" for n ps ps' n'
    by (auto simp: report_resume_stall_def Let_def emits unchanged split: if_splits)
  have 5: "report_suspend_stall q live now n ps = (ps', n') \<Longrightarrow> R ps ps'" for n ps ps' n'
    by (auto simp: report_suspend_stall_def Let_def emits unchanged split: if_splits)
  show ?thesis
    using assms by (auto simp: report_def split: prod.splits intro: after[OF after[OF after[OF after[OF 1 2] 3] 4] 5])
qed

lemma records: "R ps (record_tick req prev d now ps)"
proof -
  have t: "R ps (account req prev n now ps)" for n ps
    using ticks[of ps req now]
    by (cases "memo_tick req now ps") (auto simp: account_def Let_def intro!: said split: option.split)
  have "R ps (account req prev n now (say e (say e' ps)))" for e e' n
    by (rule after[OF after[OF says says] t])
  then show ?thesis by (auto simp: record_tick_def Let_def intro!: said)
qed

end

text \<open>With the probes.\<close>

locale tick_frame = says_only R for R :: "'w Proc \<Rightarrow> 'w Proc \<Rightarrow> bool" +
  fixes r :: "'w Reconciler"
  assumes asks_offsets: "rc_Probe r (ss_world ps) topics = (w, x) \<Longrightarrow> R ps (ps\<lparr>ss_world := w\<rparr>)"
    and asks_lag: "rc_Lag r = Some lag \<Longrightarrow> lag (ss_world ps) grp ends = (w, x1) \<Longrightarrow> R ps (ps\<lparr>ss_world := w\<rparr>)"
    and asks_sources: "rc_Flink r = Some rest \<Longrightarrow> jp_Sources rest (ss_world ps) ns name job = (w, x2) \<Longrightarrow> R ps (ps\<lparr>ss_world := w\<rparr>)"
    and asks_reading: "rc_Flink r = Some rest \<Longrightarrow> jp_Read rest (ss_world ps) ns name job src = (w, x3) \<Longrightarrow> R ps (ps\<lparr>ss_world := w\<rparr>)"
    and asks_gap: "rc_Gaps r = Some gaps \<Longrightarrow> gaps (ss_world ps) topic p from to = (w, x4) \<Longrightarrow> R ps (ps\<lparr>ss_world := w\<rparr>)"
begin

lemma answered:
  assumes "R ps (ps\<lparr>ss_world := w\<rparr>)" and "known kind err (timed kind ps w) = (ps', ok)"
  shows "R ps ps'"
proof -
  have "R ps (timed kind ps w)" unfolding timed_def by (rule said[OF assms(1)])
  then show ?thesis using assms(2) by (auto simp: known_def intro!: said split: option.splits)
qed

lemma job_sources: "jobSources r req live ps = (ps', x) \<Longrightarrow> R ps ps'"
  by (auto simp: jobSources_def Let_def split: option.splits if_splits prod.splits
      intro: unchanged after[OF answered[OF asks_sources] remembers] answered[OF asks_sources])

lemma drained_partitions_frame:
  assumes "rc_Gaps r = Some gaps" and "drained_partitions gaps cur topic p es asked out ps = (ps', x)"
  shows "R ps ps'"
  using assms(2)
proof (induction es arbitrary: p asked out ps)
  case (Cons e es)
  define emitted where "emitted = (case map_of cur p of None \<Rightarrow> -1 | Some n \<Rightarrow> n)"
  obtain w records err where g: "gaps (ss_world ps) topic p (i64 (emitted + 1)) e = (w, records, err)" by (metis prod_cases3)
  obtain ps1 ok where k: "known ''gap'' err (timed ''gap'' ps w) = (ps1, ok)" by (rule prod.exhaust)
  have "R ps ps1" using answered[OF asks_gap[OF assms(1) g] k] .
  then show ?case
    using Cons.prems Cons.IH unchanged after[OF \<open>R ps ps1\<close>]
    by (auto simp: Let_def g k emitted_def[symmetric] split: if_splits)
qed (auto simp: unchanged)

lemma drained_topics_frame:
  assumes "rc_Gaps r = Some gaps" and "drained_topics gaps ends reading topics asked out ps = (ps', x)"
  shows "R ps ps'"
  using assms(2)
proof (induction topics arbitrary: asked out ps)
  case (Cons topic topics)
  let ?p = "drained_partitions gaps (case map_of (jr_Offsets reading) topic of None \<Rightarrow> [] | Some m \<Rightarrow> m) topic 0
             (case map_of ends topic of None \<Rightarrow> [] | Some es \<Rightarrow> es) asked out ps"
  obtain ps1 asked1 out1 stop where p: "?p = (ps1, asked1, out1, stop)" by (metis prod_cases4)
  have "R ps ps1" by (rule drained_partitions_frame[OF assms(1) p])
  then show ?case using Cons.prems Cons.IH after[OF \<open>R ps ps1\<close>] by (auto simp: p split: if_splits)
qed (auto simp: unchanged)

lemma drains: "drained r sources ends reading ps = (ps', x) \<Longrightarrow> R ps ps'"
  by (auto simp: drained_def unchanged drained_topics_frame split: option.splits if_splits)

lemma observes_lag: "observe_lag r pol obs ps = (ps', x) \<Longrightarrow> R ps ps'"
  by (auto simp: observe_lag_def unchanged split: option.splits if_splits prod.splits intro: answered[OF asks_lag])

lemma observes_reading: "observe_reading r req pol live job jobKnown obs ps = (ps', x) \<Longrightarrow> R ps ps'"
  by (auto simp: observe_reading_def unchanged Let_def split: option.splits if_splits prod.splits
      intro: answered[OF asks_reading] after[OF answered[OF asks_reading] drains])

lemma observes:
  assumes "observe r req pol prev live ps = (ps', x)"
  shows "R ps ps'"
proof -
  obtain ps1 job jobKnown settled where 1: "jobSources r req live ps = (ps1, job, jobKnown, settled)" by (metis prod_cases4)
  obtain ps2 prev1 where 2: "observe_sources r pol prev live job settled ps1 = (ps2, prev1)" by (rule prod.exhaust)
  have "R ps ps2" using after[OF job_sources[OF 1] observes_sources[OF 2]] .
  moreover have "R ps2 ps'"
    using assms by (auto simp: observe_def 1 2 unchanged Let_def split: if_splits prod.splits
        intro: after[OF after[OF answered[OF asks_offsets] observes_lag] observes_reading])
  ultimately show ?thesis by (rule after)
qed

end

section \<open>The store is left alone\<close>

text \<open>The calls that are not about ConfigMaps do not change the deployment's ConfigMap.\<close>

definition apart :: "'w Reconciler \<Rightarrow> ('w \<Rightarrow> key \<Rightarrow> ConfigMap option) \<Rightarrow> key \<Rightarrow> bool" where
  "apart r cms k \<longleftrightarrow>
     (\<forall>w q. cms (fst (k_Get (rc_Client r) w q)) k = cms w k) \<and>
     (\<forall>w q. cms (fst (k_Read (rc_Client r) w q)) k = cms w k) \<and>
     (\<forall>w fd p. cms (fst (k_Patch (rc_Client r) w fd p)) k = cms w k) \<and>
     (\<forall>w topics. cms (fst (rc_Probe r w topics)) k = cms w k) \<and>
     (\<forall>lag w grp ends. rc_Lag r = Some lag \<longrightarrow> cms (fst (lag w grp ends)) k = cms w k) \<and>
     (\<forall>rest w ns name job. rc_Flink r = Some rest \<longrightarrow> cms (fst (jp_Sources rest w ns name job)) k = cms w k) \<and>
     (\<forall>rest w ns name job src. rc_Flink r = Some rest \<longrightarrow> cms (fst (jp_Read rest w ns name job src)) k = cms w k) \<and>
     (\<forall>gaps w topic p from to. rc_Gaps r = Some gaps \<longrightarrow> cms (fst (gaps w topic p from to)) k = cms w k)"

lemma apart_client:
  assumes "apart r cms k"
  shows "k_Get (rc_Client r) w q = (w', x1) \<Longrightarrow> cms w' k = cms w k"
    and "k_Read (rc_Client r) w q = (w', x2) \<Longrightarrow> cms w' k = cms w k"
    and "k_Patch (rc_Client r) w fd p = (w', x3) \<Longrightarrow> cms w' k = cms w k"
  using assms unfolding apart_def by (metis fst_conv)+

lemma apart_probes:
  assumes "apart r cms k"
  shows "rc_Probe r w topics = (w', x1) \<Longrightarrow> cms w' k = cms w k"
    and "rc_Lag r = Some lag \<Longrightarrow> lag w grp ends = (w', x2) \<Longrightarrow> cms w' k = cms w k"
    and "rc_Flink r = Some rest \<Longrightarrow> jp_Sources rest w ns name job = (w', x3) \<Longrightarrow> cms w' k = cms w k"
    and "rc_Flink r = Some rest \<Longrightarrow> jp_Read rest w ns name job src = (w', x4) \<Longrightarrow> cms w' k = cms w k"
    and "rc_Gaps r = Some gaps \<Longrightarrow> gaps w topic q from to = (w', x5) \<Longrightarrow> cms w' k = cms w k"
  using assms unfolding apart_def by (metis fst_conv)+

definition store_kept :: "'w Reconciler \<Rightarrow> ('w \<Rightarrow> key \<Rightarrow> ConfigMap option) \<Rightarrow> key \<Rightarrow> 'w Proc \<Rightarrow> 'w Proc \<Rightarrow> bool" where
  "store_kept r cms k ps ps' \<longleftrightarrow>
     (apart r cms k \<longrightarrow> cms (ss_world ps') k = cms (ss_world ps) k \<and> ss_seen ps' = ss_seen ps)"

interpretation store: tick_frame "store_kept r cms k" r for r cms k
proof
qed (auto simp: store_kept_def setJob_def memo_tick_def dest: apart_probes)

interpretation logged: tick_frame "\<lambda>ps ps'. prefix (pr_log ps) (pr_log ps')" r for r
  by unfold_locales (auto simp: setJob_def memo_tick_def)

interpretation still: says_only "\<lambda>ps ps'. ss_world ps' = ss_world ps \<and> ss_seen ps' = ss_seen ps"
  by unfold_locales (auto simp: setJob_def memo_tick_def)

lemma coherent_kept:
  "store_kept r cms k ps ps' \<Longrightarrow> apart r cms k \<Longrightarrow> coherent cms on k ps \<Longrightarrow> coherent cms on k ps'"
  by (auto simp: store_kept_def coherent_def seen_get_def)

text \<open>Writing the object leaves the store alone too.\<close>

lemma merge_kept:
  assumes "merge (the_patcher r) fd s spec ps = (ps', err)"
  shows "store_kept r cms k ps ps'"
  unfolding store_kept_def
proof
  assume "apart r cms k"
  note a = apart_client(2,3)[OF this]
  show "cms (ss_world ps') k = cms (ss_world ps) k \<and> ss_seen ps' = ss_seen ps"
    using assms by (auto simp: merge_def the_patcher_def Let_def split: prod.splits option.splits sum.splits if_splits dest!: a)
qed

lemma annotate_kept: "annotate (the_patcher r) fd s ps = (ps', err) \<Longrightarrow> store_kept r cms k ps ps'"
  by (auto simp: annotate_def store.unchanged split: if_splits dest: merge_kept)

lemma recorded_kept: "store_kept r cms k ps ps' \<Longrightarrow> store_kept r cms k ps (recorded q e ps')"
  by (auto simp: recorded_def intro: store.said)

lemma write_object_kept: "write_object r fd d ps = (ps', err) \<Longrightarrow> store_kept r cms k ps ps'"
  by (cases "d_Action d")
     (auto simp: write_object_def suspend_def resume_def restart_def refuse_def markUnrecoverable_def patch_event_def
       split: prod.splits option.splits intro!: recorded_kept dest: merge_kept annotate_kept)

end
