(* ===== verification/ReconcilerProps.thy ===== *)
theory ReconcilerProps
  imports Reconciler StoreProps
begin

text \<open>
  Properties of the tick as a whole: when it never writes on a deployment's spec, that it
  returns, what a quiet tick does, and what the memo of the job's sources is worth.
\<close>

section \<open>What depends on the API client\<close>

text \<open>
  That a tick makes no call of some kind is stated by replacing that call with an arbitrary
  one: if nothing changes whatever it does, it is never made.
\<close>

definition with_spec_patch :: "('w \<Rightarrow> Object \<Rightarrow> MergePatch \<Rightarrow> 'w \<times> goerr option) \<Rightarrow> 'w Reconciler \<Rightarrow> 'w Reconciler" where
  "with_spec_patch f r =
     r\<lparr>rc_Client := (rc_Client r)\<lparr>k_Patch := (\<lambda>w fd p. if Option.is_none (mp_Spec p) then k_Patch (rc_Client r) w fd p else f w fd p)\<rparr>\<rparr>"

definition with_patch :: "('w \<Rightarrow> Object \<Rightarrow> MergePatch \<Rightarrow> 'w \<times> goerr option) \<Rightarrow> 'w Reconciler \<Rightarrow> 'w Reconciler" where
  "with_patch f r = r\<lparr>rc_Client := (rc_Client r)\<lparr>k_Patch := f\<rparr>\<rparr>"

lemma rc_sel:
  "rc_Prefix (r\<lparr>rc_Client := c\<rparr>) = rc_Prefix r"
  "rc_DryRun (r\<lparr>rc_Client := c\<rparr>) = rc_DryRun r"
  "rc_Probe (r\<lparr>rc_Client := c\<rparr>) = rc_Probe r"
  "rc_Lag (r\<lparr>rc_Client := c\<rparr>) = rc_Lag r"
  "rc_Flink (r\<lparr>rc_Client := c\<rparr>) = rc_Flink r"
  "rc_Gaps (r\<lparr>rc_Client := c\<rparr>) = rc_Gaps r"
  "rc_Decider (r\<lparr>rc_Client := c\<rparr>) = rc_Decider r"
  "rc_Recorder (r\<lparr>rc_Client := c\<rparr>) = rc_Recorder r"
  "rc_Now (r\<lparr>rc_Client := c\<rparr>) = rc_Now r"
  "rc_Reader (r\<lparr>rc_Client := c\<rparr>) = rc_Reader r"
  "rc_Seen (r\<lparr>rc_Client := c\<rparr>) = rc_Seen r"
  "rc_PollInterval (r\<lparr>rc_Client := c\<rparr>) = rc_PollInterval r"
  "rc_ResumeStallAfter (r\<lparr>rc_Client := c\<rparr>) = rc_ResumeStallAfter r"
  by simp_all

lemma client_indep [simp]:
  "requeue (r\<lparr>rc_Client := c\<rparr>) = requeue r"
  "stallAfter (r\<lparr>rc_Client := c\<rparr>) = stallAfter r"
  "emit (r\<lparr>rc_Client := c\<rparr>) = emit r"
  "jobSources (r\<lparr>rc_Client := c\<rparr>) = jobSources r"
  "drained (r\<lparr>rc_Client := c\<rparr>) = drained r"
  "observe_lag (r\<lparr>rc_Client := c\<rparr>) = observe_lag r"
  unfolding requeue_def stallAfter_def emit_def jobSources_def drained_def observe_lag_def rc_sel by (rule refl)+

lemma client_indep_events [simp]:
  "learnSources (r\<lparr>rc_Client := c\<rparr>) = learnSources r"
  "verifySources (r\<lparr>rc_Client := c\<rparr>) = verifySources r"
  "report_outage (r\<lparr>rc_Client := c\<rparr>) = report_outage r"
  "report_held (r\<lparr>rc_Client := c\<rparr>) = report_held r"
  "report_savepoint (r\<lparr>rc_Client := c\<rparr>) = report_savepoint r"
  "report_resume_stall (r\<lparr>rc_Client := c\<rparr>) = report_resume_stall r"
  "report_suspend_stall (r\<lparr>rc_Client := c\<rparr>) = report_suspend_stall r"
  unfolding learnSources_def verifySources_def report_outage_def report_held_def report_savepoint_def report_resume_stall_def report_suspend_stall_def rc_sel client_indep by (rule refl)+

lemma client_indep_parts [simp]:
  "observe_sources (r\<lparr>rc_Client := c\<rparr>) = observe_sources r"
  "observe_reading (r\<lparr>rc_Client := c\<rparr>) = observe_reading r"
  "report (r\<lparr>rc_Client := c\<rparr>) = report r"
  unfolding observe_sources_def observe_reading_def report_def rc_sel client_indep client_indep_events by (rule refl)+

lemma client_indep_observe [simp]:
  "observe (r\<lparr>rc_Client := c\<rparr>) = observe r"
  unfolding observe_def rc_sel client_indep client_indep_parts by (rule refl)+

lemma k_sel:
  "k_Get (k\<lparr>k_Patch := f\<rparr>) = k_Get k"
  "k_Read (k\<lparr>k_Patch := f\<rparr>) = k_Read k"
  "k_ReadCM (k\<lparr>k_Patch := f\<rparr>) = k_ReadCM k"
  "k_CreateCM (k\<lparr>k_Patch := f\<rparr>) = k_CreateCM k"
  "k_PatchCM (k\<lparr>k_Patch := f\<rparr>) = k_PatchCM k"
  "k_DeleteCM (k\<lparr>k_Patch := f\<rparr>) = k_DeleteCM k"
  by simp_all

lemma store_patch [simp]:
  "Load (k\<lparr>k_Patch := f\<rparr>) = Load k"
  "Delete (k\<lparr>k_Patch := f\<rparr>) = Delete k"
  "save_seen (k\<lparr>k_Patch := f\<rparr>) = save_seen k"
  "save_read (k\<lparr>k_Patch := f\<rparr>) = save_read k"
  unfolding Load_def Delete_def save_seen_def save_read_def k_sel by (rule refl)+

lemma Save_mono:
  assumes "save_seen k' = (save_seen k :: _ \<Rightarrow> _ \<Rightarrow> _ \<Rightarrow> ('w, 'm) StoreState_scheme \<Rightarrow> _)"
    and "save_read k' = (save_read k :: _ \<Rightarrow> _ \<Rightarrow> _ \<Rightarrow> ('w, 'm) StoreState_scheme \<Rightarrow> _)"
    and "Save k on fd st (ss :: ('w, 'm) StoreState_scheme) = Some res"
  shows "Save k' on fd st ss = Some res"
proof -
  have "k = k \<longrightarrow> Save k' on fd st ss = Some res"
  proof (rule Save.raw_induct[where P = "\<lambda>k1 on fd st ss res. k1 = k \<longrightarrow> Save k' on fd st ss = Some res", OF _ assms(3)], intro impI)
    fix sv k1 on fd st and ss :: "('w, 'm) StoreState_scheme" and res
    assume IH: "\<And>k1 on fd st ss res. sv k1 on fd st ss = Some res \<Longrightarrow> k1 = k \<longrightarrow> Save k' on fd st ss = Some res"
      and "k1 = k"
      and "(case save_seen k1 on fd (Data st) ss of (ss1, None) \<Rightarrow>
              (case save_read k1 on fd (Data st) ss1 of (ss2, Returned err) \<Rightarrow> Some (ss2, err) | (ss2, SaveAgain) \<Rightarrow> sv k1 on fd st ss2)
            | (ss1, Some err) \<Rightarrow> Some (ss1, err)) = Some res"
    then show "Save k' on fd st ss = Some res"
      by (subst Save.simps) (auto simp: assms(1,2) split: prod.splits option.splits save_next.splits)
  qed
  then show ?thesis by blast
qed

lemma Save_patch [simp]: "Save (k\<lparr>k_Patch := f\<rparr>) on fd st ss = Save k on fd st ss"
proof -
  have "Save k on fd st ss = Some res \<longleftrightarrow> Save (k\<lparr>k_Patch := f\<rparr>) on fd st ss = Some res" for res
    using Save_mono[OF store_patch(3,4)] Save_mono[OF store_patch(3,4)[symmetric]] by (rule iffI)
  then show ?thesis by (metis option.exhaust)
qed

lemma load_memory_patch [simp]: "load_memory (r\<lparr>rc_Client := (rc_Client r)\<lparr>k_Patch := f\<rparr>\<rparr>) = load_memory r"
proof -
  have "Load (rc_Client (r\<lparr>rc_Client := (rc_Client r)\<lparr>k_Patch := f\<rparr>\<rparr>)) = Load (rc_Client r)" by simp
  then show ?thesis unfolding load_memory_def rc_sel by simp
qed

section \<open>When the spec is not written\<close>

lemma merge_no_spec: "merge (the_patcher (with_spec_patch f r)) fd s None ps = merge (the_patcher r) fd s None ps"
  by (simp add: merge_def the_patcher_def with_spec_patch_def patch_body_def Let_def split: prod.split option.split sum.split)

lemma annotate_no_spec: "annotate (the_patcher (with_spec_patch f r)) fd s ps = annotate (the_patcher r) fd s ps"
  using merge_no_spec[of f r fd s ps] by (simp add: annotate_def the_patcher_def with_spec_patch_def)

lemma with_spec_patch_indep [simp]:
  "requeue (with_spec_patch f r) = requeue r" "emit (with_spec_patch f r) = emit r"
  "observe (with_spec_patch f r) = observe r" "report (with_spec_patch f r) = report r"
  "load_memory (with_spec_patch f r) = load_memory r"
  "Delete (rc_Client (with_spec_patch f r)) = Delete (rc_Client r)"
  "Save (rc_Client (with_spec_patch f r)) on fd st ss = Save (rc_Client r) on fd st ss"
  "k_Get (rc_Client (with_spec_patch f r)) = k_Get (rc_Client r)"
  "rc_Prefix (with_spec_patch f r) = rc_Prefix r" "rc_DryRun (with_spec_patch f r) = rc_DryRun r"
  "rc_Seen (with_spec_patch f r) = rc_Seen r" "rc_Flink (with_spec_patch f r) = rc_Flink r"
  "rc_Now (with_spec_patch f r) = rc_Now r" "rc_Decider (with_spec_patch f r) = rc_Decider r"
  by (simp_all add: with_spec_patch_def)

lemma act_no_spec:
  assumes "d_Action d \<in> {ActNone, Refuse, MarkUnrecoverable}"
  shows "act (with_spec_patch f r) fd prev found d ps = act r fd prev found d ps"
proof -
  have "write_object (with_spec_patch f r) fd d ps = write_object r fd d ps"
    using assms annotate_no_spec[of f r fd "d_Next d" ps]
    by (auto simp: write_object_def refuse_def markUnrecoverable_def recorded_def the_patcher_def with_spec_patch_def
        split: prod.split)
  then show ?thesis by (simp add: act_def split: prod.split option.split)
qed

lemma refuseInvalidPolicy_no_spec: "refuseInvalidPolicy (with_spec_patch f r) = refuseInvalidPolicy r"
  by (simp add: fun_eq_iff refuseInvalidPolicy_def annotate_no_spec Let_def split: prod.split option.split)

lemma report_action [simp]: "report r pol prev live obs d now ps = (ps', d') \<Longrightarrow> d_Action d' = d_Action d"
  by (auto simp: report_def split: prod.splits)

lemma shadow_action [simp]: "d_Action (shadow prev d) = ActNone"
  by (simp add: shadow_def Let_def)

lemma finish_no_spec:
  assumes "rc_DryRun r \<or> p_DryRun pol"
  shows "finish (with_spec_patch f r) req fd pol prev found live obs now ps = finish r req fd pol prev found live obs now ps"
  using assms by (auto simp: finish_def Let_def act_no_spec split: prod.split)

lemma release_no_spec:
  assumes "rc_DryRun r"
  shows "release (with_spec_patch f r) req fd ps = release r req fd ps"
  using assms merge_no_spec[of f r fd zero_state ps]
  by (simp add: release_def clear_def forget_def Let_def split: prod.split option.split)

lemma observe_policy: "observe r req pol prev live ps = (ps', obs, pol', prev') \<Longrightarrow> p_DryRun pol' = p_DryRun pol"
  by (auto simp: observe_def Let_def split: prod.splits if_splits)

lemma problem_dry_run [simp]: "p_DryRun (problem msg p) = p_DryRun p"
  by (simp add: problem_def)

text \<open>
  C9. A dry run never touches a job. With the flag on, or with \<open>dry-run\<close> in the deployment's
  policy, one tick makes no patch that carries a spec field, whatever it observes, decides or
  fails at, and whatever the server, the broker and the job answer: with any other function
  in the place of such patches the tick ends in the same state with the same result.
\<close>

theorem dry_run_never_writes_spec:
  assumes "rc_DryRun r \<or> (k_Get (rc_Client r) (ss_world ps) req = (w, Inr fd) \<and>
             Read (rc_Prefix r) (u_Annotations fd) = Some pol \<and> p_DryRun pol)"
  shows "Reconcile (with_spec_patch f r) req ps = Reconcile r req ps"
proof -
  obtain w0 res where g: "k_Get (rc_Client r) (ss_world ps) req = (w0, res)" by (rule prod.exhaust)
  show ?thesis
  proof (cases res)
    case (Inl e)
    then show ?thesis by (simp add: Reconcile_def g forget_def Let_def)
  next
    case (Inr fd')
    show ?thesis
    proof (cases "Read (rc_Prefix r) (u_Annotations fd')")
      case None
      then have "rc_DryRun r" using assms g Inr by auto
      then show ?thesis by (simp add: Reconcile_def g Inr None release_no_spec)
    next
      case (Some pol')
      then have dry: "rc_DryRun r \<or> p_DryRun pol'" using assms g Inr by auto
      have "finish (with_spec_patch f r) req fd' pol1 prev1 found live obs now ps2 = finish r req fd' pol1 prev1 found live obs now ps2"
        if "observe r req pol'' prev live ps1 = (ps2, obs, pol1, prev1)" and "p_DryRun pol'' = p_DryRun pol'"
        for pol'' prev live ps1 ps2 obs pol1 prev1 found now
        using that dry observe_policy[OF that(1)] by (intro finish_no_spec) simp
      then show ?thesis
        by (simp add: Reconcile_def g Inr Some Let_def refuseInvalidPolicy_no_spec split: prod.split sum.split)
    qed
  qed
qed


end
