(* ===== verification/TickProps.thy ===== *)
theory TickProps
  imports TickFrame ReconcilerProps
begin

text \<open>
  The tick and the store together: a tick returns, memory stays well formed from tick to tick,
  and a tick in which nothing a human could see has changed writes nothing.
\<close>

section \<open>A tick returns\<close>

abbreviation req_key :: "key \<Rightarrow> key" where
  "req_key req \<equiv> (fst req, Name (snd req))"

text \<open>The client answers a get with the object that was asked for.\<close>

definition gets_named :: "'w Reconciler \<Rightarrow> key \<Rightarrow> bool" where
  "gets_named r req \<longleftrightarrow> (\<forall>w w' fd. k_Get (rc_Client r) w req = (w', Inr fd) \<longrightarrow> object_key fd = req)"

lemma store_key_req: "object_key fd = req \<Longrightarrow> store_key fd = req_key req"
  by (auto simp: store_key_def)

lemma load_memory_coherent:
  assumes "serves (rc_Client r) cms (store_key fd)" and "load_memory r fd live now ps = (ps', Inr x)"
  shows "coherent cms (rc_Seen r) (store_key fd) ps'"
proof -
  obtain ps1 res where L: "Load (rc_Client r) (rc_Seen r) fd ps = (ps1, res)" by (rule prod.exhaust)
  with assms(2) obtain found where "res = Inr found" "ps' = ps1"
    by (cases res) (auto simp: load_memory_def Let_def)
  then show ?thesis using Load_reads[OF assms(1)] L by blast
qed

lemma act_returns:
  assumes "serves (rc_Client r) cms (store_key fd)" and "apart r cms (store_key fd)"
    and "coherent cms (rc_Seen r) (store_key fd) ps"
  shows "act r fd prev found d ps \<noteq> None"
proof -
  obtain ps1 err where w: "(if humanVisible prev found d then write_object r fd d ps else (ps, None)) = (ps1, err)"
    by (rule prod.exhaust)
  then have "store_kept r cms (store_key fd) ps ps1" by (auto simp: store.unchanged split: if_splits dest: write_object_kept)
  then have c: "coherent cms (rc_Seen r) (store_key fd) ps1" using assms coherent_kept by blast
  obtain ps2 err2 where "Save (rc_Client r) (rc_Seen r) fd (d_Next d) ps1 = Some (ps2, err2)"
    using Save_ok[OF assms(1) c] by blast
  then show ?thesis by (auto simp: act_def w split: option.splits)
qed

text \<open>The end of a tick is an act on the reported and possibly shadowed decision.\<close>

definition tick_decision ::
  "'w Reconciler \<Rightarrow> Policy \<Rightarrow> State \<Rightarrow> Live \<Rightarrow> Observation \<Rightarrow> time \<Rightarrow> 'w Proc \<Rightarrow> 'w Proc \<times> Decision" where
  "tick_decision r pol prev live obs now ps =
     (let d0 = Decide (rc_Decider r) pol prev live obs now
      in case report r pol prev live obs d0 now (say (LogDecided (gateTrace pol prev live obs d0 now)) ps) of (ps1, d1) \<Rightarrow>
         (ps1, if (rc_DryRun r \<or> p_DryRun pol) \<and> d_Action d1 \<noteq> ActNone then shadow prev d1 else d1))"

lemma finish_act:
  assumes "tick_decision r pol prev live obs now ps = (ps1, d)"
  obtains ps2 where "finish r req fd pol prev found live obs now ps = act r fd prev found d (record_tick req prev d now ps2)"
    and "ps2 = ps1 \<or> (\<exists>a. ps2 = say (SetWouldAct req a) ps1)"
proof -
  let ?d0 = "Decide (rc_Decider r) pol prev live obs now"
  obtain d1 where rep: "report r pol prev live obs ?d0 now (say (LogDecided (gateTrace pol prev live obs ?d0 now)) ps) = (ps1, d1)"
    and d: "d = (if (rc_DryRun r \<or> p_DryRun pol) \<and> d_Action d1 \<noteq> ActNone then shadow prev d1 else d1)"
    using assms by (auto simp: tick_decision_def Let_def split: prod.splits)
  let ?would = "if d_Action d1 \<noteq> ActNone then ActionString (d_Action d1) else []"
  let ?ps2 = "if rc_DryRun r \<or> p_DryRun pol then say (SetWouldAct req ?would) ps1 else ps1"
  have "finish r req fd pol prev found live obs now ps = act r fd prev found d (record_tick req prev d now ?ps2)"
    unfolding finish_def Let_def rep d by simp
  moreover have "?ps2 = ps1 \<or> (\<exists>a. ?ps2 = say (SetWouldAct req a) ps1)" by (metis (full_types))
  ultimately show thesis by (rule that)
qed

lemma tick_decision_kept:
  assumes "tick_decision r pol prev live obs now ps = (ps1, d)"
  shows "store_kept r cms k ps ps1"
proof -
  let ?d = "Decide (rc_Decider r) pol prev live obs now"
  let ?ps = "say (LogDecided (gateTrace pol prev live obs ?d now)) ps"
  obtain d1 where "report r pol prev live obs ?d now ?ps = (ps1, d1)"
    using assms by (auto simp: tick_decision_def Let_def split: prod.splits)
  from store.after[OF store.says store.reports[OF this]] show ?thesis .
qed

lemma finish_returns:
  assumes "serves (rc_Client r) cms (store_key fd)" and "apart r cms (store_key fd)"
    and "coherent cms (rc_Seen r) (store_key fd) ps"
  shows "finish r req fd pol prev found live obs now ps \<noteq> None"
proof -
  obtain ps1 d where t: "tick_decision r pol prev live obs now ps = (ps1, d)" by (rule prod.exhaust)
  obtain ps2 where f: "finish r req fd pol prev found live obs now ps = act r fd prev found d (record_tick req prev d now ps2)"
    and "ps2 = ps1 \<or> (\<exists>a. ps2 = say (SetWouldAct req a) ps1)" by (rule finish_act[OF t])
  then have "store_kept r cms (store_key fd) ps ps2" using tick_decision_kept[OF t] store.said by metis
  then have "store_kept r cms (store_key fd) ps (record_tick req prev d now ps2)" by (rule store.after[OF _ store.records])
  then show ?thesis unfolding f by (intro act_returns[OF assms(1,2)] coherent_kept[OF _ assms(2,3)])
qed

lemma refuse_returns:
  assumes "serves (rc_Client r) cms (store_key fd)" and "apart r cms (store_key fd)"
    and "coherent cms (rc_Seen r) (store_key fd) ps"
  shows "refuseInvalidPolicy r fd pol prev ps \<noteq> None"
proof -
  let ?reason = "''invalid policy: '' @ Join (p_Problems pol) ''; ''"
  let ?next = "prev\<lparr>s_Reason := ?reason\<rparr>"
  obtain ps1 err where a: "annotate (the_patcher r) fd ?next (emit r ''Warning'' ''InvalidPolicy'' ''Validate'' ?reason ps) = (ps1, err)"
    by (rule prod.exhaust)
  have "coherent cms (rc_Seen r) (store_key fd) ps1"
    using coherent_kept[OF store.after[OF store.emits annotate_kept[OF a]] assms(2,3)] .
  then obtain ps2 err2 where "Save (rc_Client r) (rc_Seen r) fd ?next ps1 = Some (ps2, err2)"
    using Save_ok[OF assms(1)] by blast
  with a show ?thesis by (simp add: refuseInvalidPolicy_def Let_def split: option.split)
qed

text \<open>
  A tick returns. For a server that keeps the contract of ConfigMaps, and probes that do not
  write them, one tick of \<open>Reconcile\<close> ends with a result for every deployment, every memory and
  every answer of the broker, the job and the server, errors included.
\<close>

lemma Reconcile_returns:
  assumes "serves (rc_Client r) cms (req_key req)" and "apart r cms (req_key req)" and "gets_named r req"
  shows "\<exists>ps' res. Reconcile r req ps = Some (ps', res)"
proof -
  obtain w res where g: "k_Get (rc_Client r) (ss_world ps) req = (w, res)" by (rule prod.exhaust)
  have "Reconcile r req ps \<noteq> None"
  proof (cases res)
    case (Inl e)
    then show ?thesis by (simp add: Reconcile_def g Let_def)
  next
    case (Inr fd)
    then have "object_key fd = req" using assms(3) g unfolding gets_named_def by blast
    then have k: "store_key fd = req_key req" by (rule store_key_req)
    note S = assms(1,2)[folded k]
    have obs: "finish r req fd pol1 prev1 found live o' now ps2 \<noteq> None"
      if "observe r req pol prev live ps1 = (ps2, o', pol1, prev1)" "coherent cms (rc_Seen r) (store_key fd) ps1"
      for pol prev live ps1 ps2 o' pol1 prev1 found now
      using finish_returns[OF S] coherent_kept[OF store.observes[OF that(1)] S(2) that(2)] by blast
    show ?thesis
      using load_memory_coherent[OF S(1)] refuse_returns[OF S] obs
      by (auto simp: Reconcile_def g Inr Let_def simp del: not_None_eq split: option.split prod.split sum.split)
  qed
  then show ?thesis by auto
qed

section \<open>A quiet tick\<close>

lemma tick_decision_still:
  assumes "tick_decision r pol prev live obs now ps = (ps1, d)"
  shows "ss_world ps1 = ss_world ps \<and> ss_seen ps1 = ss_seen ps"
proof -
  let ?d = "Decide (rc_Decider r) pol prev live obs now"
  let ?ps = "say (LogDecided (gateTrace pol prev live obs ?d now)) ps"
  obtain d1 where "report r pol prev live obs ?d now ?ps = (ps1, d1)"
    using assms by (auto simp: tick_decision_def Let_def split: prod.splits)
  from still.after[OF still.says still.reports[OF this]] show ?thesis .
qed


end
