(* ===== verification/Wiring.thy ===== *)
theory Wiring
  imports Drained RestProps KafkaOpts TickProps Scenario
begin

text \<open>
  The binary (\<open>src/cmd/main.go\<close>): what the flags say, and the controller built from it with its probes.
  The world of the whole program is the API server, the jobs, the broker and the remembered ranges of
  the gap probe; each probe touches its own part.
\<close>

section \<open>Flags\<close>

record config =
  cf_prefix :: string
  cf_namespace :: string
  cf_brokers :: string
  cf_metricsAddr :: string
  cf_probeAddr :: string
  cf_unrecoverable :: string
  cf_dryRun :: bool
  cf_leaderElect :: bool
  cf_flinkRest :: bool
  cf_metricsSecure :: bool
  cf_flinkRestPort :: int
  cf_maxRestarts :: int
  cf_concurrency :: int
  cf_apiBurst :: int
  cf_apiQPS :: float64
  cf_restartWindow :: duration
  cf_restartBackoff :: duration
  cf_pollInterval :: duration
  cf_probeTimeout :: duration
  cf_stallAfter :: duration
  cf_failingAfter :: duration

text \<open>The command line: the value given for a flag of each type, if any.\<close>

record Flags =
  fl_String :: "string \<Rightarrow> string option"
  fl_Bool :: "string \<Rightarrow> bool option"
  fl_Int :: "string \<Rightarrow> int option"
  fl_Float64 :: "string \<Rightarrow> float64 option"
  fl_Duration :: "string \<Rightarrow> duration option"

definition flag_or :: "'a option \<Rightarrow> 'a \<Rightarrow> 'a" where
  "flag_or v dflt = (case v of None \<Rightarrow> dflt | Some x \<Rightarrow> x)"

definition parseFlags :: "(string \<Rightarrow> string) \<Rightarrow> Flags \<Rightarrow> config" where
  "parseFlags Getenv f =
     \<lparr>cf_prefix = flag_or (fl_String f ''annotation-prefix'') ''siesta.flink.io'',
      cf_namespace = flag_or (fl_String f ''namespace'') (Getenv ''POD_NAMESPACE''),
      cf_brokers = flag_or (fl_String f ''kafka-bootstrap'') [],
      cf_metricsAddr = flag_or (fl_String f ''metrics-bind-address'') '':8080'',
      cf_probeAddr = flag_or (fl_String f ''health-probe-bind-address'') '':8081'',
      cf_unrecoverable = flag_or (fl_String f ''unrecoverable-patterns'') default_unrecoverable,
      cf_dryRun = flag_or (fl_Bool f ''dry-run'') False,
      cf_leaderElect = flag_or (fl_Bool f ''leader-elect'') True,
      cf_flinkRest = flag_or (fl_Bool f ''flink-rest'') True,
      cf_metricsSecure = flag_or (fl_Bool f ''metrics-secure'') False,
      cf_flinkRestPort = flag_or (fl_Int f ''flink-rest-port'') 8081,
      cf_maxRestarts = flag_or (fl_Int f ''restart-max'') 3,
      cf_concurrency = flag_or (fl_Int f ''max-concurrent-reconciles'') 4,
      cf_apiBurst = flag_or (fl_Int f ''kube-api-burst'') 100,
      cf_apiQPS = flag_or (fl_Float64 f ''kube-api-qps'') 50,
      cf_restartWindow = flag_or (fl_Duration f ''restart-window'') (30 * Minute),
      cf_restartBackoff = flag_or (fl_Duration f ''restart-backoff'') Minute,
      cf_pollInterval = flag_or (fl_Duration f ''poll-interval'') Minute,
      cf_probeTimeout = flag_or (fl_Duration f ''probe-timeout'') (10 * Second),
      cf_stallAfter = flag_or (fl_Duration f ''resume-stall-after'') (10 * Minute),
      cf_failingAfter = flag_or (fl_Duration f ''failing-after'') (10 * Minute)\<rparr>"

record Options =
  op_HealthProbeBindAddress :: string
  op_LeaderElection :: bool
  op_LeaderElectionID :: string
  op_CacheUnstructured :: bool
  op_DefaultNamespaces :: "string list option"
  op_MetricsBindAddress :: string
  op_SecureServing :: bool
  op_MetricsFilter :: bool
  op_QPS :: float64
  op_Burst :: int

definition managerOptions :: "config \<Rightarrow> Options" where
  "managerOptions cfg =
     \<lparr>op_HealthProbeBindAddress = cf_probeAddr cfg, op_LeaderElection = cf_leaderElect cfg, op_LeaderElectionID = ''siesta.flink.io'',
      op_CacheUnstructured = True,
      op_DefaultNamespaces = (if cf_namespace cfg \<noteq> [] then Some [cf_namespace cfg] else None),
      op_MetricsBindAddress = [], op_SecureServing = False, op_MetricsFilter = False, op_QPS = 0, op_Burst = 0\<rparr>"

text \<open>The options \<open>run\<close> hands to the manager, with the metrics server and the client's rate.\<close>

definition run_options :: "config \<Rightarrow> Options" where
  "run_options cfg =
     (managerOptions cfg)\<lparr>op_MetricsBindAddress := cf_metricsAddr cfg, op_SecureServing := cf_metricsSecure cfg,
        op_MetricsFilter := cf_metricsSecure cfg, op_QPS := cf_apiQPS cfg, op_Burst := cf_apiBurst cfg\<rparr>"

text \<open>A broker list on the command line replaces the one of the environment, and is split as it is.\<close>

definition run_kafka_config :: "(string \<Rightarrow> string) \<Rightarrow> config \<Rightarrow> KafkaConfig" where
  "run_kafka_config Getenv cfg =
     (let c = KafkaConfigFromEnv Getenv
      in if cf_brokers cfg \<noteq> [] then c\<lparr>kc_BootstrapServers := Split CHR '','' (cf_brokers cfg)\<rparr> else c)"

definition run_decider :: "config \<Rightarrow> Decider" where
  "run_decider cfg =
     \<lparr>dc_restart = \<lparr>rp_MaxRestarts = cf_maxRestarts cfg, rp_Window = cf_restartWindow cfg, rp_BaseBackoff = cf_restartBackoff cfg,
        rp_Multiplier = 2, rp_FailingAfter = cf_failingAfter cfg, rp_Unrecoverable = Split CHR '','' (cf_unrecoverable cfg)\<rparr>,
      dc_Quiet = cf_pollInterval cfg\<rparr>"

section \<open>One world for all probes\<close>

type_synonym ('k, 'j, 'b) world = "('k \<times> 'j \<times> 'b) \<times> gaps"

definition on_kube :: "('k \<Rightarrow> 'k \<times> 'a) \<Rightarrow> ('k, 'j, 'b) world \<Rightarrow> ('k, 'j, 'b) world \<times> 'a" where
  "on_kube f w = (case w of ((k, j, b), g) \<Rightarrow> case f k of (k', x) \<Rightarrow> (((k', j, b), g), x))"

definition on_jobs :: "('j \<Rightarrow> 'j \<times> 'a) \<Rightarrow> ('k, 'j, 'b) world \<Rightarrow> ('k, 'j, 'b) world \<times> 'a" where
  "on_jobs f w = (case w of ((k, j, b), g) \<Rightarrow> case f j of (j', x) \<Rightarrow> (((k, j', b), g), x))"

definition on_broker :: "('b \<Rightarrow> 'b \<times> 'a) \<Rightarrow> 'k \<times> 'j \<times> 'b \<Rightarrow> ('k \<times> 'j \<times> 'b) \<times> 'a" where
  "on_broker f w = (case w of (k, j, b) \<Rightarrow> case f b of (b', x) \<Rightarrow> ((k, j, b'), x))"

definition wired_kube :: "'k Kube \<Rightarrow> ('k, 'j, 'b) world Kube" where
  "wired_kube kube =
     \<lparr>k_Get = (\<lambda>w q. on_kube (\<lambda>k. k_Get kube k q) w), k_Read = (\<lambda>w q. on_kube (\<lambda>k. k_Read kube k q) w),
      k_Patch = (\<lambda>w fd p. on_kube (\<lambda>k. k_Patch kube k fd p) w), k_ReadCM = (\<lambda>w q. on_kube (\<lambda>k. k_ReadCM kube k q) w),
      k_CreateCM = (\<lambda>w cm. on_kube (\<lambda>k. k_CreateCM kube k cm) w), k_PatchCM = (\<lambda>w x y. on_kube (\<lambda>k. k_PatchCM kube k x y) w),
      k_DeleteCM = (\<lambda>w q. on_kube (\<lambda>k. k_DeleteCM kube k q) w)\<rparr>"

definition wired_client :: "'b Client \<Rightarrow> ('k \<times> 'j \<times> 'b) Client" where
  "wired_client c =
     \<lparr>cl_Metadata = (\<lambda>w t. on_broker (\<lambda>b. cl_Metadata c b t) w), cl_Fetch = (\<lambda>w l q. on_broker (\<lambda>b. cl_Fetch c b l q) w),
      cl_ReadFrom = cl_ReadFrom c, cl_ErrorForCode = cl_ErrorForCode c\<rparr>"

text \<open>The admin client's two listings, which read the broker as it is.\<close>

record 'b Admin =
  ad_ListEndOffsets :: "'b \<Rightarrow> string list \<Rightarrow> ListedOffsets \<times> goerr option"
  ad_FetchOffsets :: "'b \<Rightarrow> string \<Rightarrow> OffsetResponses \<times> goerr option"

definition zero_offsets :: Offsets where
  "zero_offsets = \<lparr>of_Snapshot = [], of_Ends = []\<rparr>"

definition wired_probe :: "'b Admin \<Rightarrow> ('k, 'j, 'b) world \<Rightarrow> string list \<Rightarrow> ('k, 'j, 'b) world \<times> Offsets \<times> goerr option" where
  "wired_probe adm w topics =
     (case w of ((k, j, b), g) \<Rightarrow>
        (w, case Observe (ad_ListEndOffsets adm b) topics of Inl e \<Rightarrow> (zero_offsets, Some e) | Inr o' \<Rightarrow> (o', None)))"

definition wired_lag ::
  "'b Admin \<Rightarrow> ('k, 'j, 'b) world \<Rightarrow> string \<Rightarrow> (string, int list) gomap \<Rightarrow> ('k, 'j, 'b) world \<times> int \<times> goerr option" where
  "wired_lag adm w grp ends =
     (case w of ((k, j, b), g) \<Rightarrow>
        (w, case Lag (ad_FetchOffsets adm b) grp ends of Inl e \<Rightarrow> (0, Some e) | Inr n \<Rightarrow> (n, None)))"

definition wired_rest :: "'j REST \<Rightarrow> ('k, 'j, 'b) world JobProbe" where
  "wired_rest r =
     \<lparr>jp_Sources = (\<lambda>w ns name job. on_jobs (\<lambda>j. rest_Sources r j ns name job) w),
      jp_Read = (\<lambda>w ns name job src. on_jobs (\<lambda>j. rest_Read r j ns name job src) w)\<rparr>"

section \<open>The controller\<close>

definition run_reconciler ::
  "config \<Rightarrow> 'k Kube \<Rightarrow> ('k \<Rightarrow> time) \<Rightarrow> 'b Admin \<Rightarrow> 'b Client \<Rightarrow> 'j REST \<Rightarrow> ('k, 'j, 'b) world Reconciler" where
  "run_reconciler cfg kube Now adm client rest =
     \<lparr>rc_Client = wired_kube kube, rc_Prefix = cf_prefix cfg, rc_DryRun = cf_dryRun cfg,
      rc_Probe = wired_probe adm, rc_Lag = Some (wired_lag adm),
      rc_Flink = (if cf_flinkRest cfg then Some (wired_rest (rest\<lparr>re_URL := NewREST_URL (cf_flinkRestPort cfg)\<rparr>)) else None),
      rc_Gaps = Some (Records (wired_client client)), rc_Decider = run_decider cfg, rc_Recorder = True,
      rc_Now = (\<lambda>w. Now (fst (fst w))), rc_Reader = True, rc_Seen = True, rc_PollInterval = cf_pollInterval cfg,
      rc_ProbeTimeout = cf_probeTimeout cfg, rc_ResumeStallAfter = cf_stallAfter cfg, rc_Concurrency = cf_concurrency cfg\<rparr>"

text \<open>
  \<open>run\<close>: the manager, the Kafka client and the registration may fail, in this order; otherwise the
  controller is started and the result is what the manager ends with.
\<close>

record ('k, 'b) Runtime =
  rt_NewManager :: "Options \<Rightarrow> goerr + 'k Kube"
  rt_NewClient :: "Opt list \<Rightarrow> goerr + 'b Admin \<times> 'b Client"
  rt_SetupWithManager :: "goerr option"

definition NewKafka :: "('k, 'b) Runtime \<Rightarrow> Opt list \<Rightarrow> goerr + 'b Admin \<times> 'b Client" where
  "NewKafka rt opts = (case rt_NewClient rt opts of Inl e \<Rightarrow> Inl (wrap_error ''kafka client'' e) | Inr k \<Rightarrow> Inr k)"

definition run_setup ::
  "(string \<Rightarrow> string) \<Rightarrow> Flags \<Rightarrow> Host \<Rightarrow> ('k, 'b) Runtime \<Rightarrow> ('k \<Rightarrow> time) \<Rightarrow> 'j REST \<Rightarrow> goerr + ('k, 'j, 'b) world Reconciler" where
  "run_setup Getenv f h rt Now rest =
     (let cfg = parseFlags Getenv f
      in case rt_NewManager rt (run_options cfg) of
           Inl e \<Rightarrow> Inl (wrap_error ''manager'' e)
         | Inr kube \<Rightarrow>
           (case Opts h (run_kafka_config Getenv cfg) of
              Inl e \<Rightarrow> Inl e
            | Inr opts \<Rightarrow>
              (case NewKafka rt opts of
                 Inl e \<Rightarrow> Inl (wrap_error ''kafka probe'' e)
               | Inr (adm, client) \<Rightarrow>
                 (case rt_SetupWithManager rt of
                    Some e \<Rightarrow> Inl (wrap_error ''controller'' e)
                  | None \<Rightarrow> Inr (run_reconciler cfg kube Now adm client rest)))))"

lemma run_decider_defaults:
  "run_decider (parseFlags Getenv \<lparr>fl_String = Map.empty, fl_Bool = Map.empty, fl_Int = Map.empty, fl_Float64 = Map.empty, fl_Duration = Map.empty\<rparr>) = main_decider"
  by (simp add: run_decider_def parseFlags_def flag_or_def main_decider_def main_restart_policy_def)

section \<open>The parts stay apart\<close>

lemma on_kube_eq: "on_kube f w = (w', x) \<longleftrightarrow> (\<exists>k'. f (fst (fst w)) = (k', x) \<and> w' = ((k', snd (fst w)), snd w))"
  by (cases w) (auto simp: on_kube_def split: prod.splits)

lemma fst_on_kube: "fst (fst (fst (on_kube f w))) = fst (f (fst (fst w)))"
  by (auto simp: on_kube_def split: prod.splits)

lemma fst_on_jobs: "fst (fst (fst (on_jobs f w))) = fst (fst w)"
  by (auto simp: on_jobs_def split: prod.splits)

lemma on_broker_eq: "on_broker f w = (w', x) \<longleftrightarrow> (\<exists>b'. f (snd (snd w)) = (b', x) \<and> w' = (fst w, fst (snd w), b'))"
  by (cases w) (auto simp: on_broker_def split: prod.splits)

lemma creates_wired:
  assumes "creates_cm kube cms k"
  shows "creates_cm (wired_kube kube) (\<lambda>w. cms (fst (fst w))) k"
  unfolding creates_cm_def
proof (intro allI impI)
  fix w w' :: "('a, 'b, 'c) world" and r cm
  assume "k_CreateCM (wired_kube kube) w cm = (w', r) \<and> cm_key cm = k"
  then have "k_CreateCM kube (fst (fst w)) cm = (fst (fst w'), r) \<and> cm_key cm = k" by (auto simp: wired_kube_def on_kube_eq)
  with assms show "(\<forall>res. r = Inr res \<longrightarrow> cms (fst (fst w')) k = Some res \<and> cm_key res = k \<and> cm_Owners res = cm_Owners cm \<and> cm_Data res = cm_Data cm) \<and>
      (\<forall>e. r = Inl e \<longrightarrow> cms (fst (fst w')) k = cms (fst (fst w)) k)"
    unfolding creates_cm_def by blast
qed

lemma serves_wired:
  assumes "serves kube cms k"
  shows "serves (wired_kube kube) (\<lambda>w. cms (fst (fst w))) k"
proof -
  have parts: "reads_cm kube cms k" "creates_cm kube cms k" "patches_cm kube cms k" "deletes_cm kube cms k"
      "\<forall>w cm. cms w k = Some cm \<longrightarrow> cm_key cm = k" using assms by (simp_all add: serves_def)
  have "reads_cm (wired_kube kube) (\<lambda>w. cms (fst (fst w))) k"
    using parts(1) unfolding reads_cm_def by (clarsimp simp: wired_kube_def on_kube_eq)
  moreover have "patches_cm (wired_kube kube) (\<lambda>w. cms (fst (fst w))) k"
    using parts(3) unfolding patches_cm_def by (clarsimp simp: wired_kube_def on_kube_eq)
  moreover have "deletes_cm (wired_kube kube) (\<lambda>w. cms (fst (fst w))) k"
    using parts(4) unfolding deletes_cm_def by (clarsimp simp: wired_kube_def on_kube_eq)
  ultimately show ?thesis using parts creates_wired unfolding serves_def by blast
qed

text \<open>The gap probe reaches the broker only, so the API server is as it was after all its fetches.\<close>

lemma fetches_wired: "fst (fst (fetches (wired_client c) topic tid part leader from to n s w)) = fst w"
proof (induction n arbitrary: s w)
  case (Suc n)
  obtain w1 r where f: "cl_Fetch (wired_client c) w leader (fetch_request topic tid part (sc_next s)) = (w1, r)" by fastforce
  then have "fst w1 = fst w" by (auto simp: wired_client_def on_broker_eq)
  with Suc.IH f show ?case by (auto split: sum.split outcome.split)
qed simp

lemma Records_wired: "fst (fst (fst (Records (wired_client c) w topic part from to))) = fst (fst w)"
proof -
  obtain k j b g where w: "w = ((k, j, b), g)" by (metis prod.exhaust)
  obtain w1 md where m: "cl_Metadata (wired_client c) (k, j, b) topic = (w1, md)" by fastforce
  then have "fst w1 = k" by (auto simp: wired_client_def on_broker_eq)
  moreover have "fst w2 = fst w1" if "fetches (wired_client c) topic tid part leader from to gapFetches s w1 = (w2, res)" for tid leader s w2 res
    using fetches_wired[of c topic tid part leader "from" to gapFetches s w1] that by simp
  ultimately show ?thesis
    by (auto simp: Records_def w m Let_def split: sum.split prod.split)
qed

text \<open>What the API server promises about other calls: they do not change the ConfigMap.\<close>

definition keeps_cms :: "'k Kube \<Rightarrow> ('k \<Rightarrow> key \<Rightarrow> ConfigMap option) \<Rightarrow> key \<Rightarrow> bool" where
  "keeps_cms kube cms k \<longleftrightarrow>
     (\<forall>w q. cms (fst (k_Get kube w q)) k = cms w k) \<and> (\<forall>w q. cms (fst (k_Read kube w q)) k = cms w k) \<and>
     (\<forall>w fd p. cms (fst (k_Patch kube w fd p)) k = cms w k)"

lemma apart_wired:
  assumes "keeps_cms kube cms k"
  shows "apart (run_reconciler cfg kube Now adm client rest) (\<lambda>w. cms (fst (fst w))) k"
  using assms unfolding apart_def keeps_cms_def run_reconciler_def
  by (simp add: wired_kube_def fst_on_kube Records_wired wired_rest_def fst_on_jobs wired_probe_def wired_lag_def split: prod.split)

lemma gets_named_wired:
  assumes "\<forall>w w' fd. k_Get kube w req = (w', Inr fd) \<longrightarrow> object_key fd = req"
  shows "gets_named (run_reconciler cfg kube Now adm client rest) req"
  using assms by (auto simp: gets_named_def run_reconciler_def wired_kube_def on_kube_eq)

text \<open>
  C10. The whole program ticks. Whatever the flags, the environment and the files say, if the setup
  succeeds against a manager whose API server keeps the contract of ConfigMaps and answers a get with
  the object asked for, then every tick of the controller that was built returns, with all its probes
  in place: the end offsets, the lag, the gap probe with its fetches and the job's REST API, whatever
  the broker and the job answer.
\<close>

theorem wired_tick_returns:
  assumes "run_setup Getenv f h rt Now rest = Inr r"
    and "\<forall>opts kube. rt_NewManager rt opts = Inr kube \<longrightarrow>
       serves kube cms (req_key req) \<and> keeps_cms kube cms (req_key req) \<and>
       (\<forall>w w' fd. k_Get kube w req = (w', Inr fd) \<longrightarrow> object_key fd = req)"
  shows "\<exists>ps' res. Reconcile r req ps = Some (ps', res)"
proof -
  from assms(1) obtain opts kube adm client where
    kube: "rt_NewManager rt opts = Inr kube" and r: "r = run_reconciler (parseFlags Getenv f) kube Now adm client rest"
    by (auto simp: run_setup_def Let_def split: sum.splits option.splits)
  from assms(2) kube have k: "serves kube cms (req_key req)" "keeps_cms kube cms (req_key req)"
    "\<forall>w w' fd. k_Get kube w req = (w', Inr fd) \<longrightarrow> object_key fd = req" by blast+
  have "serves (rc_Client r) (\<lambda>w. cms (fst (fst w))) (req_key req)"
    unfolding r run_reconciler_def using serves_wired[OF k(1)] by simp
  then show ?thesis
    using apart_wired[OF k(2)] gets_named_wired[OF k(3)] unfolding r by (intro Reconcile_returns) auto
qed

end
