(* ===== verification/SafeSleep.thy ===== *)
theory SafeSleep
  imports Wiring
begin

text \<open>
  The whole program put together: a tick that suspends a job has asked the broker and the job, and what
  they said leaves no record unread. A tick depends on what a suspend patch does only if it makes one.
\<close>

section \<open>The tick that suspends\<close>

definition with_suspend_patch :: "('w \<Rightarrow> Object \<Rightarrow> MergePatch \<Rightarrow> 'w \<times> goerr option) \<Rightarrow> 'w Reconciler \<Rightarrow> 'w Reconciler" where
  "with_suspend_patch f r =
     with_patch (\<lambda>w fd p. if mp_Spec p = Some (JobState ''suspended'') then f w fd p else k_Patch (rc_Client r) w fd p) r"

lemma with_suspend_patch_indep [simp]:
  "requeue (with_suspend_patch f r) = requeue r" "emit (with_suspend_patch f r) = emit r"
  "observe (with_suspend_patch f r) = observe r" "report (with_suspend_patch f r) = report r"
  "load_memory (with_suspend_patch f r) = load_memory r"
  "Delete (rc_Client (with_suspend_patch f r)) = Delete (rc_Client r)"
  "Save (rc_Client (with_suspend_patch f r)) on fd st ss = Save (rc_Client r) on fd st ss"
  "k_Get (rc_Client (with_suspend_patch f r)) = k_Get (rc_Client r)"
  "rc_Prefix (with_suspend_patch f r) = rc_Prefix r" "rc_DryRun (with_suspend_patch f r) = rc_DryRun r"
  "rc_Seen (with_suspend_patch f r) = rc_Seen r" "rc_Flink (with_suspend_patch f r) = rc_Flink r"
  "rc_Now (with_suspend_patch f r) = rc_Now r" "rc_Decider (with_suspend_patch f r) = rc_Decider r"
  by (simp_all add: with_suspend_patch_def with_patch_def)

lemma merge_no_suspend:
  "spec \<noteq> Some (JobState ''suspended'') \<Longrightarrow> merge (the_patcher (with_suspend_patch f r)) fd s spec ps = merge (the_patcher r) fd s spec ps"
  by (simp add: merge_def the_patcher_def with_suspend_patch_def with_patch_def patch_body_def Let_def split: prod.split option.split sum.split)

lemma annotate_no_suspend: "annotate (the_patcher (with_suspend_patch f r)) fd s ps = annotate (the_patcher r) fd s ps"
  using merge_no_suspend[of None f r fd s ps] by (simp add: annotate_def the_patcher_def with_suspend_patch_def with_patch_def)

lemma events_no_suspend:
  "patch_event (the_patcher (with_suspend_patch f r)) = patch_event (the_patcher r)"
  "recorded (the_patcher (with_suspend_patch f r)) = recorded (the_patcher r)"
  by (simp_all add: fun_eq_iff patch_event_def recorded_def the_patcher_def with_suspend_patch_def with_patch_def split: option.split)

lemma act_no_suspend:
  assumes "d_Action d \<noteq> Suspend"
  shows "act (with_suspend_patch f r) fd prev found d ps = act r fd prev found d ps"
proof -
  have "write_object (with_suspend_patch f r) fd d ps = write_object r fd d ps"
    using assms by (cases "d_Action d")
      (simp_all add: write_object_def resume_def restart_def refuse_def markUnrecoverable_def merge_no_suspend annotate_no_suspend events_no_suspend)
  then show ?thesis by (simp add: act_def split: prod.split option.split)
qed

lemma finish_no_suspend:
  assumes "d_Action (Decide (rc_Decider r) pol prev live obs now) \<noteq> Suspend"
  shows "finish (with_suspend_patch f r) req fd pol prev found live obs now ps = finish r req fd pol prev found live obs now ps"
  using assms by (auto simp: finish_def Let_def act_no_suspend split: prod.split)

lemma release_no_suspend: "release (with_suspend_patch f r) = release r"
  by (simp add: fun_eq_iff release_def clear_def resume_def forget_def merge_no_suspend events_no_suspend Let_def split: prod.split option.split)

lemma refuse_no_suspend: "refuseInvalidPolicy (with_suspend_patch f r) = refuseInvalidPolicy r"
  by (simp add: fun_eq_iff refuseInvalidPolicy_def annotate_no_suspend Let_def split: prod.split option.split)

text \<open>A tick that makes a suspend patch has read the policy and memory, observed, and decided so.\<close>

lemma Reconcile_suspends:
  assumes "Reconcile (with_suspend_patch f r) req ps \<noteq> Reconcile r req ps"
    and "k_Get (rc_Client r) (ss_world ps) req = (w, Inr fd)" and "Read (rc_Prefix r) (u_Annotations fd) = Some pol"
  obtains prev found ps1 ps2 obs pol1 prev1 where
    "load_memory r fd (Live fd) (rc_Now r w) (ps\<lparr>ss_world := w\<rparr>) = (ps1, Inr (prev, found))"
    "observe r req pol prev (Live fd) ps1 = (ps2, obs, pol1, prev1)"
    "d_Action (Decide (rc_Decider r) pol1 prev1 (Live fd) obs (rc_Now r w)) = Suspend"
proof -
  let ?now = "rc_Now r w" and ?ps = "ps\<lparr>ss_world := w\<rparr>"
  let ?q = "problem (rc_Prefix r @ ''/sources: auto needs the job's REST API, which --flink-rest=false switched off'') pol"
  obtain ps1 loaded' where l: "load_memory r fd (Live fd) ?now ?ps = (ps1, loaded')" by (rule prod.exhaust)
  obtain prev found where m: "loaded' = Inr (prev, found)"
    using assms by (cases loaded') (auto simp: Reconcile_def l release_no_suspend Let_def)
  have auto: "\<not> (p_SourcesAuto pol \<and> Option.is_none (rc_Flink r))"
  proof
    assume "p_SourcesAuto pol \<and> Option.is_none (rc_Flink r)"
    moreover have "p_Problems ?q \<noteq> []" by (simp add: problem_def)
    ultimately show False using assms by (simp add: Reconcile_def l m Let_def refuse_no_suspend)
  qed
  obtain ps2 obs pol1 prev1 where o': "observe r req pol prev (Live fd) ps1 = (ps2, obs, pol1, prev1)" by (metis prod_cases4)
  have "d_Action (Decide (rc_Decider r) pol1 prev1 (Live fd) obs ?now) = Suspend"
  proof (rule ccontr)
    assume "d_Action (Decide (rc_Decider r) pol1 prev1 (Live fd) obs ?now) \<noteq> Suspend"
    then show False
      using assms auto by (simp add: Reconcile_def l m o' Let_def refuse_no_suspend finish_no_suspend split: if_splits)
  qed
  with l m o' that show thesis by blast
qed

text \<open>Conversely, two answers to a suspend patch that differ show in the result of such a tick.\<close>

text \<open>A suspend that fails for another reason than a conflict ends the tick with that error.\<close>

definition suspend_fails :: "'w Reconciler \<Rightarrow> goerr \<Rightarrow> bool" where
  "suspend_fails r e \<longleftrightarrow> \<not> e_Conflict e \<and>
     (\<forall>w fd p. mp_Spec p = Some (JobState ''suspended'') \<longrightarrow> snd (k_Patch (rc_Client r) w fd p) = Some e)"

lemma finish_suspend_fails:
  assumes "suspend_fails r e" and "d_Action (Decide (rc_Decider r) pol prev live obs now) = Suspend"
    and "\<not> rc_DryRun r" and "\<not> p_DryRun pol"
  shows "\<exists>ps'. finish r req fd pol prev found live obs now ps = Some (ps', result_error e)"
proof -
  have m: "\<exists>ps'. merge (the_patcher r) fd s (Some (JobState ''suspended'')) ps = (ps', Some e)" for s ps
  proof -
    obtain w1 where "k_Patch (rc_Client r) (ss_world ps) fd (patch_body (the_patcher r) s (u_ResourceVersion fd) (Some (JobState ''suspended''))) = (w1, Some e)"
      using assms(1) by (metis (no_types, lifting) prod.collapse suspend_fails_def patch_body_def MergePatch.select_convs(3))
    then show ?thesis using assms(1) by (simp add: merge_def the_patcher_def suspend_fails_def)
  qed
  have "\<exists>ps'. act r fd prev found d ps = Some (ps', result_error e)" if "d_Action d = Suspend" for d ps
    using that m[of "d_Next d" ps] by (auto simp: act_def humanVisible_def acted_def write_object_def suspend_def)
  with assms(2-4) show ?thesis by (simp add: finish_def Let_def split: prod.split)
qed

lemma Reconcile_finish:
  assumes "k_Get (rc_Client r) (ss_world ps) req = (w, Inr fd)" and "Read (rc_Prefix r) (u_Annotations fd) = Some pol"
    and "p_Problems pol = []" and "\<not> p_SourcesAuto pol"
    and "load_memory r fd (Live fd) (rc_Now r w) (ps\<lparr>ss_world := w\<rparr>) = (ps1, Inr (prev, found))"
    and "observe r req pol prev (Live fd) ps1 = (ps2, obs, pol1, prev1)"
  shows "Reconcile r req ps = finish r req fd pol1 prev1 found (Live fd) obs (rc_Now r w) ps2"
  using assms by (simp add: Reconcile_def Let_def)

lemma Reconcile_suspend_fails:
  assumes "k_Get (rc_Client r) (ss_world ps) req = (w, Inr fd)" and "Read (rc_Prefix r) (u_Annotations fd) = Some pol"
    and "p_Problems pol = []" and "\<not> p_SourcesAuto pol" and "\<not> rc_DryRun r" and "\<not> p_DryRun pol"
    and "load_memory r fd (Live fd) (rc_Now r w) (ps\<lparr>ss_world := w\<rparr>) = (ps1, Inr (prev, found))"
    and "observe r req pol prev (Live fd) ps1 = (ps2, obs, pol1, prev1)"
    and "d_Action (Decide (rc_Decider r) pol1 prev1 (Live fd) obs (rc_Now r w)) = Suspend"
    and "suspend_fails r e" and "\<not> e_Conflict e'" and "e \<noteq> e'"
  shows "Reconcile (with_suspend_patch (\<lambda>w fd p. (w, Some e')) r) req ps \<noteq> Reconcile r req ps"
proof -
  let ?f = "\<lambda>w fd p. (w, Some e')"
  have dry: "\<not> p_DryRun pol1" using observe_policy[OF assms(8)] assms(6) by simp
  note here = Reconcile_finish[OF assms(1-4,7,8)]
  have there: "Reconcile (with_suspend_patch ?f r) req ps = finish (with_suspend_patch ?f r) req fd pol1 prev1 found (Live fd) obs (rc_Now r w) ps2"
    using Reconcile_finish[of "with_suspend_patch ?f r"] assms(1-4,7,8) by simp
  have "suspend_fails (with_suspend_patch ?f r) e'"
    using assms(11) by (simp add: suspend_fails_def with_suspend_patch_def with_patch_def)
  then obtain ps3 where "finish (with_suspend_patch ?f r) req fd pol1 prev1 found (Live fd) obs (rc_Now r w) ps2 = Some (ps3, result_error e')"
    using finish_suspend_fails[of "with_suspend_patch ?f r"] assms(5,9) dry by simp blast
  moreover obtain ps4 where "finish r req fd pol1 prev1 found (Live fd) obs (rc_Now r w) ps2 = Some (ps4, result_error e)"
    using finish_suspend_fails[OF assms(10,9,5) dry] by blast
  moreover have "result_error e \<noteq> result_error e'" using assms(12) by (simp add: result_error_def)
  ultimately show ?thesis unfolding here there by simp
qed

lemma observe_idle_from_job: "observe r req pol prev live ps = (ps', obs, pol', prev') \<Longrightarrow> p_IdleFromJob pol' = p_IdleFromJob pol"
  by (auto simp: observe_def Let_def split: prod.splits if_splits)

lemma Decide_suspend_gates:
  assumes "d_Action (Decide d p s live obs now) = Suspend" and "p_IdleFromJob p"
  shows "ob_Known obs \<and> ob_ReadingKnown obs \<and> fst (jobGate (p_Sources p) (ob_Ends obs) (ob_Reading obs) (quiet d)) = JobIdle"
  using assms Decide_active_only[of Suspend d p s live obs now]
  by (auto simp: decide_active_suspend decide_idle_action gate_job_idle split: if_splits)

section \<open>What was asked\<close>

lemma jobSources_world:
  "jobSources r req live ps = (ps', x) \<Longrightarrow> ss_world ps' = ss_world ps \<or>
     (\<exists>rest. rc_Flink r = Some rest \<and> ss_world ps' = fst (jp_Sources rest (ss_world ps) (fst req) (snd req) (l_JobID live)))"
  by (auto simp: jobSources_def Let_def timed_def known_def setJob_def split: option.splits if_splits prod.splits)

lemma observe_lag_world:
  "observe_lag r pol obs ps = (ps', obs') \<Longrightarrow> ss_world ps' = ss_world ps \<or>
     (\<exists>lag. rc_Lag r = Some lag \<and> ss_world ps' = fst (lag (ss_world ps) (p_ConsumerGroup pol) (ob_Ends obs)))"
  by (auto simp: observe_lag_def timed_def known_def split: option.splits if_splits prod.splits)

lemma answered_world: "known kind err (timed kind ps w) = (ps', ok) \<Longrightarrow> ss_world ps' = w"
  by (auto simp: known_def timed_def split: option.splits)

lemma observe_lag_keeps: "observe_lag r pol obs ps = (ps', obs') \<Longrightarrow> ob_Ends obs' = ob_Ends obs \<and> ob_Known obs' = ob_Known obs \<and> ob_ReadingKnown obs' = ob_ReadingKnown obs"
  by (auto simp: observe_lag_def split: option.splits if_splits prod.splits)

context tick_frame
begin

text \<open>A known reading is one the job gave without error, before the questions about drained partitions.\<close>

lemma reading_asked:
  assumes "observe_reading r req pol live job jobKnown obs ps = (ps', obs')" and "\<not> ob_ReadingKnown obs" and "ob_ReadingKnown obs'"
  obtains rest w reading ps1 dr where
    "ob_Known obs" "rc_Flink r = Some rest" "jp_Read rest (ss_world ps) (fst req) (snd req) (l_JobID live) job = (w, reading, None)"
    "R ps ps1" "drained r (p_Sources pol) (ob_Ends obs) reading ps1 = (ps', dr)"
    "ob_Reading obs' = reading\<lparr>jr_Drained := dr\<rparr>" "ob_Ends obs' = ob_Ends obs"
proof -
  from assms(1,2,3) obtain rest where rest: "ob_Known obs" "rc_Flink r = Some rest" "jobKnown" "p_IdleFromJob pol"
    by (auto simp: observe_reading_def Let_def split: if_splits option.splits)
  obtain w reading err where rd: "jp_Read rest (ss_world ps) (fst req) (snd req) (l_JobID live) job = (w, reading, err)" by (metis prod_cases3)
  obtain ps1 ok where k: "known ''flink-rest'' err (timed ''flink-rest'' ps w) = (ps1, ok)" by (rule prod.exhaust)
  have "err = None"
    using assms(1,3) rest rd k by (auto simp: observe_reading_def Let_def known_def split: option.splits)
  moreover obtain ps2 dr where dr: "drained r (p_Sources pol) (ob_Ends obs) reading ps1 = (ps2, dr)" by (rule prod.exhaust)
  ultimately have "ps2 = ps'" "ob_Reading obs' = reading\<lparr>jr_Drained := dr\<rparr>" "ob_Ends obs' = ob_Ends obs"
    using assms(1) rest rd k by (auto simp: observe_reading_def Let_def)
  moreover have "R ps ps1" using answered[OF asks_reading[OF rest(2) rd] k] .
  ultimately show thesis using that rest rd dr \<open>err = None\<close> by blast
qed

lemma observation_asked:
  assumes "observe r req pol prev live ps = (ps', obs, pol1, prev1)" and "ob_ReadingKnown obs"
  obtains w0 wa offsets rest wr src wr' reading ps1 dr where
    "rc_Probe r w0 (p_Sources pol1) = (wa, offsets, None)"
    "rc_Flink r = Some rest" "jp_Read rest wr (fst req) (snd req) (l_JobID live) src = (wr', reading, None)"
    "R ps ps1" "drained r (p_Sources pol1) (of_Ends offsets) reading ps1 = (ps', dr)"
    "ob_Ends obs = of_Ends offsets" "ob_Reading obs = reading\<lparr>jr_Drained := dr\<rparr>"
    "if p_SourcesAuto pol then p_Sources pol1 \<noteq> [] else p_Sources pol1 = p_Sources pol"
    "w0 = ss_world ps \<or> w0 = fst (jp_Sources rest (ss_world ps) (fst req) (snd req) (l_JobID live))"
    "wr = wa \<or> (\<exists>lag. rc_Lag r = Some lag \<and> wr = fst (lag wa (p_ConsumerGroup pol1) (of_Ends offsets)))"
proof -
  obtain ps1 job jobKnown settled where 1: "jobSources r req live ps = (ps1, job, jobKnown, settled)" by (metis prod_cases4)
  obtain ps2 prev2 where 2: "observe_sources r pol prev live job settled ps1 = (ps2, prev2)" by (rule prod.exhaust)
  let ?pol = "if p_SourcesAuto pol then pol\<lparr>p_Sources := s_Sources prev2\<rparr> else pol"
  have learned: "\<not> (p_SourcesAuto pol \<and> p_Sources ?pol = [])"
    using assms by (auto simp: observe_def 1 2 zero_observation_def)
  obtain w offsets err where 3: "rc_Probe r (ss_world ps2) (p_Sources ?pol) = (w, offsets, err)" by (metis prod_cases3)
  obtain ps3 ok where 4: "known ''offsets'' err (timed ''offsets'' ps2 w) = (ps3, ok)" by (rule prod.exhaust)
  let ?obs = "zero_observation\<lparr>ob_Snapshot := of_Snapshot offsets, ob_Ends := of_Ends offsets, ob_Known := ok\<rparr>"
  obtain ps4 obs4 where 5: "observe_lag r ?pol ?obs ps3 = (ps4, obs4)" by (rule prod.exhaust)
  obtain ps5 obs5 where 6: "observe_reading r req ?pol live job jobKnown obs4 ps4 = (ps5, obs5)" by (rule prod.exhaust)
  have "observe r req pol prev live ps = (ps5, obs5, ?pol, prev2)"
    unfolding observe_def 1 2 Let_def prod.case if_not_P[OF learned] 3 4 5 6 by (rule refl)
  with assms(1) have eq: "ps5 = ps'" "obs5 = obs" "pol1 = ?pol" by simp_all
  have lag: "ob_Ends obs4 = of_Ends offsets" "ob_Known obs4 = ok" "\<not> ob_ReadingKnown obs4"
    using observe_lag_keeps[OF 5] by (simp_all add: zero_observation_def)
  from reading_asked[OF 6 lag(3)] assms(2) eq(2) obtain rest wr' reading ps6 dr where rd:
    "ob_Known obs4" "rc_Flink r = Some rest" "jp_Read rest (ss_world ps4) (fst req) (snd req) (l_JobID live) job = (wr', reading, None)"
    "R ps4 ps6" "drained r (p_Sources ?pol) (ob_Ends obs4) reading ps6 = (ps5, dr)"
    "ob_Reading obs = reading\<lparr>jr_Drained := dr\<rparr>" "ob_Ends obs = ob_Ends obs4" by metis
  have probe: "rc_Probe r (ss_world ps2) (p_Sources pol1) = (w, offsets, None)"
    using rd(1) lag(2) 3 4 eq(3) by (auto simp: known_def split: option.splits)
  have kept: "R ps ps6"
    using after[OF after[OF after[OF after[OF job_sources[OF 1] observes_sources[OF 2]] answered[OF asks_offsets[OF 3] 4]] observes_lag[OF 5]] rd(4)] .
  have "drained r (p_Sources pol1) (of_Ends offsets) reading ps6 = (ps', dr)" "ob_Ends obs = of_Ends offsets"
    "if p_SourcesAuto pol then p_Sources pol1 \<noteq> [] else p_Sources pol1 = p_Sources pol"
    using rd(5,7) lag(1) eq learned by auto
  note asked = this
  have "ss_world ps2 = ss_world ps1" using still.observes_sources[OF 2] by blast
  with jobSources_world[OF 1] rd(2)
  have w0: "ss_world ps2 = ss_world ps \<or> ss_world ps2 = fst (jp_Sources rest (ss_world ps) (fst req) (snd req) (l_JobID live))" by auto
  have wr: "ss_world ps4 = w \<or> (\<exists>lag. rc_Lag r = Some lag \<and> ss_world ps4 = fst (lag w (p_ConsumerGroup pol1) (of_Ends offsets)))"
    using observe_lag_world[OF 5] answered_world[OF 4] unfolding eq(3) by simp
  from that[OF probe rd(2,3) kept asked(1,2) rd(6) asked(3) w0 wr] show thesis .
qed

end

section \<open>The remembered ranges stay right\<close>

text \<open>Only the gap probe touches the ranges it remembers.\<close>

definition gaps_private :: "('w \<times> gaps) Reconciler \<Rightarrow> 'w Client \<Rightarrow> bool" where
  "gaps_private r k \<longleftrightarrow>
     rc_Gaps r = Some (Records k) \<and>
     (\<forall>w q. snd (fst (k_Get (rc_Client r) w q)) = snd w) \<and> (\<forall>w q. snd (fst (k_ReadCM (rc_Client r) w q)) = snd w) \<and>
     (\<forall>w topics. snd (fst (rc_Probe r w topics)) = snd w) \<and>
     (\<forall>lag w grp ends. rc_Lag r = Some lag \<longrightarrow> snd (fst (lag w grp ends)) = snd w) \<and>
     (\<forall>rest w ns name job. rc_Flink r = Some rest \<longrightarrow> snd (fst (jp_Sources rest w ns name job)) = snd w) \<and>
     (\<forall>rest w ns name job src. rc_Flink r = Some rest \<longrightarrow> snd (fst (jp_Read rest w ns name job src)) = snd w)"

lemma gaps_private_calls:
  assumes "gaps_private r k"
  shows "rc_Gaps r = Some (Records k)"
    and "k_Get (rc_Client r) w q = (w', x1) \<Longrightarrow> snd w' = snd w"
    and "k_ReadCM (rc_Client r) w q = (w', x2) \<Longrightarrow> snd w' = snd w"
    and "rc_Probe r w topics = (w', x3) \<Longrightarrow> snd w' = snd w"
    and "rc_Lag r = Some lag \<Longrightarrow> lag w grp ends = (w', x4) \<Longrightarrow> snd w' = snd w"
    and "rc_Flink r = Some rest \<Longrightarrow> jp_Sources rest w ns name job = (w', x5) \<Longrightarrow> snd w' = snd w"
    and "rc_Flink r = Some rest \<Longrightarrow> jp_Read rest w ns name job src = (w', x6) \<Longrightarrow> snd w' = snd w"
  using assms unfolding gaps_private_def by (metis fst_conv)+

lemma served_ranges: "snd w' = snd w \<Longrightarrow> served k logs w \<Longrightarrow> served k logs w'"
  by (simp add: served_def)

definition served_still :: "('w \<times> gaps) Reconciler \<Rightarrow> 'w Client \<Rightarrow> (string \<Rightarrow> int \<Rightarrow> RecordBatch list \<times> Txn list) \<Rightarrow>
    ('w \<times> gaps) Proc \<Rightarrow> ('w \<times> gaps) Proc \<Rightarrow> bool" where
  "served_still r k logs ps ps' \<longleftrightarrow> (gaps_private r k \<longrightarrow> served k logs (ss_world ps) \<longrightarrow> served k logs (ss_world ps'))"

lemma gap_asked_served:
  assumes "rc_Gaps r = Some gaps" and "gaps_private r k" and "gaps w topic p from to = (w', x)" and "served k logs w"
  shows "served k logs w'"
proof -
  have g: "gaps = Records k" using assms(1) gaps_private_calls(1)[OF assms(2)] by simp
  obtain c h c' h' ans err where "w = (c, h)" "w' = (c', h')" "x = (ans, err)" by (metis prod.exhaust)
  with assms(3,4) g served_kept[of k logs c h topic p "from" to c' h' ans err] show ?thesis by simp
qed

interpretation served_frame: tick_frame "served_still r k logs" r for r k logs
  by unfold_locales
     (auto simp: served_still_def setJob_def memo_tick_def elim: gap_asked_served[rotated -1]
       dest: gaps_private_calls(4-7) intro: served_ranges)

section \<open>Positions within bounds\<close>

abbreviation positions_fine :: "JobReading \<Rightarrow> bool" where
  "positions_fine reading \<equiv> list_all (\<lambda>(topic, cur). emitted_ok cur) (jr_Offsets reading)"

definition aggregate_ok :: "aggregate \<Rightarrow> bool" where
  "aggregate_ok a \<longleftrightarrow> (offsetMetric (ag_ID a) = None \<or> -1 \<le> float_to_int64 (ag_Max a) \<and> float_to_int64 (ag_Max a) < maxInt64)"

lemma list_all_map_put: "list_all P m \<Longrightarrow> P (k, v) \<Longrightarrow> list_all P (map_put k v m)"
  by (auto simp: map_put_def list_all_iff)

lemma add_offset_fine:
  assumes "list_all (\<lambda>(topic, cur). emitted_ok cur) m" and "-1 \<le> off" and "off < maxInt64"
  shows "list_all (\<lambda>(topic, cur). emitted_ok cur) (add_offset t p off m)"
proof (cases "map_of m t")
  case None
  with assms show ?thesis by (auto simp: add_offset_def emitted_ok_def intro!: list_all_map_put)
next
  case (Some cur)
  then have "emitted_ok cur" using assms(1) by (auto simp: list_all_iff dest!: map_of_SomeD)
  then have "emitted_ok (map_put p off cur)" using assms(2,3) unfolding emitted_ok_def by (intro list_all_map_put) auto
  with Some assms(1) show ?thesis unfolding add_offset_def by (intro list_all_map_put) auto
qed

lemma take_aggregate_fine:
  assumes "positions_fine (fst st)" and "aggregate_ok a"
  shows "positions_fine (fst (take_aggregate a st))"
  using assms by (auto simp: take_aggregate_def aggregate_ok_def Let_def split: prod.split option.split intro!: add_offset_fine)

lemma fold_aggregates_fine:
  "positions_fine (fst st) \<Longrightarrow> list_all aggregate_ok agg \<Longrightarrow> positions_fine (fst (fold take_aggregate agg st))"
proof (induction agg arbitrary: st)
  case (Cons a agg)
  then show ?case using take_aggregate_fine[of st a] by simp
qed simp

lemma rest_get_answer: "rest_get r Decode u w = (w', Inr x) \<Longrightarrow> \<exists>b. Decode b = Inr x"
  by (auto simp: rest_get_def split: sum.splits prod.splits if_splits)

text \<open>A job whose aggregates say positions within bounds.\<close>

definition aggregates_ok :: "'w REST \<Rightarrow> bool" where
  "aggregates_ok r \<longleftrightarrow> (\<forall>b agg. re_aggregates r b = Inr agg \<longrightarrow> list_all aggregate_ok agg)"

lemma aggregated_from_fine:
  assumes "aggregates_ok r" and "aggregated_from r base path ids agg w = (w', Inr res)" and "list_all aggregate_ok agg"
  shows "list_all aggregate_ok res"
  using assms
proof (induction r base path ids agg w rule: aggregated_from.induct)
  case (1 r base path ids agg w)
  let ?n = "request_ids 0 (first_size path) ids"
  obtain w1 x where g: "rest_get r (re_aggregates r) (base @ aggregate_url path (take ?n ids)) w = (w1, x)" by (rule prod.exhaust)
  show ?case
  proof (cases "ids = [] \<or> (\<exists>e. x = Inl e)")
    case True
    with "1.prems" g show ?thesis by (auto simp: aggregated_from.simps[of r base path ids agg w] Let_def split: if_splits)
  next
    case False
    then obtain part where x: "x = Inr part" by (cases x) auto
    from rest_get_answer[OF g[unfolded x]] obtain b where "re_aggregates r b = Inr part" by blast
    then have "list_all aggregate_ok (agg @ part)" using "1.prems"(1,3) by (auto simp: aggregates_ok_def)
    moreover have "aggregated_from r base path (drop ?n ids) (agg @ part) w1 = (w', Inr res)"
      using "1.prems"(2) False g x by (simp add: aggregated_from.simps[of r base path ids agg w] Let_def)
    ultimately show ?thesis using "1.IH"[OF _ refl g[symmetric] x] False "1.prems"(1) by blast
  qed
qed

lemma read_vertex_fine:
  assumes "aggregates_ok r" and "read_vertex r base jobID v out w = (w', Inr out')" and "positions_fine out"
  shows "positions_fine out'"
proof -
  obtain w1 ids where n: "metricNames r base jobID v w = (w1, Inr ids)"
    using assms(2) by (auto simp: read_vertex_def split: prod.splits sum.splits)
  obtain w2 agg where a: "aggregated r base jobID v (filter wanted ids) w1 = (w2, Inr agg)"
    using assms(2) n by (auto simp: read_vertex_def Let_def split: prod.splits sum.splits if_splits)
  have "list_all aggregate_ok agg"
    using a aggregated_from_fine[OF assms(1)] by (force simp: aggregated_def split: prod.splits sum.splits if_splits)
  moreover have "out' = fst (fold take_aggregate agg (out, False))"
    using assms(2) n a by (auto simp: read_vertex_def Let_def split: prod.splits sum.splits if_splits)
  ultimately show ?thesis using fold_aggregates_fine[of "(out, False)" agg] assms(3) by simp
qed

lemma rest_Read_fine:
  assumes "aggregates_ok r" and "rest_Read r j ns name job src = (j', reading, None)"
  shows "positions_fine reading"
proof -
  have "positions_fine out'" if "read_vertices r base jobID vs out w = (w', Inr out')" "positions_fine out" for base jobID vs out w w' out'
    using that read_vertex_fine[OF assms(1)]
    by (induction vs arbitrary: out w) (auto split: prod.splits sum.splits)
  then show ?thesis
    using assms(2) unfolding rest_Read_def
    by (fastforce simp: zero_reading_def split: if_splits prod.splits sum.splits)
qed

section \<open>The program\<close>

lemma snd_on_parts: "snd (fst (on_kube f w)) = snd w" "snd (fst (on_jobs f' w)) = snd w"
  by (auto simp: on_kube_def on_jobs_def split: prod.splits)

lemma wired_probe_world: "fst (wired_probe adm w topics) = w" "fst (wired_lag adm w grp ends) = w"
  by (auto simp: wired_probe_def wired_lag_def split: prod.split)

lemma gaps_private_wired: "gaps_private (run_reconciler cfg kube Now adm client rest) (wired_client client)"
  by (simp add: gaps_private_def run_reconciler_def wired_kube_def wired_rest_def snd_on_parts wired_probe_world)

text \<open>What reading memory does to the world: one call to the API server.\<close>

lemma load_memory_world:
  "load_memory r fd live now ps = (ps', x) \<Longrightarrow> ss_world ps' = fst (k_ReadCM (rc_Client r) (ss_world ps) (store_key fd))"
  by (auto simp: load_memory_def Load_def seen_put_def seen_drop_def Let_def split: prod.splits sum.splits if_splits)

text \<open>The sum of the end offsets of some topics, and the job's probe as the flags set it up.\<close>

abbreviation total_ends :: "Offsets \<Rightarrow> string list \<Rightarrow> int" where
  "total_ends offsets topics \<equiv> sum_list (map (\<lambda>t. end_sum (ends_of (of_Ends offsets) t)) topics)"

abbreviation run_rest :: "config \<Rightarrow> 'j REST \<Rightarrow> 'j REST" where
  "run_rest cfg rest \<equiv> rest\<lparr>re_URL := NewREST_URL (cf_flinkRestPort cfg)\<rparr>"


end
