(* ===== verification/PatcherProps.thy ===== *)
theory PatcherProps
  imports TickFrame
begin

text \<open>
  What the conditional patch guarantees, for a server that checks resource versions, and what is
  left of a deployment whose policy was removed.
\<close>

section \<open>The contract of the server for objects\<close>

text \<open>What a merge patch makes of an object: the named annotations, the one spec field, nothing else we read.\<close>

definition applied :: "MergePatch \<Rightarrow> Object \<Rightarrow> Object \<Rightarrow> bool" where
  "applied p cur new \<longleftrightarrow>
     object_key new = object_key cur \<and> u_UID new = u_UID cur \<and>
     (\<forall>a. map_of (u_Annotations new) a =
        (case map_of (mp_Annotations p) a of None \<Rightarrow> map_of (u_Annotations cur) a | Some v \<Rightarrow> v)) \<and>
     u_NestedString new spec_job_state =
       (case mp_Spec p of Some (JobState s) \<Rightarrow> s | _ \<Rightarrow> u_NestedString cur spec_job_state) \<and>
     u_NestedInt64 new [''spec'', ''restartNonce''] =
       (case mp_Spec p of Some (RestartNonce n) \<Rightarrow> n | _ \<Rightarrow> u_NestedInt64 cur [''spec'', ''restartNonce''])"

text \<open>
  A patch that succeeds found the object at the resource version it names. Nothing is said of
  what others do to the object between two calls, or during a read.
\<close>

definition conditional :: "'w Kube \<Rightarrow> ('w \<Rightarrow> key \<Rightarrow> Object option) \<Rightarrow> key \<Rightarrow> bool" where
  "conditional kube objs k \<longleftrightarrow>
     (\<forall>w w' fd p. k_Patch kube w fd p = (w', None) \<and> object_key fd = k \<longrightarrow>
        (\<exists>cur new. objs w k = Some cur \<and> u_ResourceVersion cur = mp_ResourceVersion p \<and>
                   objs w' k = Some new \<and> applied p cur new)) \<and>
     (\<forall>w w' fresh. k_Read kube w k = (w', Inr fresh) \<longrightarrow> object_key fresh = k)"

text \<open>
  A resource version stands for one content: if the server, when the write begins, still has the
  version the decision was made on, it has that object; and if it still has the version a
  fresh read returned when the read is over, it has what was read.
\<close>

definition versioned :: "'w Kube \<Rightarrow> ('w \<Rightarrow> key \<Rightarrow> Object option) \<Rightarrow> Object \<Rightarrow> 'w \<Rightarrow> bool" where
  "versioned kube objs fd w0 \<longleftrightarrow>
     (\<forall>cur. objs w0 (object_key fd) = Some cur \<and> u_ResourceVersion cur = u_ResourceVersion fd \<longrightarrow> cur = fd) \<and>
     (\<forall>w w' fresh cur. k_Read kube w (object_key fd) = (w', Inr fresh) \<and> objs w' (object_key fd) = Some cur \<and>
        u_ResourceVersion cur = u_ResourceVersion fresh \<longrightarrow> cur = fresh)"

lemma conditional_patch:
  assumes "conditional kube objs (object_key fd)" and "k_Patch kube w o' p = (w', None)" and "object_key o' = object_key fd"
  obtains cur new where "objs w (object_key fd) = Some cur" "u_ResourceVersion cur = mp_ResourceVersion p"
    "objs w' (object_key fd) = Some new" "applied p cur new"
  using assms unfolding conditional_def by blast

lemma patch_body_sel [simp]:
  "mp_ResourceVersion (patch_body p s rv spec) = rv" "mp_Spec (patch_body p s rv spec) = spec"
  by (simp_all add: patch_body_def)

section \<open>A write lands on the state it was decided on\<close>

lemma merge_lands:
  assumes "conditional (pt_Client p) objs (object_key fd)" and "versioned (pt_Client p) objs fd (ss_world ps)"
    and "merge p fd s spec ps = (ps', None)"
  obtains w cur new rv where "objs w (object_key fd) = Some cur" "objs (ss_world ps') (object_key fd) = Some new"
    "u_NestedString cur spec_job_state = u_NestedString fd spec_job_state" "applied (patch_body p s rv spec) cur new"
proof -
  let ?k = "object_key fd"
  obtain w1 err where p1: "k_Patch (pt_Client p) (ss_world ps) fd (patch_body p s (u_ResourceVersion fd) spec) = (w1, err)"
    by (rule prod.exhaust)
  show thesis
  proof (cases err)
    case None
    with assms(3) p1 have ps': "ss_world ps' = w1" by (auto simp: merge_def Let_def)
    obtain cur new where o: "objs (ss_world ps) ?k = Some cur" "u_ResourceVersion cur = u_ResourceVersion fd"
      "objs w1 ?k = Some new" "applied (patch_body p s (u_ResourceVersion fd) spec) cur new"
      using conditional_patch[OF assms(1) p1[unfolded None] refl] by auto
    then have "cur = fd" using assms(2) unfolding versioned_def by blast
    with o ps' that show thesis by blast
  next
    case (Some e)
    with assms(3) p1 have c: "e_Conflict e" "pt_Reader p" by (auto simp: merge_def Let_def split: if_splits)
    obtain w2 r where rd: "k_Read (pt_Client p) w1 ?k = (w2, r)" by (rule prod.exhaust)
    with assms(3) p1 Some c obtain fresh where fr: "r = Inr fresh" by (cases r) (auto simp: merge_def Let_def)
    obtain w3 err3 where p3: "k_Patch (pt_Client p) w2 fresh (patch_body p s (u_ResourceVersion fresh) spec) = (w3, err3)"
      by (rule prod.exhaust)
    have same: "u_NestedString fd spec_job_state = u_NestedString fresh spec_job_state" and e3: "err3 = None" and w3: "ss_world ps' = w3"
      using assms(3) p1 Some c rd fr p3 by (auto simp: merge_def Let_def split: if_splits)
    have k: "object_key fresh = ?k" using assms(1) rd fr unfolding conditional_def by blast
    obtain cur new where o: "objs w2 ?k = Some cur" "u_ResourceVersion cur = u_ResourceVersion fresh"
      "objs w3 ?k = Some new" "applied (patch_body p s (u_ResourceVersion fresh) spec) cur new"
      using conditional_patch[OF assms(1) p3[unfolded e3] k] by auto
    then have "cur = fresh" using assms(2) rd fr unfolding versioned_def by blast
    with o w3 same that show thesis by metis
  qed
qed

text \<open>The annotations a patch leaves: ours as given, empty ones removed, all others kept.\<close>

definition annotated :: "string \<Rightarrow> State \<Rightarrow> Object \<Rightarrow> Object \<Rightarrow> bool" where
  "annotated pre s cur new \<longleftrightarrow>
     (\<forall>a. map_of (u_Annotations new) a =
        (if a = pre @ ''/state'' then (if s_Phase s = [] then None else Some (s_Phase s))
         else if a = pre @ ''/reason'' then (if s_Reason s = [] then None else Some (s_Reason s))
         else map_of (u_Annotations cur) a))"

lemma applied_annotated: "applied (patch_body p s rv spec) cur new \<Longrightarrow> annotated (pt_Prefix p) s cur new"
  by (auto simp: applied_def annotated_def patch_body_def Annotations_def)

text \<open>
  C6. No write overwrites a decision of somebody else. A patch that succeeds, at once or on the
  retry after a conflict, was applied to a version of the object whose \<open>spec.job.state\<close> is the
  one the decision was made on, whatever else changed in between. It sets the two annotations
  and the one spec field it was given, removes an annotation whose value is empty, and keeps
  every other annotation of that version.
\<close>

theorem merge_never_overwrites:
  assumes "conditional (pt_Client p) objs (object_key fd)" and "versioned (pt_Client p) objs fd (ss_world ps)"
    and "merge p fd s spec ps = (ps', None)"
  shows "\<exists>w cur new. objs w (object_key fd) = Some cur \<and> objs (ss_world ps') (object_key fd) = Some new \<and>
     u_NestedString cur spec_job_state = u_NestedString fd spec_job_state \<and> annotated (pt_Prefix p) s cur new \<and>
     u_NestedString new spec_job_state = (case spec of Some (JobState x) \<Rightarrow> x | _ \<Rightarrow> u_NestedString fd spec_job_state) \<and>
     u_NestedInt64 new [''spec'', ''restartNonce''] =
       (case spec of Some (RestartNonce n) \<Rightarrow> n | _ \<Rightarrow> u_NestedInt64 cur [''spec'', ''restartNonce''])"
proof -
  obtain w cur new rv where o: "objs w (object_key fd) = Some cur" "objs (ss_world ps') (object_key fd) = Some new"
    "u_NestedString cur spec_job_state = u_NestedString fd spec_job_state" and a: "applied (patch_body p s rv spec) cur new"
    by (rule merge_lands[OF assms])
  moreover have "u_NestedString new spec_job_state = (case spec of Some (JobState x) \<Rightarrow> x | _ \<Rightarrow> u_NestedString fd spec_job_state)"
    "u_NestedInt64 new [''spec'', ''restartNonce''] = (case spec of Some (RestartNonce n) \<Rightarrow> n | _ \<Rightarrow> u_NestedInt64 cur [''spec'', ''restartNonce''])"
    using a o(3) by (auto simp: applied_def split: option.splits SpecPatch.splits)
  ultimately show ?thesis using applied_annotated[OF a] by blast
qed

section \<open>Release\<close>

text \<open>The deployment is asleep because of us, as \<open>release\<close> sees it.\<close>

definition asleep_by_us :: "'w Reconciler \<Rightarrow> Object \<Rightarrow> bool" where
  "asleep_by_us r fd \<longleftrightarrow>
     map_of (u_Annotations fd) (rc_Prefix r @ ''/state'') = Some Suspended \<and> l_SpecJobState (Live fd) = ''suspended'' \<and> \<not> rc_DryRun r"

lemma requeue_pos: "0 < requeue r"
  by (simp add: requeue_def)

lemma resume_merge: "resume p fd s reason ps = (ps', None) \<longleftrightarrow>
    (\<exists>ps1. merge p fd s (Some (JobState ''running'')) ps = (ps1, None) \<and> ps' = recorded p (Event ''Normal'' ''Resumed'' ''Resumed'' reason) ps1)"
  by (auto simp: resume_def patch_event_def split: prod.splits)

lemma recorded_world [simp]: "ss_world (recorded p e ps) = ss_world ps" "ss_seen (recorded p e ps) = ss_seen ps"
  by (simp_all add: recorded_def)

lemma release_waits:
  "asleep_by_us r fd \<Longrightarrow> l_LifecycleState (Live fd) \<noteq> ''SUSPENDED'' \<Longrightarrow> release r req fd ps = (ps, result_done (requeue r))"
  by (auto simp: release_def asleep_by_us_def Let_def)

lemma released_parts:
  assumes "release (r :: 'w Reconciler) req fd ps = (ps', res)" and "rs_Error res = None" and "rs_RequeueAfter res = 0"
    and "has_key (u_Annotations fd) (rc_Prefix r @ ''/state'')"
  obtains ps1 and ps2 :: "'w Proc" where
    "merge (the_patcher r) fd zero_state (if asleep_by_us r fd then Some (JobState ''running'') else None) ps = (ps1, None)"
    and "\<not> (asleep_by_us r fd \<and> l_LifecycleState (Live fd) \<noteq> ''SUSPENDED'')"
    and "ss_world ps2 = ss_world ps1" and "ss_seen ps2 = ss_seen ps1"
    and "\<exists>ps3. Delete (rc_Client r) (rc_Seen r) fd ps2 = (ps3, None) \<and> ss_world ps' = ss_world ps3"
proof -
  obtain phase where ph: "map_of (u_Annotations fd) (rc_Prefix r @ ''/state'') = Some phase"
    using assms(4) by (auto simp: has_key_def)
  have mine: "(phase = Suspended \<and> l_SpecJobState (Live fd) = ''suspended'' \<and> \<not> rc_DryRun r) \<longleftrightarrow> asleep_by_us r fd"
    by (auto simp: asleep_by_us_def ph)
  have world: "ss_world (emit r a b c d (forget r req q)) = ss_world q" for a b c d q
    by (simp add: emit_def forget_def Forget_def memo_forget_def)
  have run: "\<not> (asleep_by_us r fd \<and> l_LifecycleState (Live fd) \<noteq> ''SUSPENDED'')"
  proof
    assume "asleep_by_us r fd \<and> l_LifecycleState (Live fd) \<noteq> ''SUSPENDED''"
    then have "res = result_done (requeue r)" using assms(1) release_waits[of r fd req ps] by simp
    then show False using assms(3) requeue_pos[of r] by (simp add: result_done_def)
  qed
  let ?w = "if asleep_by_us r fd then resume (the_patcher r) fd zero_state ''policy removed; resuming the job siesta suspended'' ps
            else clear (the_patcher r) fd ps"
  obtain ps2 err where w: "?w = (ps2, err)" by (rule prod.exhaust)
  obtain ps3 derr where d: "Delete (rc_Client r) (rc_Seen r) fd ps2 = (ps3, derr)" by (rule prod.exhaust)
  have "release r req fd ps = (case err of Some e \<Rightarrow> (ps2, result_error e) | None \<Rightarrow>
      (case derr of Some e \<Rightarrow> (ps3, result_error e) | None \<Rightarrow>
         (emit r ''Normal'' ''Released'' ''Release'' ''policy removed; state and memory cleared'' (forget r req ps3), result_done 0)))"
    unfolding release_def ph option.case Let_def mine using run by (auto simp: w d split: option.split)
  then have e: "err = None" "derr = None" and w3: "ss_world ps' = ss_world ps3"
    using assms(1,2) world by (auto simp: result_error_def split: option.splits)
  from w e(1) obtain ps1 where m: "merge (the_patcher r) fd zero_state (if asleep_by_us r fd then Some (JobState ''running'') else None) ps = (ps1, None)"
    "ss_world ps2 = ss_world ps1" "ss_seen ps2 = ss_seen ps1"
    by (auto simp: resume_merge clear_def split: if_splits)
  show thesis using d e(2) w3 by (intro that[OF m(1) run m(2,3)]) blast
qed

text \<open>
  C11. A deployment whose policy was removed is handed back awake. While a suspend of ours is
  still in flight, the tick makes no call at all and comes back later. When the release is
  done, our two annotations are gone from the object and every other annotation is kept, the
  ConfigMap is gone, a job we put to sleep has \<open>spec.job.state: running\<close>, and the desired
  state of any other job is as it was.
\<close>

theorem release_hands_back_awake:
  fixes r :: "'w Reconciler"
  assumes "conditional (rc_Client r) objs (object_key fd)" and "versioned (rc_Client r) objs fd (ss_world ps)"
    and "serves (rc_Client r) cms (store_key fd)"
    and "has_key (u_Annotations fd) (rc_Prefix r @ ''/state'')" and "release r req fd ps = (ps', res)"
    and "\<forall>w q. objs (fst (k_DeleteCM (rc_Client r) w q)) (object_key fd) = objs w (object_key fd)"
  shows "(asleep_by_us r fd \<and> l_LifecycleState (Live fd) \<noteq> ''SUSPENDED'' \<longrightarrow> (ps', res) = (ps, result_done (requeue r))) \<and>
     (rs_Error res = None \<and> rs_RequeueAfter res = 0 \<longrightarrow>
        cms (ss_world ps') (store_key fd) = None \<and>
        (\<exists>w cur new. objs w (object_key fd) = Some cur \<and> objs (ss_world ps') (object_key fd) = Some new \<and>
           annotated (rc_Prefix r) zero_state cur new \<and>
           u_NestedString new spec_job_state = (if asleep_by_us r fd then ''running'' else u_NestedString fd spec_job_state)))"
proof (intro conjI impI)
  show "(ps', res) = (ps, result_done (requeue r))" if "asleep_by_us r fd \<and> l_LifecycleState (Live fd) \<noteq> ''SUSPENDED''"
    using assms(5) that release_waits by metis
next
  assume "rs_Error res = None \<and> rs_RequeueAfter res = 0"
  then have fin: "rs_Error res = None" "rs_RequeueAfter res = 0" by simp_all
  obtain ps1 and ps2 ps3 :: "'w Proc" where m: "merge (the_patcher r) fd zero_state (if asleep_by_us r fd then Some (JobState ''running'') else None) ps = (ps1, None)"
    and w: "ss_world ps2 = ss_world ps1" and d: "Delete (rc_Client r) (rc_Seen r) fd ps2 = (ps3, None)" and w3: "ss_world ps' = ss_world ps3"
    by (rule released_parts[OF assms(5) fin assms(4)]) blast
  obtain wd derr where del: "k_DeleteCM (rc_Client r) (ss_world ps2) (store_key fd) = (wd, derr)" by (rule prod.exhaust)
  with d have i: "IgnoreNotFound derr = None" and wd: "ss_world ps3 = wd" by (auto simp: Delete_def Let_def)
  then show "cms (ss_world ps') (store_key fd) = None" using serves_delete[OF assms(3) del] w3 by simp
  have pt: "pt_Client (the_patcher r) = rc_Client r" "pt_Prefix (the_patcher r) = rc_Prefix r" by (simp_all add: the_patcher_def)
  obtain w0 cur new rv where o: "objs w0 (object_key fd) = Some cur" "objs (ss_world ps1) (object_key fd) = Some new"
    "u_NestedString cur spec_job_state = u_NestedString fd spec_job_state"
    and a: "applied (patch_body (the_patcher r) zero_state rv (if asleep_by_us r fd then Some (JobState ''running'') else None)) cur new"
    by (rule merge_lands[OF _ _ m, of objs]) (use assms(1,2) in \<open>auto simp: pt\<close>)
  have "objs (ss_world ps') (object_key fd) = Some new" using o(2) assms(6)[rule_format, of "ss_world ps2" "store_key fd"] del w w3 wd by simp
  moreover have "u_NestedString new spec_job_state = (if asleep_by_us r fd then ''running'' else u_NestedString fd spec_job_state)"
    using a o(3) by (simp add: applied_def)
  ultimately show "\<exists>w cur new. objs w (object_key fd) = Some cur \<and> objs (ss_world ps') (object_key fd) = Some new \<and>
      annotated (rc_Prefix r) zero_state cur new \<and>
      u_NestedString new spec_job_state = (if asleep_by_us r fd then ''running'' else u_NestedString fd spec_job_state)"
    using o(1) applied_annotated[OF a] by (auto simp: pt)
qed

end
