(* ===== verification/WakeUp.thy ===== *)
theory WakeUp
  imports SafeSleep PatcherProps
begin

text \<open>
  The other direction, for the whole program: a tick that finds new input for a job it put to sleep makes
  the job run, or says that it could not.
\<close>

section \<open>The object through a save\<close>

text \<open>The calls about ConfigMaps, and a get, leave an object alone.\<close>

definition keeps_object :: "'w Kube \<Rightarrow> ('w \<Rightarrow> key \<Rightarrow> Object option) \<Rightarrow> key \<Rightarrow> bool" where
  "keeps_object kube objs k \<longleftrightarrow>
     (\<forall>w q. objs (fst (k_ReadCM kube w q)) k = objs w k) \<and> (\<forall>w cm. objs (fst (k_CreateCM kube w cm)) k = objs w k) \<and>
     (\<forall>w a b. objs (fst (k_PatchCM kube w a b)) k = objs w k) \<and> (\<forall>w q. objs (fst (k_DeleteCM kube w q)) k = objs w k)"

lemma keeps_object_calls:
  assumes "keeps_object kube objs k"
  shows "k_ReadCM kube w q = (w', x1) \<Longrightarrow> objs w' k = objs w k"
    and "k_CreateCM kube w cm = (w', x2) \<Longrightarrow> objs w' k = objs w k"
    and "k_PatchCM kube w a b = (w', x3) \<Longrightarrow> objs w' k = objs w k"
    and "k_DeleteCM kube w q = (w', x4) \<Longrightarrow> objs w' k = objs w k"
  using assms unfolding keeps_object_def by (metis fst_conv)+

lemma seen_world [simp]: "ss_world (seen_put on cm ss) = ss_world ss" "ss_world (seen_drop on k ss) = ss_world ss"
  by (simp_all add: seen_put_def seen_drop_def)

lemma save_steps_keep_object:
  assumes "keeps_object kube objs k"
  shows "save_seen kube on fd data ss = (ss', x) \<Longrightarrow> objs (ss_world ss') k = objs (ss_world ss) k"
    and "save_read kube on fd data ss = (ss', y) \<Longrightarrow> objs (ss_world ss') k = objs (ss_world ss) k"
  by (auto simp: save_seen_def Let_def split: option.splits if_splits prod.splits sum.splits dest!: keeps_object_calls[OF assms])
     (auto simp: save_read_def Let_def split: option.splits if_splits prod.splits sum.splits dest!: keeps_object_calls[OF assms])

lemma Save_keeps_object:
  assumes "keeps_object kube objs k" and "Save kube on fd st (ss :: ('w, 'm) StoreState_scheme) = Some (ss', err)"
  shows "objs (ss_world ss') k = objs (ss_world ss) k"
proof -
  have "kube = kube \<longrightarrow> objs (ss_world (fst (ss', err))) k = objs (ss_world ss) k"
  proof (rule Save.raw_induct[where P = "\<lambda>k1 on fd st ss res. k1 = kube \<longrightarrow> objs (ss_world (fst res)) k = objs (ss_world ss) k", OF _ assms(2)], intro impI)
    fix sv k1 on fd st and ss :: "('w, 'm) StoreState_scheme" and res
    assume IH: "\<And>k1 on fd st ss res. sv k1 on fd st ss = Some res \<Longrightarrow> k1 = kube \<longrightarrow> objs (ss_world (fst res)) k = objs (ss_world ss) k"
      and k1: "k1 = kube"
      and step: "(case save_seen k1 on fd (Data st) ss of (ss1, None) \<Rightarrow>
              (case save_read k1 on fd (Data st) ss1 of (ss2, Returned err) \<Rightarrow> Some (ss2, err) | (ss2, SaveAgain) \<Rightarrow> sv k1 on fd st ss2)
            | (ss1, Some err) \<Rightarrow> Some (ss1, err)) = Some res"
    obtain ss1 early where a: "save_seen kube on fd (Data st) ss = (ss1, early)" by (rule prod.exhaust)
    obtain ss2 after' where b: "save_read kube on fd (Data st) ss1 = (ss2, after')" by (rule prod.exhaust)
    show "objs (ss_world (fst res)) k = objs (ss_world ss) k"
      using step save_steps_keep_object(1)[OF assms(1) a] save_steps_keep_object(2)[OF assms(1) b] IH[of kube on fd st ss2 res]
      by (auto simp: k1 a b split: option.splits save_next.splits)
  qed
  then show ?thesis by simp
qed

section \<open>A resume that is written\<close>

lemma merge_applied:
  assumes "conditional (pt_Client p) objs (object_key fd)" and "merge p fd s spec ps = (ps', None)"
  obtains cur new rv where "objs (ss_world ps') (object_key fd) = Some new" "applied (patch_body p s rv spec) cur new"
proof -
  obtain w1 err where p1: "k_Patch (pt_Client p) (ss_world ps) fd (patch_body p s (u_ResourceVersion fd) spec) = (w1, err)"
    by (rule prod.exhaust)
  show thesis
  proof (cases err)
    case None
    with assms(2) p1 have "ss_world ps' = w1" by (auto simp: merge_def Let_def)
    with conditional_patch[OF assms(1) p1[unfolded None] refl] that show thesis by metis
  next
    case (Some e)
    with assms(2) p1 have c: "e_Conflict e" "pt_Reader p" by (auto simp: merge_def Let_def split: if_splits)
    obtain w2 r where rd: "k_Read (pt_Client p) w1 (object_key fd) = (w2, r)" by (rule prod.exhaust)
    with assms(2) p1 Some c obtain fresh where fr: "r = Inr fresh" by (cases r) (auto simp: merge_def Let_def)
    obtain w3 err3 where p3: "k_Patch (pt_Client p) w2 fresh (patch_body p s (u_ResourceVersion fresh) spec) = (w3, err3)"
      by (rule prod.exhaust)
    have "err3 = None" "ss_world ps' = w3" using assms(2) p1 Some c rd fr p3 by (auto simp: merge_def Let_def split: if_splits)
    moreover have "object_key fresh = object_key fd" using assms(1) rd fr unfolding conditional_def by blast
    ultimately show thesis using conditional_patch[OF assms(1)] p3 that by metis
  qed
qed

lemma finish_resumes:
  assumes "finish r req fd pol prev found live obs now ps = Some (ps', res)" and "rs_Error res = None"
    and "d_Action (Decide (rc_Decider r) pol prev live obs now) = Resume" and "\<not> rc_DryRun r" and "\<not> p_DryRun pol"
    and "conditional (rc_Client r) objs (object_key fd)" and "keeps_object (rc_Client r) objs (object_key fd)"
  shows "\<exists>new. objs (ss_world ps') (object_key fd) = Some new \<and> u_NestedString new spec_job_state = ''running''"
proof -
  obtain ps1 d where rep: "report r pol prev live obs (Decide (rc_Decider r) pol prev live obs now) now
      (say (LogDecided (gateTrace pol prev live obs (Decide (rc_Decider r) pol prev live obs now) now)) ps) = (ps1, d)" by (rule prod.exhaust)
  then have d: "d_Action d = Resume" using assms(3) by simp
  let ?ps = "record_tick req prev d now ps1"
  have a: "act r fd prev found d ?ps = Some (ps', res)"
    using assms(1,4,5) by (simp add: finish_def Let_def rep)
  obtain ps2 err where w: "resume (the_patcher r) fd (d_Next d) (d_Reason d) ?ps = (ps2, err)" by (rule prod.exhaust)
  have act: "(case err of Some e \<Rightarrow> Some (ps2, result_error e)
      | None \<Rightarrow> (case Save (rc_Client r) (rc_Seen r) fd (d_Next d) ps2 of None \<Rightarrow> None
          | Some (ps3, Some e) \<Rightarrow> Some (emit r ''Warning'' ''SaveFailed'' ''Save'' (''could not write the controller's memory: '' @ e_Msg e) ps3, result_error e)
          | Some (ps3, None) \<Rightarrow> Some (ps3, result_done (requeue r)))) = Some (ps', res)"
    using a by (simp add: act_def humanVisible_def acted_def d write_object_def w)
  then have e: "err = None" using assms(2) by (cases err) (auto simp: result_error_def)
  with act assms(2) have s: "Save (rc_Client r) (rc_Seen r) fd (d_Next d) ps2 = Some (ps', None)"
    by (auto simp: result_error_def split: option.splits)
  from w e obtain ps3 where m: "merge (the_patcher r) fd (d_Next d) (Some (JobState ''running'')) ?ps = (ps3, None)" "ss_world ps2 = ss_world ps3"
    by (auto simp: resume_merge)
  have pt: "pt_Client (the_patcher r) = rc_Client r" by (simp add: the_patcher_def)
  obtain cur new rv where "objs (ss_world ps3) (object_key fd) = Some new"
    "applied (patch_body (the_patcher r) (d_Next d) rv (Some (JobState ''running''))) cur new"
    by (rule merge_applied[OF _ m(1), of objs]) (use assms(6) in \<open>auto simp: pt\<close>)
  moreover have "objs (ss_world ps') (object_key fd) = objs (ss_world ps3) (object_key fd)"
    using Save_keeps_object[OF assms(7) s] m(2) by simp
  ultimately show ?thesis by (auto simp: applied_def)
qed

text \<open>A tick whose two writes succeed is done; a save that finds its ConfigMap remembered takes one step.\<close>

lemma finish_done:
  assumes "tick_decision r pol prev live obs now ps = (ps1, d)" and "\<not> rc_DryRun r" and "\<not> p_DryRun pol"
    and "write_object r fd d (record_tick req prev d now ps1) = (ps2, None)" and "humanVisible prev found d"
    and "snd (save_seen (rc_Client r) (rc_Seen r) fd (Data (d_Next d)) ps2) = Some None"
  shows "\<exists>ps3. finish r req fd pol prev found live obs now ps = Some (ps3, result_done (requeue r))"
proof -
  obtain ps3 where "save_seen (rc_Client r) (rc_Seen r) fd (Data (d_Next d)) ps2 = (ps3, Some None)"
    using assms(6) by (metis prod.collapse)
  then have "Save (rc_Client r) (rc_Seen r) fd (d_Next d) ps2 = Some (ps3, None)" by (subst Save.simps) simp
  then have "act r fd prev found d (record_tick req prev d now ps1) = Some (ps3, result_done (requeue r))"
    by (simp add: act_def assms(4,5))
  moreover have "finish r req fd pol prev found live obs now ps = act r fd prev found d (record_tick req prev d now ps1)"
    using assms(1-3) by (auto simp: finish_def tick_decision_def Let_def split: prod.splits)
  ultimately show ?thesis by simp
qed

section \<open>What a tick is told about a sleeping job\<close>

lemma observe_reading_keeps:
  "observe_reading r req pol live job jobKnown obs ps = (ps', obs') \<Longrightarrow>
     ob_Known obs' = ob_Known obs \<and> ob_Snapshot obs' = ob_Snapshot obs \<and> ob_LagKnown obs' = ob_LagKnown obs \<and>
     ob_Uncommitted obs' = ob_Uncommitted obs \<and> ob_Unlearned obs' = ob_Unlearned obs"
  by (auto simp: observe_reading_def Let_def split: if_splits option.splits prod.splits)

lemma observe_sources_plain:
  "\<not> p_SourcesAuto pol \<Longrightarrow> observe_sources r pol prev live job settled ps = (ps', prev') \<Longrightarrow>
     s_Phase prev' = s_Phase prev \<and> s_Snapshot prev' = s_Snapshot prev \<and> ss_world ps' = ss_world ps"
  using still.observes_sources[of r pol prev live job settled ps ps' prev'] by (auto simp: observe_sources_def split: if_splits)

text \<open>The end offsets and, for a group, the lag, as the broker answers them.\<close>

lemma observation_answered:
  assumes "observe r req pol prev live ps = (ps', obs, pol1, prev1)" and "\<not> p_SourcesAuto pol"
    and "rc_Probe r = wired_probe adm" and "rc_Lag r = Some (wired_lag adm)"
    and "\<forall>rest w ns name job. rc_Flink r = Some rest \<longrightarrow> snd (snd (fst (fst (jp_Sources rest w ns name job)))) = snd (snd (fst w))"
    and "Observe (ad_ListEndOffsets adm (snd (snd (fst (ss_world ps))))) (p_Sources pol) = Inr offsets"
  shows "pol1 = pol \<and> s_Phase prev1 = s_Phase prev \<and> s_Snapshot prev1 = s_Snapshot prev \<and>
     ob_Known obs \<and> \<not> ob_Unlearned obs \<and> ob_Snapshot obs = of_Snapshot offsets \<and>
     (p_ConsumerGroup pol \<noteq> [] \<and> Lag (ad_FetchOffsets adm (snd (snd (fst (ss_world ps))))) (p_ConsumerGroup pol) (of_Ends offsets) = Inr n \<longrightarrow>
        ob_LagKnown obs \<and> ob_Uncommitted obs = [])"
proof -
  obtain ps1 job jobKnown settled where 1: "jobSources r req live ps = (ps1, job, jobKnown, settled)" by (metis prod_cases4)
  obtain ps2 prev2 where 2: "observe_sources r pol prev live job settled ps1 = (ps2, prev2)" by (rule prod.exhaust)
  note plain = observe_sources_plain[OF assms(2) 2]
  have b: "snd (snd (fst (ss_world ps2))) = snd (snd (fst (ss_world ps)))"
    using jobSources_world[OF 1]
  proof (elim disjE exE conjE)
    fix rest assume "rc_Flink r = Some rest" "ss_world ps1 = fst (jp_Sources rest (ss_world ps) (fst req) (snd req) (l_JobID live))"
    with plain assms(5)[rule_format, of rest "ss_world ps"] show ?thesis by metis
  qed (use plain in simp)
  obtain k j b g where w: "ss_world ps2 = ((k, j, b), g)" by (metis prod.exhaust)
  have 3: "rc_Probe r (ss_world ps2) (p_Sources pol) = (ss_world ps2, offsets, None)"
    using assms(3,6) b by (simp add: w wired_probe_def)
  obtain ps3 ok where 4: "known ''offsets'' None (timed ''offsets'' ps2 (ss_world ps2)) = (ps3, ok)" by (rule prod.exhaust)
  then have ok: "ok" "ss_world ps3 = ss_world ps2" by (auto simp: known_def timed_def)
  let ?obs = "zero_observation\<lparr>ob_Snapshot := of_Snapshot offsets, ob_Ends := of_Ends offsets, ob_Known := ok\<rparr>"
  obtain ps4 obs4 where 5: "observe_lag r pol ?obs ps3 = (ps4, obs4)" by (rule prod.exhaust)
  obtain ps5 obs5 where 6: "observe_reading r req pol live job jobKnown obs4 ps4 = (ps5, obs5)" by (rule prod.exhaust)
  have "observe r req pol prev live ps = (ps5, obs5, pol, prev2)"
    using assms(2) by (simp add: observe_def 1 2 Let_def 3 4 5 6)
  then have eq: "obs5 = obs" "pol1 = pol" "prev2 = prev1" using assms(1) by simp_all
  have lag: "ob_Known obs4 \<and> ob_Snapshot obs4 = of_Snapshot offsets \<and> \<not> ob_Unlearned obs4"
    using 5 ok by (auto simp: observe_lag_def zero_observation_def split: option.splits if_splits prod.splits)
  have "ob_LagKnown obs4 \<and> ob_Uncommitted obs4 = []"
    if "p_ConsumerGroup pol \<noteq> []" "Lag (ad_FetchOffsets adm b) (p_ConsumerGroup pol) (of_Ends offsets) = Inr n"
    using 5 ok that by (auto simp: observe_lag_def assms(4) zero_observation_def wired_lag_def w known_def split: prod.splits)
  moreover have "snd (snd (fst (ss_world ps))) = b" using b by (simp add: w)
  ultimately show ?thesis using observe_reading_keeps[OF 6] lag plain unfolding eq by auto
qed

section \<open>Input wakes the job\<close>

lemma conditional_wired:
  assumes "conditional kube objs k"
  shows "conditional (wired_kube kube) (\<lambda>w. objs (fst (fst w))) k"
  unfolding conditional_def
proof (intro conjI allI impI)
  fix w w' :: "('a, 'b, 'c) world" and fd p
  assume "k_Patch (wired_kube kube) w fd p = (w', None) \<and> object_key fd = k"
  then have "k_Patch kube (fst (fst w)) fd p = (fst (fst w'), None) \<and> object_key fd = k" by (auto simp: wired_kube_def on_kube_eq)
  with assms show "\<exists>cur new. objs (fst (fst w)) k = Some cur \<and> u_ResourceVersion cur = mp_ResourceVersion p \<and>
      objs (fst (fst w')) k = Some new \<and> applied p cur new" unfolding conditional_def by blast
next
  fix w w' :: "('a, 'b, 'c) world" and fresh
  assume "k_Read (wired_kube kube) w k = (w', Inr fresh)"
  then have "k_Read kube (fst (fst w)) k = (fst (fst w'), Inr fresh)" by (auto simp: wired_kube_def on_kube_eq)
  with assms show "object_key fresh = k" unfolding conditional_def by blast
qed

lemma keeps_object_wired:
  assumes "keeps_object kube objs k"
  shows "keeps_object (wired_kube kube) (\<lambda>w. objs (fst (fst w))) k"
  using assms unfolding keeps_object_def by (simp add: wired_kube_def fst_on_kube)

lemma Reconcile_loads:
  assumes "k_Get (rc_Client r) (ss_world ps) req = (w, Inr fd)" and "Read (rc_Prefix r) (u_Annotations fd) = Some pol"
    and "p_Problems pol = []" and "\<not> p_SourcesAuto pol" and "Reconcile r req ps = Some (ps', res)" and "rs_Error res = None"
  shows "\<exists>ps1 prev found. load_memory r fd (Live fd) (rc_Now r w) (ps\<lparr>ss_world := w\<rparr>) = (ps1, Inr (prev, found))"
proof -
  obtain ps1 loaded' where l: "load_memory r fd (Live fd) (rc_Now r w) (ps\<lparr>ss_world := w\<rparr>) = (ps1, loaded')" by (rule prod.exhaust)
  with assms show ?thesis by (cases loaded') (auto simp: Reconcile_def Let_def result_error_def)
qed

lemma load_memory_found:
  assumes "serves (rc_Client r) cms (store_key fd)" and "load_memory r fd live now ps = (ps', Inr (prev, found))"
    and "loaded fd (cms (ss_world ps) (store_key fd)) = Some st"
  shows "prev = repair st (get_str (u_Annotations fd) (rc_Prefix r @ ''/state'')) (get_str (u_Annotations fd) (rc_Prefix r @ ''/reason'')) now"
proof -
  obtain ps1 res where L: "Load (rc_Client r) (rc_Seen r) fd ps = (ps1, res)" by (rule prod.exhaust)
  with assms(2) obtain x where x: "res = Inr x" by (cases res) (auto simp: load_memory_def)
  with Load_reads[OF assms(1) L[unfolded x]] assms(2,3) show ?thesis by (auto simp: load_memory_def L Let_def)
qed

text \<open>An API server that keeps its contracts for one deployment: its memory, its object and gets of it.\<close>

definition orderly :: "'k Kube \<Rightarrow> ('k \<Rightarrow> key \<Rightarrow> ConfigMap option) \<Rightarrow> ('k \<Rightarrow> key \<Rightarrow> Object option) \<Rightarrow> key \<Rightarrow> bool" where
  "orderly kube cms objs req \<longleftrightarrow>
     serves kube cms (req_key req) \<and> keeps_cms kube cms (req_key req) \<and> conditional kube objs req \<and> keeps_object kube objs req \<and>
     (\<forall>w w' fd. k_Get kube w req = (w', Inr fd) \<longrightarrow> object_key fd = req)"


end
