(* ===== verification/Recovery.thy ===== *)
theory Recovery
  imports TickProps Scenario
begin

text \<open>
  Memory across ticks: which memories a run of the controller can reach, and what happens when
  the write of memory is lost after the write on the object, when ConfigMaps vanish, and when a
  dry run is switched on for a sleeping job.
\<close>

section \<open>The phase after a decision\<close>

lemma decide_job_gate_phase:
  "s_Phase (d_Next (decide_job_gate d p cur obs now)) =
     (if d_Action (decide_job_gate d p cur obs now) = Suspend then Suspended else s_Phase cur)"
  by (simp add: decide_job_gate_def suspend_now_def Let_def split: prod.split JobGate.split)

lemma decide_idle_phase:
  "s_Phase (d_Next (decide_idle d p cur live obs now ra)) =
     (if d_Action (decide_idle d p cur live obs now ra) = Suspend then Suspended else s_Phase cur)"
  by (simp add: decide_idle_def decide_job_gate_phase Let_def)

lemma decide_failing_phase:
  "s_Phase (d_Next (decide_failing d live cur now)) =
     (if d_Action (decide_failing d live cur now) = MarkUnrecoverable then Unrecoverable else s_Phase cur)"
  by (simp add: decide_failing_def Let_def)

lemma decide_active_phase:
  "s_Phase (d_Next (decide_active d p s live obs now)) =
     (if d_Action (decide_active d p s live obs now) = Suspend then Suspended
      else if d_Action (decide_active d p s live obs now) = MarkUnrecoverable then Unrecoverable
      else s_Phase s)"
proof (cases "l_SpecJobState live = ''suspended''")
  case True
  then show ?thesis by (simp add: decide_active_def)
next
  case False
  then show ?thesis
    by (simp add: decide_active_unfold Let_def decide_failing_phase decide_failing_action decide_idle_phase decide_idle_action)
qed

lemma decide_suspended_phase:
  "s_Phase (d_Next (decide_suspended p prev cur live obs now m)) =
     (if l_SpecJobState live = ''running'' \<or> d_Action (decide_suspended p prev cur live obs now m) = Resume then Active else s_Phase cur)"
  by (simp add: decide_suspended_def Let_def)

lemma relearn_phase:
  "s_Phase (d_Next (relearn p s live now)) = (if d_Action (relearn p s live now) = Resume then Active else s_Phase s)"
  by (simp add: relearn_def)

lemma decide_suspended_actions: "d_Action (decide_suspended p prev cur live obs now m) \<in> {ActNone, Resume}"
  by (simp add: decide_suspended_def Let_def)

text \<open>The phase a decision leads to, from the action and the phase before.\<close>

definition next_phase :: "Action \<Rightarrow> phase \<Rightarrow> Live \<Rightarrow> phase \<Rightarrow> bool" where
  "next_phase a ph live ph' \<longleftrightarrow>
     (case a of
        Suspend \<Rightarrow> ph' = Suspended
      | Resume \<Rightarrow> ph' = Active
      | MarkUnrecoverable \<Rightarrow> ph' = Unrecoverable
      | _ \<Rightarrow> ph' = ph \<or> ph' = Active \<and> ph = Suspended \<and> l_SpecJobState live = ''running'')"

lemma decide_phase_phase:
  "next_phase (d_Action (decide_phase d p s live obs now)) (s_Phase s) live (s_Phase (d_Next (decide_phase d p s live obs now)))"
proof -
  let ?o = "observe_snapshot s obs now"
  consider (asleep) "s_Phase s = Suspended" | (given_up) "s_Phase s = Unrecoverable" | (active) "s_Phase s \<noteq> Suspended" "s_Phase s \<noteq> Unrecoverable"
    by blast
  then show ?thesis
  proof cases
    case asleep
    then have "decide_phase d p s live obs now = decide_suspended p s ?o live obs now (moved s obs)"
      by (simp add: decide_phase_def moved_def Let_def)
    then show ?thesis
      using asleep decide_suspended_actions[of p s ?o live obs now "moved s obs"]
      by (auto simp: next_phase_def decide_suspended_phase)
  next
    case given_up
    then show ?thesis by (simp add: decide_phase_def decide_unrecoverable_def next_phase_def Let_def)
  next
    case active
    then have "decide_phase d p s live obs now = decide_active d p ?o live obs now" by (simp add: decide_phase_def Let_def)
    then show ?thesis
      using decide_active_no_resume[of d p ?o live obs now] by (simp add: next_phase_def decide_active_phase split: Action.split)
  qed
qed

lemma Decide_next_phase:
  "next_phase (d_Action (Decide d p s live obs now))
     (if \<not> operatorBusy live \<and> respecced s live then Active else s_Phase s) live (s_Phase (d_Next (Decide d p s live obs now)))"
proof -
  let ?c = "clear_unrecoverable s live now"
  have waits: "next_phase ActNone ph live ph" and resumes: "next_phase Resume ph live Active" for ph
    by (simp_all add: next_phase_def)
  have relearns: "next_phase (d_Action (relearn p s' live now)) (s_Phase s') live (s_Phase (d_Next (relearn p s' live now)))" for s'
    by (simp add: relearn_def waits resumes)
  have clear: "s_Phase ?c = (if respecced s live then Active else s_Phase s)" by (simp add: clear_unrecoverable_fields)
  have "s_Phase s \<noteq> Unrecoverable" if "off_resumes p s live" using that by (simp add: off_resumes_def)
  then show ?thesis
    using decide_phase_phase[of d p ?c live obs now] relearns[of ?c] waits[of "s_Phase ?c"] waits[of "s_Phase s"] resumes
    unfolding clear by (auto simp: Decide_unfold clear)
qed

section \<open>A lost write of memory\<close>

text \<open>The phases the controller writes.\<close>

abbreviation phases :: "phase set" where
  "phases \<equiv> {Active, Suspended, Unrecoverable}"

lemma next_phase_phases: "next_phase a ph live ph' \<Longrightarrow> ph \<in> phases \<Longrightarrow> ph' \<in> phases"
  by (cases a) (auto simp: next_phase_def)

lemma Decide_phases:
  assumes "s_Phase s \<in> phases"
  shows "s_Phase (d_Next (Decide d p s live obs now)) \<in> phases"
  using Decide_next_phase by (rule next_phase_phases) (use assms in simp)

lemma respecced_not_suspended:
  assumes "0 \<le> p_IdleAfter p" and "0 \<le> p_MinAwake p" and "respecced s live"
  shows "d_Action (Decide d p s live obs now) \<noteq> Suspend"
  using assms(3) by (simp add: Decide_suspends[OF assms(1,2)] suspend_spec_def)

lemma given_up_stays:
  assumes "0 \<le> p_IdleAfter p" and "0 \<le> p_MinAwake p" and "s_Phase s = Unrecoverable"
  shows "s_Phase (d_Next (Decide d p s live obs now)) = Unrecoverable \<or>
     s_Phase (d_Next (Decide d p s live obs now)) = Active \<and> s_Generation s < l_Generation live"
proof (cases "respecced s live")
  case True
  have "s_Phase (d_Next (Decide d p s live obs now)) \<noteq> Suspended"
    using Decide_next_phase[of d p s live obs now] respecced_not_suspended[OF assms(1,2) True, of d obs now] assms(3)
    by (cases "d_Action (Decide d p s live obs now)") (auto simp: next_phase_def split: if_splits)
  with True Decide_phases[of s d p live obs now] assms(3) show ?thesis by blast
next
  case False
  then have n: "d_Action (Decide d p s live obs now) = ActNone"
    using assms(3) Decide_active_only[of _ d p s live obs now] Decide_resumes[of d p s live obs now]
    by (cases "d_Action (Decide d p s live obs now)") (auto simp: resume_spec_def)
  have "next_phase ActNone Unrecoverable live (s_Phase (d_Next (Decide d p s live obs now)))"
    using False assms(3) Decide_next_phase[of d p s live obs now] unfolding n by simp
  then show ?thesis by (simp add: next_phase_def)
qed

text \<open>
  C5. A lost write of memory is repaired from the object. Suppose a tick decided on \<open>prev\<close> and
  its patch reached the object, so the object's state annotation is the phase of the decision,
  but memory is still \<open>prev\<close>. Then the next tick loads a memory in the decided phase: a suspend is
  not mistaken for a manual one, nor a resume, nor is a job given up twice. The one
  exception is a job given up before that a spec edit woke: memory still says
  unrecoverable, with the old generation, so the decider clears it again.
\<close>

theorem lost_save_is_repaired:
  assumes "s_Phase prev \<in> phases" and "0 \<le> p_IdleAfter p" and "0 \<le> p_MinAwake p"
    and "d = Decide dc p prev live obs now"
    and "get_str (u_Annotations fd) (rc_Prefix r @ ''/state'') = s_Phase (d_Next d)"
    and "Load (rc_Client r) (rc_Seen r) fd ps = (ps1, Inr (Some prev))"
  shows "\<exists>s. load_memory r fd live' now' ps = (ps1, Inr (s, True)) \<and>
     s_Snapshot s = s_Snapshot prev \<and> s_Restarts s = s_Restarts prev \<and>
     (s_Phase s = s_Phase (d_Next d) \<or>
      s = prev \<and> s_Phase prev = Unrecoverable \<and> s_Phase (d_Next d) = Active \<and> s_Generation prev < l_Generation live)"
proof -
  let ?n = "s_Phase (d_Next d)"
  have "?n \<in> phases" using Decide_phases[OF assms(1)] assms(4) by blast
  moreover have "s_Phase prev = Unrecoverable \<Longrightarrow> ?n = Unrecoverable \<or> ?n = Active \<and> s_Generation prev < l_Generation live"
    using given_up_stays[OF assms(2,3)] assms(4) by blast
  ultimately show ?thesis
    using assms(1,5,6) by (auto simp: load_memory_def repair_def Let_def)
qed

lemma Decide_is_active:
  assumes "\<not> operatorBusy live" and "ob_Known obs" and "s_Phase s \<notin> {Suspended, Unrecoverable}"
  shows "Decide d p s live obs now = decide_active d p (observe_snapshot (clear_unrecoverable s live now) obs now) live obs now"
  using assms by (simp add: Decide_unfold off_resumes_def sources_lost_def decide_phase_def Let_def clear_unrecoverable_fields)

lemma decide_job_gate_Restarts: "s_Restarts (d_Next (decide_job_gate d p cur obs now)) = s_Restarts cur"
  by (simp add: decide_job_gate_def suspend_now_def Let_def split: prod.split JobGate.split)

lemma decide_idle_Restarts: "s_Restarts (d_Next (decide_idle d p cur live obs now ra)) = s_Restarts cur"
  by (simp add: decide_idle_def decide_job_gate_Restarts Let_def)

lemma decide_active_Restarts:
  assumes "l_SpecJobState live \<noteq> ''suspended''" and "d_Action (decide_active d p s live obs now) \<noteq> Restart"
  shows "s_Restarts (d_Next (decide_active d p s live obs now)) = s_Restarts (noted d live now s)"
  using assms by (auto simp: decide_active_unfold Let_def decide_idle_Restarts decide_failing_def)

lemma decide_active_restarted:
  assumes "d_Action (decide_active d p s live obs now) = Restart"
  shows "s_Restarts (d_Next (decide_active d p s live obs now)) =
     (Consume (s_Restarts (noted d live now s)) now (rp_Window (dc_restart d)) (rp_BaseBackoff (dc_restart d))
        (rp_Multiplier (dc_restart d)))\<lparr>b_LastNonce := UnixMilli now\<rparr>"
proof -
  have "restart_due d p s live now" and al: "Allows (s_Restarts (noted d live now s)) now (rp_MaxRestarts (dc_restart d)) (rp_Window (dc_restart d))"
    using assms by (simp_all add: decide_active_restart)
  then have "decide_active d p s live obs now = decide_failing d live (noted d live now s) now"
    by (auto simp: restart_due_def decide_active_unfold Let_def)
  with al show ?thesis by (simp add: decide_failing_def Let_def Allows_def)
qed

text \<open>A budget that was just used waits.\<close>

lemma Consume_InBackoff:
  assumes "0 < now" and "0 \<le> w" and "0 < backoff base m (b_Count (rolled b now w))"
  shows "InBackoff ((Consume b now w base m)\<lparr>b_LastNonce := n\<rparr>) now w"
  using assms by (auto simp: InBackoff_def Consume_def rolled_def zero_budget_def Let_def)

text \<open>
  C13. A restart whose memory was lost is counted once and not repeated at once. The tick decided
  to restart and its patch put the nonce on the object, but memory was not written. If the
  window of the budget is still the same, the next tick that can decide finds the nonce, counts
  it to the same number the lost memory had, remembers the same nonce, and does not restart
  again while the job comes up: no second restart, none uncounted.
\<close>

theorem lost_restart_is_counted_once:
  assumes "d_Action (Decide dc p s live obs now) = Restart" and "s_Phase s \<noteq> Unrecoverable"
    and "l_RestartNonce live \<le> b_LastNonce (s_Restarts s)" and "b_LastNonce (s_Restarts s) < UnixMilli now"
    and "0 < now" and "now \<le> now'" and "0 \<le> rp_Window (dc_restart dc)"
    and "rolled (s_Restarts s) now' (rp_Window (dc_restart dc)) = rolled (s_Restarts s) now (rp_Window (dc_restart dc))"
    and "0 < backoff (rp_BaseBackoff (dc_restart dc)) (rp_Multiplier (dc_restart dc)) (b_Count (rolled (s_Restarts s) now (rp_Window (dc_restart dc))))"
    and "\<not> operatorBusy live'" and "ob_Known obs'" and "l_SpecJobState live' \<noteq> ''suspended''"
    and "l_RestartNonce live' = b_LastNonce (s_Restarts (d_Next (Decide dc p s live obs now)))"
  shows "d_Action (Decide dc p' s live' obs' now') \<noteq> Restart \<and>
     b_Count (s_Restarts (d_Next (Decide dc p' s live' obs' now'))) = b_Count (s_Restarts (d_Next (Decide dc p s live obs now))) \<and>
     b_LastNonce (s_Restarts (d_Next (Decide dc p' s live' obs' now'))) = b_LastNonce (s_Restarts (d_Next (Decide dc p s live obs now)))"
proof -
  let ?rp = "dc_restart dc" and ?c = "observe_snapshot (clear_unrecoverable s live now) obs now"
    and ?c' = "observe_snapshot (clear_unrecoverable s live' now') obs' now'"
  have c: "s_Restarts (clear_unrecoverable s live now) = s_Restarts s" "s_Restarts (clear_unrecoverable s live' now') = s_Restarts s"
    using assms(2) by (simp_all add: clear_unrecoverable_id)
  have a: "\<not> operatorBusy live" "ob_Known obs" "s_Phase s \<notin> {Suspended, Unrecoverable}"
    using assms(1,2) Decide_active_only[of Restart dc p s live obs now] by auto
  note D = Decide_is_active[OF a] and D' = Decide_is_active[OF assms(10,11) a(3), of dc p' now']
  have n: "s_Restarts (noted dc live now ?c) = s_Restarts s" using assms(3) by (simp add: noted_Restarts c)
  have R: "s_Restarts (d_Next (Decide dc p s live obs now)) =
      (Consume (s_Restarts s) now (rp_Window ?rp) (rp_BaseBackoff ?rp) (rp_Multiplier ?rp))\<lparr>b_LastNonce := UnixMilli now\<rparr>"
    using decide_active_restarted[of dc p ?c live obs now] assms(1) unfolding D n by simp
  then have nonce: "l_RestartNonce live' = UnixMilli now" using assms(13) by simp
  let ?b' = "(Consume (s_Restarts s) now' (rp_Window ?rp) (rp_BaseBackoff ?rp) (rp_Multiplier ?rp))\<lparr>b_LastNonce := UnixMilli now\<rparr>"
  have n': "s_Restarts (noted dc live' now' ?c') = ?b'"
    using assms(4) nonce by (simp add: noted_Restarts c)
  have "InBackoff ?b' now' (rp_Window ?rp)"
    using assms(5-9) by (intro Consume_InBackoff) simp_all
  then have no: "d_Action (decide_active dc p' ?c' live' obs' now') \<noteq> Restart"
    using n' by (simp add: decide_active_restart Allows_def)
  then have "s_Restarts (d_Next (Decide dc p' s live' obs' now')) = ?b'"
    unfolding D' using decide_active_Restarts[OF assms(12) no] n' by simp
  with no R assms(8) show ?thesis unfolding D' by (simp add: Consume_count)
qed

section \<open>Dry runs\<close>

text \<open>The report changes only the memory of what was reported.\<close>

lemma report_next:
  assumes "report r pol prev live obs d now ps = (ps', d')"
  obtains o' rp where "d' = d\<lparr>d_Next := (d_Next d)\<lparr>s_Outage := o', s_Reported := rp\<rparr>\<rparr>"
proof -
  have 1: "\<exists>o'. n' = n\<lparr>s_Outage := o'\<rparr>" if "report_outage r pol prev obs now n ps = (ps', n')" for n ps ps' n'
    using that by (auto simp: report_outage_def Let_def split: if_splits)
  have 2: "\<exists>rp. n' = n\<lparr>s_Reported := rp\<rparr>" if "report_savepoint r prev live n ps = (ps', n')" for n ps ps' n'
    using that by (cases n) (auto simp: report_savepoint_def Let_def split: if_splits)
  have 3: "\<exists>rp. n' = n\<lparr>s_Reported := rp\<rparr>" if "report_resume_stall r now n ps = (ps', n')" for n ps ps' n'
    using that by (cases n) (auto simp: report_resume_stall_def Let_def split: if_splits)
  have 4: "\<exists>rp. n' = n\<lparr>s_Reported := rp\<rparr>" if "report_suspend_stall r live now n ps = (ps', n')" for n ps ps' n'
    using that by (cases n) (auto simp: report_suspend_stall_def Let_def split: if_splits)
  obtain ps1 n1 where r1: "report_outage r pol prev obs now (d_Next d) ps = (ps1, n1)" by (rule prod.exhaust)
  obtain ps2 n2 where r2: "report_savepoint r prev live n1 (report_held r pol prev obs (d_Held d) n1 ps1) = (ps2, n2)" by (rule prod.exhaust)
  obtain ps3 n3 where r3: "report_resume_stall r now n2 ps2 = (ps3, n3)" by (rule prod.exhaust)
  obtain ps4 n4 where r4: "report_suspend_stall r live now n3 ps3 = (ps4, n4)" by (rule prod.exhaust)
  from 1[OF r1] 2[OF r2] 3[OF r3] 4[OF r4] obtain o' rp where "n4 = (d_Next d)\<lparr>s_Outage := o', s_Reported := rp\<rparr>" by auto
  then have "d' = d\<lparr>d_Next := (d_Next d)\<lparr>s_Outage := o', s_Reported := rp\<rparr>\<rparr>"
    using assms by (auto simp: report_def r1 r2 r3 r4)
  then show thesis by (rule that)
qed

lemma tick_decision_dry:
  assumes "tick_decision r pol s live obs now ps = (ps1, d)" and "rc_DryRun r \<or> p_DryRun pol"
    and "d_Action (Decide (rc_Decider r) pol s live obs now) \<noteq> ActNone"
  shows "d_Action d = ActNone" and "s_Phase (d_Next d) = s_Phase s" and "s_SuspendedAt (d_Next d) = s_SuspendedAt s"
    and "s_AwakeSince (d_Next d) = s_AwakeSince s" and "s_Restarts (d_Next d) = s_Restarts s"
    and "s_Snapshot (d_Next d) = s_Snapshot (d_Next (Decide (rc_Decider r) pol s live obs now))"
proof -
  let ?d0 = "Decide (rc_Decider r) pol s live obs now"
  obtain d1 where rep: "report r pol s live obs ?d0 now (say (LogDecided (gateTrace pol s live obs ?d0 now)) ps) = (ps1, d1)"
    and d: "d = (if (rc_DryRun r \<or> p_DryRun pol) \<and> d_Action d1 \<noteq> ActNone then shadow s d1 else d1)"
    using assms(1) by (auto simp: tick_decision_def Let_def split: prod.splits)
  obtain o' rp where "d1 = ?d0\<lparr>d_Next := (d_Next ?d0)\<lparr>s_Outage := o', s_Reported := rp\<rparr>\<rparr>" by (rule report_next[OF rep])
  with d assms(2,3) show "d_Action d = ActNone" and "s_Phase (d_Next d) = s_Phase s" and "s_SuspendedAt (d_Next d) = s_SuspendedAt s"
    and "s_AwakeSince (d_Next d) = s_AwakeSince s" and "s_Restarts (d_Next d) = s_Restarts s"
    and "s_Snapshot (d_Next d) = s_Snapshot (d_Next ?d0)" by (auto simp: shadow_def Let_def)
qed

lemma resumed_snapshot:
  assumes "d_Action (Decide d p s live obs now) = Resume" and "p_Mode p \<noteq> ModeOff" and "\<not> ob_Unlearned obs"
  shows "s_Snapshot (d_Next (Decide d p s live obs now)) = ob_Snapshot obs" and "ob_Known obs"
proof -
  have spec: "resume_spec p s live obs now" using assms(1) by (simp add: Decide_resumes)
  then have ph: "s_Phase s = Suspended" and nb: "\<not> operatorBusy live"
    by (auto simp: resume_spec_def dest: suspended_not_busy)
  have no: "\<not> off_resumes p s live" "\<not> sources_lost p s live obs"
    using assms(2,3) by (simp_all add: off_resumes_def sources_lost_def)
  show k: "ob_Known obs" using spec assms(2,3) by (auto simp: resume_spec_def split: if_splits)
  note D = Decide_suspended_phase[OF ph nb no k]
  show "s_Snapshot (d_Next (Decide d p s live obs now)) = ob_Snapshot obs"
    using assms(1) unfolding D by (cases "moved s obs") (auto simp: decide_suspended_resume_next)
qed

text \<open>
  C40. A dry run on a sleeping job swallows input. When a tick in dry run sees input for a job we
  put to sleep, memory stays suspended but remembers the new end offsets. At any later tick
  that reads the same end offsets, with the dry run over and no refresh due, the job is not
  resumed, although without the dry run it would be: the records wait until more arrive.
\<close>

theorem dry_run_swallows_input:
  assumes "tick_decision r pol s live obs now ps = (ps1, d)" and "rc_DryRun r \<or> p_DryRun pol"
    and "d_Action (Decide (rc_Decider r) pol s live obs now) = Resume" and "moved s obs"
    and "p_Mode pol \<noteq> ModeOff" and "\<not> ob_Unlearned obs"
    and "\<not> refresh_due pol (d_Next d) live now'"
  shows "s_Phase (d_Next d) = Suspended \<and>
     d_Action (Decide (rc_Decider r) pol (d_Next d) live obs now') \<noteq> Resume \<and>
     d_Action (Decide (rc_Decider r) pol s live obs now') = Resume"
proof -
  have spec: "resume_spec pol s live obs now" using assms(3) by (simp add: Decide_resumes)
  have "s_Snapshot (d_Next d) = ob_Snapshot obs"
    using tick_decision_dry(6)[OF assms(1,2)] resumed_snapshot(1)[OF assms(3,5,6)] assms(3) by simp
  then have "\<not> moved (d_Next d) obs" by (simp add: moved_def)
  then have "\<not> resume_spec pol (d_Next d) live obs now'"
    using assms(5-7) by (auto simp: resume_spec_def split: if_splits)
  moreover have "s_Phase (d_Next d) = Suspended"
    using tick_decision_dry(2)[OF assms(1,2)] assms(3) spec by (simp add: resume_spec_def)
  moreover have "resume_spec pol s live obs now'" using spec assms(4) by (auto simp: resume_spec_def)
  ultimately show ?thesis by (simp add: Decide_resumes)
qed

end
