(* ===== verification/Reach.thy ===== *)
theory Reach
  imports Recovery
begin

text \<open>
  The memories a run can reach, as a step relation: memory starts fresh, is repaired from
  whatever the object says, learns sources, goes through decisions, dry or not, is stamped by an
  invalid policy, and is written and read back; in any order, with any observation, any policy,
  any deployment and any edit of the object in between.
\<close>

inductive reachable :: "'w Reconciler \<Rightarrow> State \<Rightarrow> time \<Rightarrow> bool" for r where
  fresh: "Second \<le> now \<Longrightarrow> reachable r ((Initial now)\<lparr>s_Restarts := (s_Restarts (Initial now))\<lparr>b_LastNonce := n\<rparr>\<rparr>) now"
| repaired: "reachable r s t \<Longrightarrow> t \<le> now \<Longrightarrow> reachable r (repair s objectState objectReason now) now"
| observed: "reachable r s t \<Longrightarrow> observe r req pol s live ps = (ps', obs, pol', s') \<Longrightarrow> reachable r s' t"
| decided: "reachable r s t \<Longrightarrow> t \<le> now \<Longrightarrow> tick_decision r pol s live obs now ps = (ps', d) \<Longrightarrow> reachable r (d_Next d) now"
| refused: "reachable r s t \<Longrightarrow> reachable r (s\<lparr>s_Reason := reason\<rparr>) t"
| reloaded: "reachable r s t \<Longrightarrow> storable s \<Longrightarrow> FromData (Data s) = Some s' \<Longrightarrow> reachable r s' t"

section \<open>The suspension clock\<close>

lemma decide_job_gate_SuspendedAt: "s_SuspendedAt (d_Next (decide_job_gate d p cur obs now)) \<in> {now, s_SuspendedAt cur}"
  by (simp add: decide_job_gate_def suspend_now_def Let_def split: prod.split JobGate.split)

lemma decide_idle_SuspendedAt: "s_SuspendedAt (d_Next (decide_idle d p cur live obs now ra)) \<in> {now, s_SuspendedAt cur}"
  using decide_job_gate_SuspendedAt[of d p cur obs now] decide_job_gate_SuspendedAt[of d p "cur\<lparr>s_Pending := 0\<rparr>" obs now]
  by (auto simp: decide_idle_def Let_def)

lemma decide_active_SuspendedAt: "s_SuspendedAt (d_Next (decide_active d p s live obs now)) \<in> {now, s_SuspendedAt s}"
proof (cases "l_SpecJobState live = ''suspended''")
  case True
  then show ?thesis by (simp add: decide_active_def)
next
  case False
  have "s_SuspendedAt (d_Next (decide_failing d live (noted d live now s) now)) = s_SuspendedAt s"
    by (simp add: decide_failing_def Let_def)
  with False decide_idle_SuspendedAt[of d p "noted d live now s" live obs now] show ?thesis
    by (auto simp: decide_active_unfold Let_def)
qed

lemma decide_phase_SuspendedAt: "s_SuspendedAt (d_Next (decide_phase d p s live obs now)) \<in> {zero_time, now, s_SuspendedAt s}"
proof -
  have "s_SuspendedAt (d_Next (decide_suspended p s cur live obs now m)) \<in> {zero_time, s_SuspendedAt cur}" for cur m
    by (simp add: decide_suspended_def Let_def)
  from this[of "observe_snapshot s obs now" "\<not> maps_equal (ob_Snapshot obs) (s_Snapshot s)"] show ?thesis
    using decide_active_SuspendedAt[of d p "observe_snapshot s obs now" live obs now]
    by (auto simp: decide_phase_def decide_unrecoverable_def Let_def)
qed

lemma Decide_SuspendedAt: "s_SuspendedAt (d_Next (Decide d p s live obs now)) \<in> {zero_time, now, s_SuspendedAt s}"
proof -
  have "s_SuspendedAt (clear_unrecoverable s live now) \<in> {zero_time, s_SuspendedAt s}" by (simp add: clear_unrecoverable_fields)
  then show ?thesis
    using decide_phase_SuspendedAt[of d p "clear_unrecoverable s live now" live obs now]
    by (auto simp: Decide_unfold relearn_def)
qed

section \<open>The invariant\<close>

definition memory_ok :: "State \<Rightarrow> time \<Rightarrow> bool" where
  "memory_ok s t \<longleftrightarrow> state_ok s t \<and> s_Phase s \<in> phases \<and> Second \<le> t \<and> (IsZero (s_SuspendedAt s) \<or> Second \<le> s_SuspendedAt s)"

lemma memory_ok_irrelevant [simp]:
  "memory_ok (s\<lparr>s_Reason := x1\<rparr>) t = memory_ok s t" "memory_ok (s\<lparr>s_Sources := x2\<rparr>) t = memory_ok s t"
  "memory_ok (s\<lparr>s_Reported := x3\<rparr>) t = memory_ok s t" "memory_ok (s\<lparr>s_Outage := x4\<rparr>) t = memory_ok s t"
  "memory_ok (s\<lparr>s_Snapshot := x5\<rparr>) t = memory_ok s t"
  by (simp_all add: memory_ok_def state_ok_defs)

lemma observe_memory:
  assumes "observe r req pol s live ps = (ps', obs, pol', s')"
  obtains a b where "s' = s\<lparr>s_Sources := a, s_Reported := b\<rparr>"
proof -
  obtain ps1 job jobKnown settled where 1: "jobSources r req live ps = (ps1, job, jobKnown, settled)" by (metis prod_cases4)
  obtain ps2 s1 where 2: "observe_sources r pol s live job settled ps1 = (ps2, s1)" by (rule prod.exhaust)
  have "s' = s1" using assms by (auto simp: observe_def 1 2 Let_def split: prod.splits if_splits)
  moreover have "\<exists>a b. s1 = s\<lparr>s_Sources := a, s_Reported := b\<rparr>"
    using 2 by (cases s) (auto simp: observe_sources_def learnSources_def split: if_splits prod.splits)
  ultimately show thesis using that by blast
qed

lemma repair_ok: "memory_ok s t \<Longrightarrow> t \<le> now \<Longrightarrow> memory_ok (repair s a b now) now"
  by (auto simp: memory_ok_def repair_def state_ok_defs dest: budget_ok_later)

lemma shadow_ok: "memory_ok s now \<Longrightarrow> memory_ok (d_Next d) now \<Longrightarrow> memory_ok (d_Next (shadow s d)) now"
  by (simp add: memory_ok_def shadow_def state_ok_defs Let_def)

lemma tick_decision_ok:
  assumes "memory_ok s t" and "t \<le> now" and "tick_decision r pol s live obs now ps = (ps1, d)"
  shows "memory_ok (d_Next d) now"
proof -
  let ?d0 = "Decide (rc_Decider r) pol s live obs now"
  obtain d1 where rep: "report r pol s live obs ?d0 now (say (LogDecided (gateTrace pol s live obs ?d0 now)) ps) = (ps1, d1)"
    and d: "d = (if (rc_DryRun r \<or> p_DryRun pol) \<and> d_Action d1 \<noteq> ActNone then shadow s d1 else d1)"
    using assms(3) by (auto simp: tick_decision_def Let_def split: prod.splits)
  obtain o' rp where d1: "d1 = ?d0\<lparr>d_Next := (d_Next ?d0)\<lparr>s_Outage := o', s_Reported := rp\<rparr>\<rparr>" by (rule report_next[OF rep])
  have t: "Second \<le> t" "s_Phase s \<in> phases" "state_ok s t" using assms(1) by (simp_all add: memory_ok_def)
  have "memory_ok (d_Next ?d0) now"
    using Decide_keeps_memory_ok[OF t(3) assms(2)] Decide_phases[OF t(2)] Decide_SuspendedAt[of "rc_Decider r" pol s live obs now] assms(1,2)
    by (auto simp: memory_ok_def)
  then have "memory_ok (d_Next d1) now" by (simp add: d1)
  moreover have "memory_ok s now" using assms(1,2) by (auto simp: memory_ok_def dest: state_ok_later)
  ultimately show ?thesis using d shadow_ok by auto
qed

lemma whole_second_le: "whole_second t \<le> t"
  unfolding whole_second_def using div_mult_mod_eq[of t Second] pos_mod_sign[of Second t] by linarith

lemma whole_second_ge:
  assumes "Second \<le> t"
  shows "Second \<le> whole_second t"
proof -
  have "1 \<le> t div Second" using zdiv_mono1[OF assms, of Second] by simp
  then show ?thesis unfolding whole_second_def by linarith
qed

lemma stored_ok:
  assumes "memory_ok s t"
  shows "memory_ok (stored s) t"
proof -
  have "whole_second (s_SuspendedAt s) = 0 \<longleftrightarrow> s_SuspendedAt s = 0" "whole_second 0 = 0"
    using assms whole_second_ge[of "s_SuspendedAt s"] by (auto simp: memory_ok_def whole_second_def)
  then show ?thesis
    using assms by (auto simp: memory_ok_def state_ok_defs stored_def whole_second_ge intro: order_trans[OF whole_second_le])
qed

lemma reloaded_ok:
  assumes "memory_ok s t" and "storable s" and "FromData (Data s) = Some s'"
  shows "memory_ok s' t"
proof -
  have "same_memory s' (stored s)" using memory.decoded[OF assms(2,3)] .
  then have "s'\<lparr>s_Snapshot := []\<rparr> = (stored s)\<lparr>s_Snapshot := []\<rparr>" by (simp add: same_memory_def)
  with stored_ok[OF assms(1)] show ?thesis by (metis memory_ok_irrelevant(5))
qed

lemma fresh_ok: "Second \<le> now \<Longrightarrow> memory_ok ((Initial now)\<lparr>s_Restarts := (s_Restarts (Initial now))\<lparr>b_LastNonce := n\<rparr>\<rparr>) now"
  using Initial_ok[of now] by (simp add: memory_ok_def state_ok_defs Initial_def zero_state_def)

text \<open>
  C7. Memory stays well formed for ever. Every memory a run can reach is in one of the three
  phases; its suspension clock is set exactly while it is suspended; no clock lies in the future
  and the restart budget is well formed. This holds through repairs from any object, learned
  sources, decisions and their reports, dry runs, refusals, and writing and reading memory
  with its clocks cut to the second.
\<close>

theorem memory_invariant:
  assumes "reachable r s t"
  shows "state_ok s t \<and> s_Phase s \<in> {Active, Suspended, Unrecoverable}"
proof -
  have "memory_ok s t"
    using assms
  proof induction
    case (observed s t req pol live ps ps' obs pol' s')
    then show ?case by (auto elim: observe_memory)
  qed (auto simp: fresh_ok repair_ok tick_decision_ok intro: reloaded_ok)
  then show ?thesis by (simp add: memory_ok_def)
qed

end
