(* ===== verification/Examples.thy ===== *)
theory Examples
  imports Reach PatcherProps JobProps
begin

text \<open>
  The properties of the tick at work: one deployment on the small API server, the reconciler as
  the binary builds it, and a broker whose answers are fixed.
\<close>

section \<open>The server keeps the contracts\<close>

lemma cluster_obj_key: "cluster_obj c k = Some fd \<Longrightarrow> object_key fd = k"
  by (auto simp: cluster_obj_def split: option.splits if_splits)

lemma map_of_merge_annotations:
  "map_of (merge_annotations ps m) a = (case map_of ps a of None \<Rightarrow> map_of m a | Some v \<Rightarrow> v)"
  using gm.get_after[where k = a and ops = "rev ps" and c = m] by (simp add: merge_annotations_def)

lemma merge_spec_sel:
  "object_key (merge_spec sp fd) = object_key fd" "u_UID (merge_spec sp fd) = u_UID fd"
  "u_NestedString (merge_spec sp fd) spec_job_state = (case sp of Some (JobState s) \<Rightarrow> s | _ \<Rightarrow> u_NestedString fd spec_job_state)"
  "u_NestedInt64 (merge_spec sp fd) [''spec'', ''restartNonce''] =
     (case sp of Some (RestartNonce n) \<Rightarrow> n | _ \<Rightarrow> u_NestedInt64 fd [''spec'', ''restartNonce''])"
  by (simp_all add: merge_spec_def split: option.split SpecPatch.split)

lemma conditional_cluster: "conditional cluster cluster_obj k"
proof -
  have "\<exists>cur new. cluster_obj w k = Some cur \<and> u_ResourceVersion cur = mp_ResourceVersion p \<and>
      cluster_obj w' k = Some new \<and> applied p cur new"
    if p: "cluster_patch w fd p = (w', None)" and k: "object_key fd = k" for w w' fd p
  proof (cases "cluster_obj w k")
    case None
    with p k show ?thesis by (simp add: cluster_patch_def)
  next
    case (Some cur)
    let ?new = "(merge_spec (mp_Spec p) cur)\<lparr>u_Annotations := merge_annotations (mp_Annotations p) (u_Annotations cur),
        u_ResourceVersion := FormatInt (cl_Revision w + 1)\<rparr>"
    have ck: "object_key cur = k" using cluster_obj_key[OF Some] .
    with p k Some have "u_ResourceVersion cur = mp_ResourceVersion p"
      and "w' = w\<lparr>cl_Objects := map_put k ?new (cl_Objects w), cl_Revision := cl_Revision w + 1\<rparr>"
      by (auto simp: cluster_patch_def split: if_splits)
    moreover have "object_key ?new = k" using merge_spec_sel(1)[of "mp_Spec p" cur] ck by simp
    moreover have "applied p cur ?new"
      using merge_spec_sel[of "mp_Spec p" cur] by (simp add: applied_def map_of_merge_annotations)
    ultimately show ?thesis using Some by (auto simp: cluster_obj_def)
  qed
  moreover have "object_key fresh = k" if "k_Read cluster w k = (w', Inr fresh)" for w w' fresh
    by (rule cluster_obj_key[of w]) (use that in \<open>auto simp: cluster_def\<close>)
  moreover have "k_Patch cluster = cluster_patch" by (simp add: cluster_def)
  ultimately show ?thesis unfolding conditional_def by metis
qed

lemma versioned_cluster:
  "cluster_obj c (object_key fd) = Some fd \<Longrightarrow> versioned cluster cluster_obj fd c"
  by (auto simp: versioned_def cluster_def)

section \<open>The reconciler\<close>

definition orders_reconciler :: "Cluster Reconciler" where
  "orders_reconciler =
     \<lparr>rc_Client = cluster, rc_Prefix = ''siesta.flink.io'', rc_DryRun = False,
      rc_Probe = (\<lambda>c topics. (c, \<lparr>of_Snapshot = [(''orders'', ''8812,8790'')], of_Ends = [(''orders'', [8812, 8790])]\<rparr>, None)),
      rc_Lag = None, rc_Flink = None, rc_Gaps = None, rc_Decider = main_decider, rc_Recorder = True, rc_Now = (\<lambda>c. t0),
      rc_Reader = True, rc_Seen = True, rc_PollInterval = Minute, rc_ProbeTimeout = 10 * Second,
      rc_ResumeStallAfter = 10 * Minute, rc_Concurrency = 4\<rparr>"

abbreviation orders_req :: key where
  "orders_req \<equiv> (''flink'', ''orders'')"

definition orders_cluster :: "Object \<Rightarrow> Cluster" where
  "orders_cluster fd =
     \<lparr>cl_Objects = [(orders_req, fd)],
      cl_ConfigMaps = [((''flink'', ''siesta-orders''), new_configmap orders_object (Data idle_state))], cl_Revision = 7\<rparr>"

definition orders_proc :: "Object \<Rightarrow> Cluster Proc" where
  "orders_proc fd = \<lparr>ss_world = orders_cluster fd, ss_seen = [], pr_log = [], pr_jobs = [], pr_ticks = []\<rparr>"

lemma orders_apart: "apart (orders_reconciler\<lparr>rc_DryRun := dry\<rparr>) cluster_cms k"
proof -
  have "cl_ConfigMaps (fst (cluster_patch c fd p)) = cl_ConfigMaps c" for c fd p
    by (simp add: cluster_patch_def split: option.split)
  then have "cluster_cms (fst (cluster_patch c fd p)) k = cluster_cms c k" for c fd p by (simp add: cluster_cms_def)
  then show ?thesis by (simp add: apart_def orders_reconciler_def cluster_def)
qed

lemma orders_gets_named: "gets_named orders_reconciler req"
proof -
  have "object_key fd = req" if "k_Get (rc_Client orders_reconciler) w req = (w', Inr fd)" for w w' fd
    by (rule cluster_obj_key[of w]) (use that in \<open>auto simp: orders_reconciler_def cluster_def\<close>)
  then show ?thesis by (simp add: gets_named_def)
qed

section \<open>Witnesses\<close>

theorem dry_run_never_writes_spec_witness:
  "Reconcile (with_spec_patch (\<lambda>c fd p. (c, Some conflict)) (orders_reconciler\<lparr>rc_DryRun := True\<rparr>)) orders_req (orders_proc orders_object) =
   Reconcile (orders_reconciler\<lparr>rc_DryRun := True\<rparr>) orders_req (orders_proc orders_object)"
  by (rule dry_run_never_writes_spec) simp

lemma orders_got: "k_Get cluster (orders_cluster (orders_object\<lparr>u_Annotations := ann\<rparr>)) orders_req =
    (orders_cluster (orders_object\<lparr>u_Annotations := ann\<rparr>), Inr (orders_object\<lparr>u_Annotations := ann\<rparr>))"
  by (simp add: cluster_def orders_cluster_def cluster_obj_def orders_object_def)


text \<open>A suspend whose memory was lost: the object says suspended, the ConfigMap still has the idle job.\<close>

abbreviation suspended_object :: Object where
  "suspended_object \<equiv> orders_object\<lparr>u_Annotations := [(''siesta.flink.io/mode'', ''auto''), (''siesta.flink.io/state'', ''suspended'')]\<rparr>"

lemma idle_state_readable: "FromData (Data idle_state) = Some idle_state"
  by code_simp

lemma idle_loaded: "\<exists>ps1. Load cluster True suspended_object (orders_proc suspended_object) = (ps1, Inr (Some idle_state))"
  using new_configmap_sel(1)[of orders_object "Data idle_state"]
  by (simp add: Load_def cluster_def cluster_cms_def orders_proc_def orders_cluster_def store_key_def Name_def Let_def
      ownedBy_def new_configmap_def orders_object_def idle_state_readable)

lemma idle_suspends:
  "d_Action (Decide main_decider orders_policy idle_state stable_live (orders_seen ''8812,8790'') t0) = Suspend"
  "s_Phase (d_Next (Decide main_decider orders_policy idle_state stable_live (orders_seen ''8812,8790'') t0)) = Suspended"
  by code_simp+

theorem lost_save_is_repaired_witness:
  "\<exists>ps1 s. load_memory orders_reconciler suspended_object asleep_live (t0 + Minute) (orders_proc suspended_object) = (ps1, Inr (s, True)) \<and>
     s_Phase s = Suspended \<and> s_Phase idle_state = Active"
proof -
  let ?d = "Decide main_decider orders_policy idle_state stable_live (orders_seen ''8812,8790'') t0"
  obtain ps1 where L: "Load (rc_Client orders_reconciler) (rc_Seen orders_reconciler) suspended_object (orders_proc suspended_object) = (ps1, Inr (Some idle_state))"
    using idle_loaded by (auto simp: orders_reconciler_def)
  have ph: "s_Phase idle_state = Active" by (simp add: idle_state_def Initial_def)
  have "get_str (u_Annotations suspended_object) (rc_Prefix orders_reconciler @ ''/state'') = s_Phase (d_Next ?d)"
    unfolding idle_suspends(2) by (simp add: orders_reconciler_def get_str_def Suspended_def)
  from lost_save_is_repaired[OF _ _ _ refl this L, of asleep_live "t0 + Minute"] ph idle_suspends(2) show ?thesis
    by (auto simp: orders_policy_def)
qed

theorem lost_restart_is_counted_once_witness:
  "d_Action (Decide main_decider orders_policy idle_state (failed_live\<lparr>l_RestartNonce := UnixMilli t0\<rparr>) (orders_seen ''8812,8790'') (t0 + 10 * Second)) \<noteq> Restart \<and>
   b_Count (s_Restarts (d_Next (Decide main_decider orders_policy idle_state (failed_live\<lparr>l_RestartNonce := UnixMilli t0\<rparr>)
     (orders_seen ''8812,8790'') (t0 + 10 * Second)))) = 1"
proof -
  let ?D = "Decide main_decider orders_policy idle_state failed_live (orders_seen ''8812,8790'') t0"
  have a: "d_Action ?D = Restart" "b_LastNonce (s_Restarts (d_Next ?D)) = UnixMilli t0" "b_Count (s_Restarts (d_Next ?D)) = 1" by code_simp+
  have w: "rolled (s_Restarts idle_state) (t0 + 10 * Second) (rp_Window (dc_restart main_decider)) =
      rolled (s_Restarts idle_state) t0 (rp_Window (dc_restart main_decider))"
    "0 < backoff (rp_BaseBackoff (dc_restart main_decider)) (rp_Multiplier (dc_restart main_decider))
       (b_Count (rolled (s_Restarts idle_state) t0 (rp_Window (dc_restart main_decider))))" by code_simp+
  have "s_Phase idle_state \<noteq> Unrecoverable" "l_RestartNonce failed_live \<le> b_LastNonce (s_Restarts idle_state)"
    "b_LastNonce (s_Restarts idle_state) < UnixMilli t0" "0 < t0" "t0 \<le> t0 + 10 * Second" "0 \<le> rp_Window (dc_restart main_decider)"
    "\<not> operatorBusy (failed_live\<lparr>l_RestartNonce := UnixMilli t0\<rparr>)" "ob_Known (orders_seen ''8812,8790'')"
    "l_SpecJobState (failed_live\<lparr>l_RestartNonce := UnixMilli t0\<rparr>) \<noteq> ''suspended''" by code_simp+
  with lost_restart_is_counted_once[of main_decider orders_policy idle_state failed_live "orders_seen ''8812,8790''" t0 "t0 + 10 * Second"
      "failed_live\<lparr>l_RestartNonce := UnixMilli t0\<rparr>" "orders_seen ''8812,8790''" orders_policy] a w
  show ?thesis by simp
qed

theorem dry_run_swallows_input_witness:
  "\<exists>d. d = snd (tick_decision (orders_reconciler\<lparr>rc_DryRun := True\<rparr>) orders_policy asleep_state asleep_live (orders_seen ''8813,8790'') t0 (orders_proc orders_object)) \<and>
     s_Phase (d_Next d) = Suspended \<and>
     d_Action (Decide main_decider orders_policy (d_Next d) asleep_live (orders_seen ''8813,8790'') (t0 + Hour)) \<noteq> Resume \<and>
     d_Action (Decide main_decider orders_policy asleep_state asleep_live (orders_seen ''8813,8790'') (t0 + Hour)) = Resume"
proof -
  let ?r = "orders_reconciler\<lparr>rc_DryRun := True\<rparr>"
  obtain ps1 d where t: "tick_decision ?r orders_policy asleep_state asleep_live (orders_seen ''8813,8790'') t0 (orders_proc orders_object) = (ps1, d)"
    by (rule prod.exhaust)
  have r: "rc_Decider ?r = main_decider" by (simp add: orders_reconciler_def)
  have "d_Action (Decide main_decider orders_policy asleep_state asleep_live (orders_seen ''8813,8790'') t0) = Resume"
    "moved asleep_state (orders_seen ''8813,8790'')" "p_Mode orders_policy \<noteq> ModeOff" "\<not> ob_Unlearned (orders_seen ''8813,8790'')" by code_simp+
  moreover have "\<not> refresh_due orders_policy (d_Next d) asleep_live (t0 + Hour)"
    by (simp add: refresh_due_def ResumesFromGroup_def orders_policy_def zero_policy_def)
  ultimately show ?thesis
    using dry_run_swallows_input[OF t, of "t0 + Hour"] t by (simp add: r)
qed

theorem memory_invariant_witness:
  "s_Phase (repair (Initial t0) ''suspended'' '''' (t0 + Hour)) = Suspended \<and> state_ok (repair (Initial t0) ''suspended'' '''' (t0 + Hour)) (t0 + Hour)"
proof -
  have "reachable orders_reconciler ((Initial t0)\<lparr>s_Restarts := (s_Restarts (Initial t0))\<lparr>b_LastNonce := 0\<rparr>\<rparr>) t0"
    by (rule reachable.fresh) (simp add: t0_def)
  moreover have "(Initial t0)\<lparr>s_Restarts := (s_Restarts (Initial t0))\<lparr>b_LastNonce := 0\<rparr>\<rparr> = Initial t0"
    by (simp add: Initial_def zero_state_def zero_budget_def)
  ultimately have "reachable orders_reconciler (Initial t0) t0" by simp
  then have "reachable orders_reconciler (repair (Initial t0) ''suspended'' '''' (t0 + Hour)) (t0 + Hour)"
    by (rule reachable.repaired) simp
  from memory_invariant[OF this] show ?thesis by (simp add: repair_def Initial_def Suspended_def)
qed

text \<open>An awake job within its idle window, whose memory is already written.\<close>

definition awake_state :: State where
  "awake_state = (Initial (t0 - Hour))\<lparr>s_Snapshot := [(''orders'', ''8812,8790'')], s_Generation := 1\<rparr>"

definition written_proc :: "Cluster Proc" where
  "written_proc = (orders_proc orders_object)\<lparr>ss_seen := [((''flink'', ''siesta-orders''), new_configmap orders_object (Data awake_state))]\<rparr>"


text \<open>A patch that meets a conflict: the cached object is one version behind, its desired state is still the same.\<close>

abbreviation stale_object :: Object where
  "stale_object \<equiv> orders_object\<lparr>u_ResourceVersion := ''6''\<rparr>"

theorem merge_never_overwrites_witness:
  "\<exists>ps' new. merge (the_patcher orders_reconciler) stale_object idle_state (Some (JobState ''suspended'')) (orders_proc orders_object) = (ps', None) \<and>
     cluster_obj (ss_world ps') orders_req = Some new \<and> u_NestedString new spec_job_state = ''suspended''"
proof -
  let ?p = "the_patcher orders_reconciler" and ?s = "Some (JobState ''suspended'')"
  have p: "pt_Client ?p = cluster" "pt_Reader ?p" by (simp_all add: the_patcher_def orders_reconciler_def)
  have k: "object_key stale_object = orders_req" by (simp add: orders_object_def)
  have o: "cluster_obj (orders_cluster orders_object) orders_req = Some orders_object"
    by (simp add: cluster_obj_def orders_cluster_def orders_object_def)
  have r1: "k_Patch cluster (orders_cluster orders_object) stale_object (patch_body ?p idle_state ''6'' ?s) = (orders_cluster orders_object, Some conflict)"
    using o k by (simp add: cluster_def cluster_patch_def) (simp add: orders_object_def)
  have r2: "k_Read cluster (orders_cluster orders_object) orders_req = (orders_cluster orders_object, Inr orders_object)"
    using o by (simp add: cluster_def)
  have "snd (k_Patch cluster (orders_cluster orders_object) orders_object (patch_body ?p idle_state (u_ResourceVersion orders_object) ?s)) = None"
    using o by (simp add: cluster_def cluster_patch_def) (simp add: orders_object_def cluster_obj_def orders_cluster_def)
  then obtain w3 where r3: "k_Patch cluster (orders_cluster orders_object) orders_object (patch_body ?p idle_state (u_ResourceVersion orders_object) ?s) = (w3, None)"
    by (metis prod.collapse)
  have m: "merge ?p stale_object idle_state ?s (orders_proc orders_object) = ((orders_proc orders_object)\<lparr>ss_world := w3\<rparr>, None)"
    using r1 r2 r3 k by (simp add: merge_def p orders_proc_def Let_def conflict_def)
  have "versioned cluster cluster_obj stale_object (ss_world (orders_proc orders_object))"
    using o k by (auto simp: versioned_def cluster_def orders_proc_def orders_object_def)
  from merge_never_overwrites[of ?p cluster_obj stale_object, unfolded p, OF conditional_cluster this m] m show ?thesis
    unfolding k by auto
qed

text \<open>A job we put to sleep, after its policy was removed.\<close>

definition released_object :: Object where
  "released_object = orders_object\<lparr>u_Annotations := [(''team'', ''a''), (''siesta.flink.io/state'', ''suspended''), (''siesta.flink.io/reason'', ''idle'')],
     u_NestedString := (\<lambda>path. if path = spec_job_state then ''suspended'' else if path = [''status'', ''lifecycleState''] then ''SUSPENDED'' else '''')\<rparr>"

lemma released_live: "l_SpecJobState (Live released_object) = ''suspended''" "l_LifecycleState (Live released_object) = ''SUSPENDED''"
  by (simp_all add: Live_def released_object_def)

lemma released_by_us: "asleep_by_us orders_reconciler released_object"
  by (simp add: asleep_by_us_def released_live) (simp add: released_object_def orders_reconciler_def Suspended_def)

theorem release_hands_back_awake_witness:
  "\<exists>new. cluster_cms (ss_world (fst (release orders_reconciler orders_req released_object (orders_proc released_object)))) (''flink'', ''siesta-orders'') = None \<and>
     cluster_obj (ss_world (fst (release orders_reconciler orders_req released_object (orders_proc released_object)))) orders_req = Some new \<and>
     u_NestedString new spec_job_state = ''running'' \<and> \<not> has_key (u_Annotations new) ''siesta.flink.io/state''"
proof -
  let ?r = orders_reconciler and ?ps = "orders_proc released_object"
  obtain ps' res where R: "release ?r orders_req released_object ?ps = (ps', res)" by (rule prod.exhaust)
  have c: "rc_Client ?r = cluster" "rc_Prefix ?r = ''siesta.flink.io''" by (simp_all add: orders_reconciler_def)
  have k: "object_key released_object = orders_req" "store_key released_object = (''flink'', ''siesta-orders'')"
    by (simp_all add: released_object_def store_key_def Name_def orders_object_def)
  have "cluster_obj (ss_world ?ps) (object_key released_object) = Some released_object"
    using k(1) by (simp add: cluster_obj_def orders_proc_def orders_cluster_def)
  then have v: "versioned (rc_Client ?r) cluster_obj released_object (ss_world ?ps)" unfolding c by (rule versioned_cluster)
  have m: "has_key (u_Annotations released_object) (rc_Prefix ?r @ ''/state'')"
    by (simp add: c has_key_def released_object_def)
  have del: "\<forall>w q. cluster_obj (fst (k_DeleteCM (rc_Client ?r) w q)) (object_key released_object) = cluster_obj w (object_key released_object)"
    by (simp add: c cluster_def cluster_obj_def)
  note th = release_hands_back_awake[OF conditional_cluster[of "object_key released_object", folded c(1)] v serves_cluster[of "store_key released_object", folded c(1)] m R del]
  have "rs_Error (snd (release ?r orders_req released_object ?ps)) = None \<and> rs_RequeueAfter (snd (release ?r orders_req released_object ?ps)) = 0"
    by code_simp
  then have "rs_Error res = None \<and> rs_RequeueAfter res = 0" unfolding R by simp
  moreover have "annotated ''siesta.flink.io'' zero_state cur new \<Longrightarrow> \<not> has_key (u_Annotations new) ''siesta.flink.io/state''" for cur new
    by (simp add: annotated_def has_key_def zero_state_def)
  ultimately show ?thesis using th released_by_us unfolding R c k by auto
qed

text \<open>A quiet job short of the end offsets by a transaction marker.\<close>

definition marker_reading :: JobReading where
  "marker_reading = \<lparr>jr_Offsets = [(''orders'', [(0, 8810), (1, 8789)])], jr_IdleFor = 2 * Minute, jr_Drained = []\<rparr>"

definition marker_reconciler :: "Cluster Reconciler" where
  "marker_reconciler = orders_reconciler\<lparr>rc_Gaps := Some (\<lambda>c topic p from to. (c, False, None))\<rparr>"

theorem drained_bounded_and_sound_witness:
  "marked_drained (snd (drained marker_reconciler [''orders''] [(''orders'', [8812, 8790])] marker_reading (orders_proc orders_object))) ''orders'' 0 \<and>
   \<not> marked_drained (snd (drained marker_reconciler [''orders''] [(''orders'', [8812, 8790])] marker_reading (orders_proc orders_object))) ''orders'' 1 \<and>
   gap_questions (fst (drained marker_reconciler [''orders''] [(''orders'', [8812, 8790])] marker_reading (orders_proc orders_object))) \<le> 16"
proof -
  let ?D = "drained marker_reconciler [''orders''] [(''orders'', [8812, 8790])] marker_reading (orders_proc orders_object)"
  obtain ps' out where D: "?D = (ps', out)" by (rule prod.exhaust)
  have "gap_questions (orders_proc orders_object) = 0" by (simp add: gap_questions_def orders_proc_def)
  then have "gap_questions ps' \<le> 16" using drained_bounded_and_sound[OF D] by auto
  moreover have "marked_drained (snd ?D) ''orders'' 0" "\<not> marked_drained (snd ?D) ''orders'' 1" by code_simp+
  ultimately show ?thesis unfolding D by simp
qed

text \<open>A job asked twice before, 40 seconds and 20 seconds ago, that shows the same topic a third time.\<close>

abbreviation orders_sources :: Sources where
  "orders_sources \<equiv> \<lparr>sr_Topics = [''orders''], sr_Vertices = [''v1'']\<rparr>"

definition asked_twice :: cachedJob where
  "asked_twice = note_answer (note_answer (zero_cachedJob\<lparr>cj_id := ''a1''\<rparr>) orders_sources (t0 - 40 * Second)) orders_sources (t0 - 20 * Second)"

definition asking_proc :: "Cluster Proc" where
  "asking_proc = (orders_proc orders_object)\<lparr>pr_jobs := [(orders_req, asked_twice)]\<rparr>"

definition asking_reconciler :: "Cluster Reconciler" where
  "asking_reconciler = orders_reconciler\<lparr>rc_Flink := Some \<lparr>jp_Sources = (\<lambda>c ns name job. (c, orders_sources, None)),
     jp_Read = (\<lambda>c ns name job src. (c, zero_reading, None))\<rparr>\<rparr>"


end
