(* ===== verification/WiringExample.thy ===== *)
theory WiringExample
  imports Wiring Examples
begin

text \<open>
  The whole program set up against the example API server, broker and job, with a login over TLS from
  the environment and no flags given.
\<close>

definition no_flags :: Flags where
  "no_flags = \<lparr>fl_String = (\<lambda>n. None), fl_Bool = (\<lambda>n. None), fl_Int = (\<lambda>n. None), fl_Float64 = (\<lambda>n. None), fl_Duration = (\<lambda>n. None)\<rparr>"

definition example_admin :: "nat Admin" where
  "example_admin =
     \<lparr>ad_ListEndOffsets = (\<lambda>b topics. (\<lparr>ls_Error = None, ls_Each = [\<lparr>lo_Topic = ''orders'', lo_Partition = 0, lo_Offset = 6\<rparr>]\<rparr>, None)),
      ad_FetchOffsets = (\<lambda>b grp. (\<lparr>fo_Error = None, fo_Lookup = (\<lambda>t p. None)\<rparr>, None))\<rparr>"

definition example_runtime :: "(Cluster, nat) Runtime" where
  "example_runtime =
     \<lparr>rt_NewManager = (\<lambda>opts. Inr cluster), rt_NewClient = (\<lambda>opts. Inr (example_admin, example_client)), rt_SetupWithManager = None\<rparr>"

lemma keeps_cms_cluster: "keeps_cms cluster cluster_cms k"
  using orders_apart[of False k] by (simp add: apart_def keeps_cms_def orders_reconciler_def)

lemma example_setup:
  "run_setup example_env no_flags example_host example_runtime (\<lambda>c. t0) example_rest =
     Inr (run_reconciler (parseFlags example_env no_flags) cluster (\<lambda>c. t0) example_admin example_client example_rest)"
proof -
  let ?cfg = "parseFlags example_env no_flags"
  have "cf_brokers ?cfg = []" by code_simp
  then have k: "run_kafka_config example_env ?cfg = KafkaConfigFromEnv example_env" by (simp add: run_kafka_config_def Let_def)
  have "case Opts example_host (KafkaConfigFromEnv example_env) of Inl e \<Rightarrow> False | Inr opts \<Rightarrow> True" by code_simp
  then obtain opts where "Opts example_host (KafkaConfigFromEnv example_env) = Inr opts" by (auto split: sum.splits)
  with k show ?thesis by (simp add: run_setup_def example_runtime_def NewKafka_def Let_def)
qed

theorem wired_tick_returns_witness:
  "\<exists>ps' res. Reconcile (run_reconciler (parseFlags example_env no_flags) cluster (\<lambda>c. t0) example_admin example_client example_rest)
     orders_req \<lparr>ss_world = ((orders_cluster orders_object, 0, 0), []), ss_seen = [], pr_log = [], pr_jobs = [], pr_ticks = []\<rparr> = Some (ps', res)"
proof (rule wired_tick_returns[OF example_setup])
  have "object_key fd = orders_req" if "k_Get cluster w orders_req = (w', Inr fd)" for w w' fd
    by (rule cluster_obj_key[of w]) (use that in \<open>auto simp: cluster_def\<close>)
  then show "\<forall>opts kube. rt_NewManager example_runtime opts = Inr kube \<longrightarrow>
       serves kube cluster_cms (req_key orders_req) \<and> keeps_cms kube cluster_cms (req_key orders_req) \<and>
       (\<forall>w w' fd. k_Get kube w orders_req = (w', Inr fd) \<longrightarrow> object_key fd = orders_req)"
    using serves_cluster keeps_cms_cluster by (auto simp: example_runtime_def)
qed

end
