(* ===== verification/SafeSleepExample.thy ===== *)
theory SafeSleepExample
  imports SafeSleep WiringExample
begin

text \<open>
  A deployment that asks its job before it sleeps, seen by the whole program: three hours idle, the job at
  the last record of its partition, and an aborted transaction with its marker behind it.
\<close>

definition sleepy_object :: Object where
  "sleepy_object = orders_object\<lparr>
     u_Annotations := [(''siesta.flink.io/mode'', ''auto''), (''siesta.flink.io/sources'', ''orders''), (''siesta.flink.io/idle'', ''job''),
       (''siesta.flink.io/idle-after'', ''1h''), (''siesta.flink.io/min-awake'', ''10m'')],
     u_NestedString := (u_NestedString orders_object)([''status'', ''jobStatus'', ''jobId''] := ''a1'')\<rparr>"

definition sleepy_cluster :: Cluster where
  "sleepy_cluster =
     \<lparr>cl_Objects = [(orders_req, sleepy_object)],
      cl_ConfigMaps = [((''flink'', ''siesta-orders''), new_configmap orders_object (Data (idle_state\<lparr>s_Snapshot := [(''orders'', ''6'')]\<rparr>)))], cl_Revision = 7\<rparr>"

definition sleepy_rest :: "nat REST" where
  "sleepy_rest = example_rest\<lparr>
     re_names := (\<lambda>b. Inr [''Source.KafkaSourceReader.topic.orders.partition.0.currentOffset'', ''Source.sourceIdleTime'', ''numRecordsOut'']),
     re_aggregates := (\<lambda>b. Inr [\<lparr>ag_ID = ''Source.KafkaSourceReader.topic.orders.partition.0.currentOffset'', ag_Min = 0, ag_Max = 0\<rparr>,
                                \<lparr>ag_ID = ''Source.sourceIdleTime'', ag_Min = 90000, ag_Max = 120000\<rparr>])\<rparr>"

text \<open>An API server that refuses every patch, so that what is asked of it shows in the result.\<close>

definition sleepy_reconciler :: "(Cluster, nat, nat) world Reconciler" where
  "sleepy_reconciler = run_reconciler (parseFlags example_env no_flags) (cluster\<lparr>k_Patch := (\<lambda>c fd p. (c, Some (new_error ''down'')))\<rparr>)
      (\<lambda>c. t0) example_admin example_client sleepy_rest"

definition sleepy_proc :: "(Cluster, nat, nat) world Proc" where
  "sleepy_proc = \<lparr>ss_world = ((sleepy_cluster, 0, 0), []), ss_seen = [], pr_log = [], pr_jobs = [], pr_ticks = []\<rparr>"


abbreviation sleepy_memory :: State where
  "sleepy_memory \<equiv> idle_state\<lparr>s_Snapshot := [(''orders'', ''6'')]\<rparr>"

definition sleepy_policy :: Policy where
  "sleepy_policy =
     \<lparr>p_Mode = ''auto'', p_Sources = [''orders''], p_SourcesAuto = False, p_IdleAfter = Hour, p_MinAwake = 10 * Minute,
      p_Restart = True, p_ConsumerGroup = [], p_IdleFromJob = True, p_ResumeFromGroup = False, p_MaxSleep = 144 * Hour,
      p_DryRun = False, p_Problems = []\<rparr>"

definition sleepy_loaded :: "(Cluster, nat, nat) world Proc" where
  "sleepy_loaded = sleepy_proc\<lparr>ss_seen := [((''flink'', ''siesta-orders''), new_configmap orders_object (Data sleepy_memory))]\<rparr>"

lemma sleepy_read: "Read ''siesta.flink.io'' (u_Annotations sleepy_object) = Some sleepy_policy"
  by code_simp

lemma sleepy_readable: "FromData (Data sleepy_memory) = Some sleepy_memory"
  by code_simp

lemma sleepy_found: "load_memory sleepy_reconciler sleepy_object (Live sleepy_object) t0 sleepy_proc = (sleepy_loaded, Inr (sleepy_memory, True))"
proof -
  let ?cm = "new_configmap orders_object (Data sleepy_memory)"
  have "k_ReadCM (rc_Client sleepy_reconciler) ((sleepy_cluster, 0, 0), []) (store_key sleepy_object) = (((sleepy_cluster, 0, 0), []), Inr ?cm)"
    using new_configmap_sel(1)[of orders_object "Data sleepy_memory"]
    by (simp add: sleepy_reconciler_def run_reconciler_def wired_kube_def on_kube_def cluster_def cluster_cms_def sleepy_cluster_def
        store_key_def Name_def sleepy_object_def orders_object_def)
  moreover have "ownedBy ?cm sleepy_object" by (simp add: ownedBy_def new_configmap_def sleepy_object_def orders_object_def)
  moreover have "cm_Data ?cm = Data sleepy_memory" "cm_key ?cm = (''flink'', ''siesta-orders'')" by code_simp+
  moreover have "rc_Seen sleepy_reconciler" by (simp add: sleepy_reconciler_def run_reconciler_def)
  moreover have "repair sleepy_memory [] [] t0 = sleepy_memory" by code_simp
  moreover have "get_str (u_Annotations sleepy_object) (rc_Prefix sleepy_reconciler @ ''/state'') = []"
    "get_str (u_Annotations sleepy_object) (rc_Prefix sleepy_reconciler @ ''/reason'') = []" by code_simp+
  ultimately show ?thesis
    by (simp add: load_memory_def Load_def sleepy_proc_def sleepy_loaded_def sleepy_readable seen_put_def map_put_def Let_def)
qed

lemma sleepy_decided:
  "(case observe sleepy_reconciler orders_req sleepy_policy sleepy_memory (Live sleepy_object) sleepy_loaded of
     (ps2, obs, pol1, prev1) \<Rightarrow> d_Action (Decide main_decider pol1 prev1 (Live sleepy_object) obs t0)) = Suspend"
  by code_simp

lemma serves_log_wired: "serves_log c topic part l txns to opened \<Longrightarrow> serves_log (wired_client c) topic part l txns to opened"
  unfolding serves_log_def by (auto simp: wired_client_def on_broker_eq)

lemma sleepy_served: "served (wired_client example_client) example_logs (ss_world sleepy_proc)"
  unfolding served_def using example_log_ok example_serves
  by (auto simp: gaps_sound_def gaps_known_def sleepy_proc_def intro!: serves_log_wired)


end
