(* ===== verification/WakeUpExample.thy ===== *)
theory WakeUpExample
  imports WakeUp SafeSleepExample
begin

text \<open>
  The same program for a deployment it put to sleep an hour ago, when the broker's end offset was 5; now
  it is 6.
\<close>

definition slept_object :: Object where
  "slept_object = orders_object\<lparr>
     u_Annotations := [(''siesta.flink.io/mode'', ''auto''), (''siesta.flink.io/sources'', ''orders''), (''siesta.flink.io/state'', ''suspended'')],
     u_NestedString := (u_NestedString orders_object)(spec_job_state := ''suspended'', [''status'', ''lifecycleState''] := ''SUSPENDED'')\<rparr>"

abbreviation slept_memory :: State where
  "slept_memory \<equiv> asleep_state\<lparr>s_Snapshot := [(''orders'', ''5'')]\<rparr>"

definition slept_cluster :: Cluster where
  "slept_cluster =
     \<lparr>cl_Objects = [(orders_req, slept_object)],
      cl_ConfigMaps = [((''flink'', ''siesta-orders''), new_configmap orders_object (Data slept_memory))], cl_Revision = 7\<rparr>"

definition slept_reconciler :: "(Cluster, nat, nat) world Reconciler" where
  "slept_reconciler = run_reconciler (parseFlags example_env no_flags) cluster (\<lambda>c. t0) example_admin example_client sleepy_rest"

definition slept_proc :: "(Cluster, nat, nat) world Proc" where
  "slept_proc = \<lparr>ss_world = ((slept_cluster, 0, 0), []), ss_seen = [], pr_log = [], pr_jobs = [], pr_ticks = []\<rparr>"

definition slept_policy :: Policy where
  "slept_policy =
     \<lparr>p_Mode = ''auto'', p_Sources = [''orders''], p_SourcesAuto = False, p_IdleAfter = 336 * Hour, p_MinAwake = Hour,
      p_Restart = True, p_ConsumerGroup = [], p_IdleFromJob = False, p_ResumeFromGroup = False, p_MaxSleep = 144 * Hour,
      p_DryRun = False, p_Problems = []\<rparr>"

definition slept_loaded :: "(Cluster, nat, nat) world Proc" where
  "slept_loaded = slept_proc\<lparr>ss_seen := [((''flink'', ''siesta-orders''), new_configmap orders_object (Data slept_memory))]\<rparr>"

lemma slept_read: "Read ''siesta.flink.io'' (u_Annotations slept_object) = Some slept_policy"
  by code_simp

lemma slept_readable: "FromData (Data slept_memory) = Some slept_memory"
  by code_simp

lemma slept_found: "load_memory slept_reconciler slept_object (Live slept_object) t0 slept_proc = (slept_loaded, Inr (slept_memory, True))"
proof -
  let ?cm = "new_configmap orders_object (Data slept_memory)"
  have "k_ReadCM (rc_Client slept_reconciler) ((slept_cluster, 0, 0), []) (store_key slept_object) = (((slept_cluster, 0, 0), []), Inr ?cm)"
    using new_configmap_sel(1)[of orders_object "Data slept_memory"]
    by (simp add: slept_reconciler_def run_reconciler_def wired_kube_def on_kube_def cluster_def cluster_cms_def slept_cluster_def
        store_key_def Name_def slept_object_def orders_object_def)
  moreover have "ownedBy ?cm slept_object" by (simp add: ownedBy_def new_configmap_def slept_object_def orders_object_def)
  moreover have "cm_Data ?cm = Data slept_memory" "cm_key ?cm = (''flink'', ''siesta-orders'')" by code_simp+
  moreover have "rc_Seen slept_reconciler" by (simp add: slept_reconciler_def run_reconciler_def)
  moreover have "repair slept_memory Suspended [] t0 = slept_memory" by code_simp
  moreover have "get_str (u_Annotations slept_object) (rc_Prefix slept_reconciler @ ''/state'') = Suspended"
    "get_str (u_Annotations slept_object) (rc_Prefix slept_reconciler @ ''/reason'') = []" by code_simp+
  ultimately show ?thesis
    by (simp add: load_memory_def Load_def slept_proc_def slept_loaded_def slept_readable seen_put_def map_put_def Let_def)
qed

text \<open>The tick succeeds: both writes are evaluated, up to the one that ends a save.\<close>

lemma slept_writes:
  "(case observe slept_reconciler orders_req slept_policy slept_memory (Live slept_object) slept_loaded of
     (ps2, obs, pol1, prev1) \<Rightarrow>
       (case tick_decision slept_reconciler pol1 prev1 (Live slept_object) obs t0 ps2 of
          (ps3, d) \<Rightarrow>
            (case write_object slept_reconciler slept_object d (record_tick orders_req prev1 d t0 ps3) of
               (ps4, err) \<Rightarrow>
                 err = None \<and> humanVisible prev1 True d \<and> \<not> p_DryRun pol1 \<and>
                 snd (save_seen (rc_Client slept_reconciler) True slept_object (Data (d_Next d)) ps4) = Some None)))"
  by code_simp

lemma orderly_cluster: "orderly cluster cluster_cms cluster_obj orders_req"
proof -
  have "keeps_object cluster cluster_obj orders_req"
    by (auto simp: keeps_object_def cluster_def cluster_obj_def Let_def split: option.split)
  moreover have "object_key fd = orders_req" if "k_Get cluster w orders_req = (w', Inr fd)" for w w' fd
    by (rule cluster_obj_key[of w]) (use that in \<open>auto simp: cluster_def\<close>)
  ultimately show ?thesis
    using serves_cluster keeps_cms_cluster conditional_cluster unfolding orderly_def by blast
qed


end
