(* ===== verification/Spec2Isabelle.thy ===== *)
theory Spec2Isabelle
  imports PolicyProps Ticks MetricsAuth Metrics Footprint WakeUpExample
begin

text \<open>
  A verification of flink-siesta, the Kubernetes controller that puts Flink jobs to sleep when
  their Kafka sources have no input and wakes them when input arrives.

  \<^bold>\<open>The program.\<close> Every minute and on every relevant event the controller runs one tick per
  deployment (\<open>Reconcile\<close> in \<open>src/internal/controller/reconciler.go\<close>). A tick reads the
  FlinkDeployment and its policy annotations, loads what it remembers from a ConfigMap, asks the
  broker for end offsets, the consumer group for its lag and the running job for its position,
  decides (\<open>src/internal/decide\<close>), patches the deployment and its annotations in one conditional
  patch, and saves its memory. The patch comes first: if the second write is lost, the next tick
  repairs memory from the annotations. Around the tick stand the Kafka client's configuration and
  token source (\<open>src/internal/probe\<close>), the job's REST API (\<open>src/internal/flink\<close>), the metrics and the
  filter in front of them, and the binary that wires all of it (\<open>src/cmd/main.go\<close>).

  \<^bold>\<open>Conventions.\<close> A Go struct is a record, an enumeration a datatype, a map an association list
  read with \<open>map_of\<close>, a string its list of bytes, an \<open>int64\<close> an \<open>int\<close> with the wrap-around \<open>i64\<close>
  written where the code can overflow, a time the nanoseconds since the zero time. An error is a
  value of \<open>goerr\<close> with its text and what \<open>errors.Is\<close> finds in it. Calls to code outside the
  repository (the API server, the broker, the job, the identity provider, files) are parameters that
  take and return a world \<open>'w\<close>, so that they may answer differently each time; nothing is assumed
  of them but what a theorem says. What a tick says without being answered (events, metrics, log)
  is a list of effects in the order it is said.

  \<^bold>\<open>Theories.\<close>
  \<^item> \<open>GoLib\<close>, \<open>GoStrings\<close>, \<open>GoTime\<close>, \<open>GoTimeParse\<close>, \<open>GoFloat\<close>, \<open>Json\<close>, \<open>Url\<close>: the parts of Go's library the
    program uses, with their round trips, and the collection \<open>go_simps\<close>. A \<open>float64\<close> is the rational it
    holds, rounded where the code rounds.
  \<^item> \<open>Restart\<close> (\<open>state/restart.go\<close>), \<open>State\<close> and \<open>Codec\<close> (\<open>state/state.go\<close>): the restart budget, and memory
    with its ConfigMap form. \<open>Policy\<close>, \<open>PolicyProps\<close> (\<open>policy/policy.go\<close>): the annotations a user writes.
  \<^item> \<open>Decide\<close> (\<open>decide/decide.go\<close>, \<open>jobgate.go\<close>, \<open>reasons.go\<close>): the decision, one definition per gate in the
    order of the code. \<open>DecideFacts\<close>, \<open>DecideProps\<close>: when exactly each action is taken. \<open>DecideMemory\<close>:
    what memory holds afterwards. \<open>JobGate\<close>: when exactly a job counts as idle. \<open>Scenario\<close>: concrete
    deployments, with the decider built as \<open>cmd/main.go\<close> builds it. \<open>Ticks\<close>: sequences of decisions.
  \<^item> \<open>Probe\<close> (\<open>probe/probe.go\<close>, \<open>kafka.go\<close>): end offsets and lag. \<open>Gap\<close>, \<open>GapProps\<close> (\<open>probe/gap.go\<close>): whether
    a range of offsets holds a record that is delivered to a reader of committed data, against a log of
    batches with aborted transactions; \<open>Drained\<close> puts the probe behind the reconciler's questions.
  \<^item> \<open>Rest\<close>, \<open>RestProps\<close> (\<open>flink/rest.go\<close>): the topics, positions and idle times a job shows, and the requests
    that ask for them; the HTTP client and the JSON decoder are parameters. \<open>Footprint\<close>
    (\<open>flink/footprint.go\<close>): what a deployment holds while awake; quantities are parsed by a parameter.
  \<^item> \<open>Flink\<close> (\<open>flink/flinkdeployment.go\<close>, \<open>controller/predicate.go\<close>): what a tick reads of a deployment, and
    which events reach it.
  \<^item> \<open>Kube\<close>: the API server's calls, and the interface \<open>cache\<close> of the process' maps. \<open>Store\<close>, \<open>StoreProps\<close>
    (\<open>store/store.go\<close>): the ConfigMap with its cache, refining one cell that is written and read.
    \<open>Cluster\<close>: a small API server for examples.
  \<^item> \<open>Proc\<close>, \<open>Patcher\<close>, \<open>Reconciler\<close> (\<open>controller\<close>): the process, the conditional patch and the whole tick.
    \<open>PatcherProps\<close>, \<open>ReconcilerProps\<close>, \<open>TickFrame\<close>, \<open>TickProps\<close>, \<open>Recovery\<close>, \<open>Reach\<close>, \<open>JobProps\<close>: its
    properties. \<open>Examples\<close>: runs of it.
  \<^item> \<open>KafkaConfig\<close>, \<open>OAuth\<close>, \<open>KafkaOpts\<close> (\<open>probe/kafkaconfig.go\<close>, \<open>oauth.go\<close>): the client's configuration, its
    credentials and tokens. \<open>MetricsAuth\<close> (\<open>metricsauth\<close>), \<open>Metrics\<close> (\<open>metrics\<close>): the filter and the registry.
  \<^item> \<open>Wiring\<close> (\<open>cmd/main.go\<close>): the flags, the set-up and the controller with all its probes over one world.
    \<open>SafeSleep\<close>: what a suspension by the whole program rests on. \<open>WakeUp\<close>: input found by a tick makes the
    job run. \<open>WiringExample\<close>, \<open>SafeSleepExample\<close>, \<open>WakeUpExample\<close>: runs of it.

  \<^bold>\<open>Interfaces.\<close> \<open>cache\<close> (\<open>Kube\<close>): what a map of the process promises. \<open>codec\<close> (\<open>StoreProps\<close>): a form that
  reads back as what was written, up to whole seconds; interpreted for the clock, the budget and
  memory. \<open>says_only\<close> and \<open>tick_frame\<close> (\<open>TickFrame\<close>): what every step of a tick leaves alone; interpreted
  for the store, the log and the still world, \<open>tick_frame\<close> also for the remembered ranges of the gap probe
  (\<open>SafeSleep\<close>). \<open>gap_probe\<close> (\<open>JobProps\<close>): a probe whose questions keep the world fine; interpreted for any
  probe, and in \<open>Drained\<close> for \<open>Records\<close>.

  \<^bold>\<open>What is shown.\<close>
  \<^item> The decision: each action is taken exactly under its conditions, an unknown observation never
    acts, a resumed job keeps its windows, input that arrives in a sleep wakes the job.
  \<^item> The tick: it returns; it writes nothing when nothing changed; in dry run it never writes a spec;
    an unreadable policy is never acted on; a patch never overwrites a state it was not decided on;
    a removed policy hands the job back awake.
  \<^item> Lost writes: a suspend, resume, mark or restart whose memory write was lost is recovered, and
    counted once. Every memory a run can reach is well-formed.
  \<^item> The probes: lag, end offsets and gaps are exact; a reading of the job is evidence from all of its
    sources; the topics a job shows settle before they count.
  \<^item> The program: whatever the flags and the environment, once set up every tick returns, and a tick
    that suspends a job which is asked first leaves no record unread that a reader is given; a tick that
    finds input for a job it put to sleep leaves the job running, or reports an error.
  \<^item> The edges: only vouched callers read the metrics, an accepted Kafka configuration is as strong as
    it says, a token is never used in its last minute, the gauges show the decision.

  \<^bold>\<open>Bounds.\<close> \<open>Save\<close> calls itself after deleting a stale ConfigMap and is therefore a partial function; it
  is shown to return against a server that does what it answers. The fetches of \<open>Records\<close> are bounded
  by the code's own eight, the gap questions by its sixteen; every other loop ends with its list or
  bytes.

  \<^bold>\<open>Not modelled.\<close> Concurrency within the process: a deployment is reconciled by one worker at a time,
  which the work queue guarantees, and the shared maps are behind mutexes. Timeouts and cancelled
  contexts appear as errors of the calls. The version command, logging set-up and health endpoints of
  \<open>cmd/main.go\<close>, the registration and rendering of metrics, and TLS, SASL and HTTP themselves belong to
  libraries; the code that configures them is modelled.
\<close>

end
